(* ===== verification/Prelude.thy ===== *)
theory Prelude
  imports
    Main
    "HOL-Library.AList"
    "HOL-Library.Char_ord"
    "HOL-Library.List_Lexorder"
    "HOL-Library.Product_Lexorder"
begin

text \<open>
  Shared vocabulary of the development: Go strings and the functions of the
  standard packages \<open>strings\<close> and \<open>sort\<close> the sources use, Go errors as values
  with the observations the sources make of them, and the combinator for the
  idiom \<open>if err != nil { return fmt.Errorf("...: %w", err) }\<close>.

  A Go string is a byte string, so it is a \<open>string\<close> (a list of 8-bit
  \<open>char\<close>s). Go compares strings byte by byte, which is the order of
  \<open>HOL-Library.List_Lexorder\<close> over \<open>HOL-Library.Char_ord\<close>; hence
  \<open>sort.Strings\<close> is \<open>sort\<close>.
\<close>

named_theorems go_calls \<open>elimination of the error-propagation combinators\<close>
named_theorems go_errors \<open>observations of error values\<close>
named_theorems go_strings \<open>facts about the string functions of the standard library\<close>

section \<open>Strings\<close>

text \<open>\<open>strings.IndexByte\<close>: the index of the first occurrence, \<open>-1\<close> when there is none.\<close>

fun IndexByte :: "string \<Rightarrow> char \<Rightarrow> int" where
  "IndexByte [] c = -1"
| "IndexByte (x # xs) c =
     (if x = c then 0 else if IndexByte xs c < 0 then -1 else IndexByte xs c + 1)"

text \<open>The slice \<open>s[i:j]\<close>, for \<open>0 \<le> i \<le> j \<le> len(s)\<close>.\<close>

definition slice :: "string \<Rightarrow> int \<Rightarrow> int \<Rightarrow> string" where
  "slice s i j = take (nat (j - i)) (drop (nat i) s)"

text \<open>\<open>strings.Split(s, c)\<close> for a separator of one byte.\<close>

fun Split :: "string \<Rightarrow> char \<Rightarrow> string list" where
  "Split [] c = [[]]"
| "Split (x # xs) c =
     (if x = c then [] # Split xs c
      else (case Split xs c of [] \<Rightarrow> [[x]] | y # ys \<Rightarrow> (x # y) # ys))"

text \<open>\<open>strings.HasPrefix\<close> and \<open>strings.Contains\<close>.\<close>

definition HasPrefix :: "string \<Rightarrow> string \<Rightarrow> bool" where
  "HasPrefix s p \<longleftrightarrow> take (length p) s = p"

fun Contains :: "string \<Rightarrow> string \<Rightarrow> bool" where
  "Contains [] sub \<longleftrightarrow> sub = []"
| "Contains (x # xs) sub \<longleftrightarrow> HasPrefix (x # xs) sub \<or> Contains xs sub"

text \<open>\<open>strings.ReplaceAll\<close> of one byte by another.\<close>

definition ReplaceAll :: "string \<Rightarrow> char \<Rightarrow> char \<Rightarrow> string" where
  "ReplaceAll s a b = map (\<lambda>x. if x = a then b else x) s"

text \<open>\<open>strings.Cut(s, c)\<close>: the text before and after the first \<open>c\<close>, and whether it occurs.\<close>

definition Cut :: "string \<Rightarrow> char \<Rightarrow> string \<times> string \<times> bool" where
  "Cut s c =
     (let i = IndexByte s c in
      if 0 \<le> i then (slice s 0 i, drop (nat (i + 1)) s, True) else (s, [], False))"

text \<open>\<open>strings.Join\<close>.\<close>

fun Join :: "string list \<Rightarrow> string \<Rightarrow> string" where
  "Join [] sep = []"
| "Join [x] sep = x"
| "Join (x # y # xs) sep = x @ sep @ Join (y # xs) sep"

section \<open>Errors\<close>

text \<open>
  An error value. \<open>ErrorString\<close> is \<open>errors.New\<close> or an \<open>fmt.Errorf\<close> that
  wraps nothing; \<open>WrapError p e\<close> is \<open>fmt.Errorf("p: %w", e)\<close>. An error that
  comes from a client library is an \<open>ExternalError\<close>, a leaf that carries exactly
  what the sources ask of it: its gRPC status code, if it has one
  (\<open>status.FromError\<close>), whether it is a Kubernetes NotFound
  (\<open>apierrors.IsNotFound\<close>), whether it is a no-match error of the REST mapper
  (\<open>meta.IsNoMatchError\<close>), and its text. The last two constructors are error
  types the sources declare themselves.
\<close>

datatype go_error =
    ErrorString string
  | WrapError string go_error
  | ExternalError (ext_code: "nat option") (ext_not_found: bool) (ext_no_match: bool) (ext_text: string)
  | TargetNotHeldError string
  | MissingNamespaceError string string

text \<open>The verb \<open>'%s'\<close> of a format string.\<close>

definition quoted :: "string \<Rightarrow> string" where
  "quoted s = [CHR 0x27] @ s @ [CHR 0x27]"

text \<open>The verb \<open>%d\<close> for a length.\<close>

fun format_nat :: "nat \<Rightarrow> string" where
  "format_nat n = (if n < 10 then [char_of (48 + n)] else format_nat (n div 10) @ [char_of (48 + n mod 10)])"

declare format_nat.simps [simp del]

fun Error :: "go_error \<Rightarrow> string" where
  "Error (ErrorString s) = s"
| "Error (WrapError p e) = p @ '': '' @ Error e"
| "Error (ExternalError c nf nm t) = t"
| "Error (TargetNotHeldError r) = ''no permissions written: '' @ r"
| "Error (MissingNamespaceError gk n) =
     ''namespace is required for namespaced kind '' @ quoted gk @
     '' but was not provided for resource '' @ quoted n"

text \<open>The functions built on \<open>errors.As\<close> look through the wrapping.\<close>

fun status_FromError :: "go_error \<Rightarrow> nat option" where
  "status_FromError (WrapError p e) = status_FromError e"
| "status_FromError (ExternalError c nf nm t) = c"
| "status_FromError _ = None"

text \<open>\<open>status.Code\<close>: a non-status error has the code \<open>Unknown\<close>, which is 2.\<close>

definition status_Code :: "go_error \<Rightarrow> nat" where
  "status_Code e = (case status_FromError e of None \<Rightarrow> 2 | Some c \<Rightarrow> c)"

fun IsNotFound :: "go_error \<Rightarrow> bool" where
  "IsNotFound (WrapError p e) = IsNotFound e"
| "IsNotFound (ExternalError c nf nm t) = nf"
| "IsNotFound _ = False"

fun IsNoMatchError :: "go_error \<Rightarrow> bool" where
  "IsNoMatchError (WrapError p e) = IsNoMatchError e"
| "IsNoMatchError (ExternalError c nf nm t) = nm"
| "IsNoMatchError _ = False"

fun As_TargetNotHeldError :: "go_error \<Rightarrow> string option" where
  "As_TargetNotHeldError (WrapError p e) = As_TargetNotHeldError e"
| "As_TargetNotHeldError (TargetNotHeldError r) = Some r"
| "As_TargetNotHeldError _ = None"

type_synonym 'a result = "go_error + 'a"

text \<open>
  A call that may change the world \<open>'w\<close> returns its result with the new world.
  \<open>try_call m wrap k\<close> is the source's
  \<open>x, err := m; if err != nil { return wrap(err) }; k(x)\<close>.
\<close>

type_synonym ('a, 'w) call = "'a result \<times> 'w"

definition try_call ::
    "('a, 'w) call \<Rightarrow> (go_error \<Rightarrow> go_error) \<Rightarrow> ('a \<Rightarrow> 'w \<Rightarrow> ('b, 'w) call) \<Rightarrow> ('b, 'w) call" where
  "try_call m wrap k = (case m of (Inl e, w) \<Rightarrow> (Inl (wrap e), w) | (Inr a, w) \<Rightarrow> k a w)"

definition try_pure :: "'a result \<Rightarrow> (go_error \<Rightarrow> go_error) \<Rightarrow> ('a \<Rightarrow> 'b result) \<Rightarrow> 'b result" where
  "try_pure r wrap k = (case r of Inl e \<Rightarrow> Inl (wrap e) | Inr a \<Rightarrow> k a)"

text \<open>
  A computation whose loops may not end is an option: \<open>None\<close> is not returning.
  \<open>go_try\<close> sequences such computations the way \<open>try_call\<close> does.
\<close>

type_synonym ('a, 'w) comp = "('a, 'w) call option"

definition go_try ::
    "('a, 'w) comp \<Rightarrow> (go_error \<Rightarrow> go_error) \<Rightarrow> ('a \<Rightarrow> 'w \<Rightarrow> ('b, 'w) comp) \<Rightarrow> ('b, 'w) comp" where
  "go_try m wrap k =
     (case m of None \<Rightarrow> None
      | Some (Inl e, w) \<Rightarrow> Some (Inl (wrap e), w)
      | Some (Inr a, w) \<Rightarrow> k a w)"

text \<open>A read as a computation that leaves the world alone.\<close>

definition reading :: "'a result option \<Rightarrow> 'w \<Rightarrow> ('a, 'w) comp" where
  "reading m w = map_option (\<lambda>r. (r, w)) m"

section \<open>Lemmas on the combinators\<close>

lemma try_call_simps [simp]:
  "try_call (Inl e, w) f k = (Inl (f e), w)"
  "try_call (Inr a, w) f k = k a w"
  by (simp_all add: try_call_def)

lemma try_pure_simps [simp]:
  "try_pure (Inl e) f k = Inl (f e)"
  "try_pure (Inr a) f k = k a"
  by (simp_all add: try_pure_def)

lemma try_call_ok_iff [go_calls]:
  "try_call m f k = (Inr b, w') \<longleftrightarrow> (\<exists>a w1. m = (Inr a, w1) \<and> k a w1 = (Inr b, w'))"
  by (auto simp: try_call_def split: prod.splits sum.splits)

lemma try_pure_ok_iff [go_calls]:
  "try_pure r f k = Inr b \<longleftrightarrow> (\<exists>a. r = Inr a \<and> k a = Inr b)"
  by (auto simp: try_pure_def split: sum.splits)

lemma go_try_simps [simp]:
  "go_try None f k = None"
  "go_try (Some (Inl e, w)) f k = Some (Inl (f e), w)"
  "go_try (Some (Inr a, w)) f k = k a w"
  by (simp_all add: go_try_def)

lemma go_try_ok_iff [go_calls]:
  "go_try m f k = Some (Inr b, w') \<longleftrightarrow> (\<exists>a w1. m = Some (Inr a, w1) \<and> k a w1 = Some (Inr b, w'))"
  by (auto simp: go_try_def split: option.splits prod.splits sum.splits)

lemma go_try_None_iff:
  "go_try m f k = None \<longleftrightarrow> m = None \<or> (\<exists>a w. m = Some (Inr a, w) \<and> k a w = None)"
  by (auto simp: go_try_def split: option.splits prod.splits sum.splits)

lemma go_try_Some_cases:
  assumes "go_try m f k = Some (r, w')"
  obtains (fails) e where "m = Some (Inl e, w')" and "r = Inl (f e)"
    | (goes) a w where "m = Some (Inr a, w)" and "k a w = Some (r, w')"
  using assms by (auto simp: go_try_def split: option.splits prod.splits sum.splits)

lemma go_try_cong [fundef_cong]:
  assumes "m = m'" and "\<And>a w. m' = Some (Inr a, w) \<Longrightarrow> k a w = k' a w"
  shows "go_try m f k = go_try m' f k'"
  using assms by (auto simp: go_try_def split: option.splits prod.splits sum.splits)

lemma try_call_cong [fundef_cong]:
  assumes "m = m'" and "\<And>a w. m' = (Inr a, w) \<Longrightarrow> k a w = k' a w"
  shows "try_call m f k = try_call m' f k'"
  using assms by (auto simp: try_call_def split: prod.splits sum.splits)

lemma try_pure_cong [fundef_cong]:
  assumes "r = r'" and "\<And>a. r' = Inr a \<Longrightarrow> k a = k' a"
  shows "try_pure r f k = try_pure r' f k'"
  using assms by (auto simp: try_pure_def split: sum.splits)

section \<open>Lemmas on strings\<close>

lemma IndexByte_ge [simp]: "-1 \<le> IndexByte s c"
  by (induction s c rule: IndexByte.induct) auto

lemma IndexByte_neg_iff [go_strings]: "IndexByte s c < 0 \<longleftrightarrow> c \<notin> set s"
  by (induction s c rule: IndexByte.induct) auto

lemma IndexByte_append [go_strings]:
  "c \<notin> set xs \<Longrightarrow> IndexByte (xs @ c # ys) c = int (length xs)"
  by (induction xs) auto

lemma IndexByte_decomp:
  assumes "0 \<le> IndexByte s c"
  obtains xs ys where "s = xs @ c # ys" and "c \<notin> set xs" and "IndexByte s c = int (length xs)"
proof -
  from assms have "c \<in> set s" by (metis IndexByte_neg_iff not_less)
  then obtain xs ys where "s = xs @ c # ys" "c \<notin> set xs" by (metis split_list_first)
  then show thesis using that by (simp add: IndexByte_append)
qed

lemma Split_nonempty [simp]: "Split s c \<noteq> []"
  by (induction s c rule: Split.induct) (auto split: list.splits)

lemma Split_no_sep [go_strings]: "c \<notin> set s \<Longrightarrow> Split s c = [s]"
  by (induction s c rule: Split.induct) auto

lemma Split_append [go_strings]: "c \<notin> set xs \<Longrightarrow> Split (xs @ c # ys) c = xs # Split ys c"
  by (induction xs) auto

lemma length_Split: "length (Split s c) = Suc (count_list s c)"
  by (induction s c rule: Split.induct) (auto split: list.splits)

lemma Split_singleton: "Split s c = [x] \<Longrightarrow> s = x \<and> c \<notin> set s"
  using length_Split[of s c] by (cases "c \<in> set s") (auto simp: count_list_0_iff Split_no_sep)

lemma Split_pair:
  assumes "Split s c = [x, y]"
  shows "s = x @ c # y \<and> c \<notin> set x \<and> c \<notin> set y"
proof -
  have "c \<in> set s" using assms by (metis Split_no_sep list.inject list.distinct(1))
  then obtain xs ys where s: "s = xs @ c # ys" "c \<notin> set xs" by (metis split_list_first)
  with assms have "xs = x" "Split ys c = [y]" by (auto simp: Split_append)
  with s Split_singleton[of ys c y] show ?thesis by auto
qed

lemma Cut_append [go_strings]: "c \<notin> set xs \<Longrightarrow> Cut (xs @ c # ys) c = (xs, ys, True)"
  by (simp add: Cut_def IndexByte_append slice_def nat_add_distrib)

lemma Cut_no_sep [go_strings]: "c \<notin> set s \<Longrightarrow> Cut s c = (s, [], False)"
  using IndexByte_neg_iff[of s c] by (simp add: Cut_def)

lemma HasPrefix_append [simp, go_strings]: "HasPrefix (p @ s) p"
  by (simp add: HasPrefix_def)

lemma Contains_append [go_strings]: "Contains (a @ sub @ b) sub"
proof (induction a)
  case Nil
  have "HasPrefix (sub @ b) sub" by simp
  then show ?case by (cases "sub @ b") auto
next
  case (Cons x a)
  then show ?case by simp
qed

lemma ReplaceAll_no_src [go_strings]: "a \<noteq> b \<Longrightarrow> a \<notin> set (ReplaceAll s a b)"
  by (auto simp: ReplaceAll_def)

end
