(* ===== verification/Api_Types.thy ===== *)
theory Api_Types
  imports Prelude
begin

text \<open>
  The API objects the sources work on: the custom resources of
  \<open>go.miloapis.com/milo\<close> (ProtectedResource, Role, PolicyBinding) and the
  messages of the OpenFGA API, as records of the fields the sources read or write.
  Both packages are outside the repository; only their data is represented here. A
  nil pointer is \<open>None\<close>, a nil slice or map is the empty list or map, and a
  deletion timestamp is the boolean ``it is set''.
\<close>

section \<open>Milo custom resources\<close>

record ParentResourceRef =
  parent_APIGroup :: string
  parent_Kind :: string

record SubresourceDefinition =
  sub_Name :: string
  sub_Permissions :: "string list"

record ProtectedResourceSpec =
  ServiceRef_Name :: string
  spec_Kind :: string
  spec_Plural :: string
  spec_Permissions :: "string list"
  spec_Subresources :: "SubresourceDefinition list"
  spec_ParentResources :: "ParentResourceRef list"

record ProtectedResource =
  pr_Name :: string
  pr_UID :: string
  pr_DeletionTimestamp :: bool
  pr_Spec :: ProtectedResourceSpec

record RoleReference =
  roleRef_Name :: string
  roleRef_Namespace :: string

record Role =
  role_Namespace :: string
  role_Name :: string
  role_UID :: string
  role_DeletionTimestamp :: bool
  role_IncludedPermissions :: "string list"
  role_InheritedRoles :: "RoleReference list"
  role_EffectivePermissions :: "string list"

record Subject =
  subject_Kind :: string
  subject_Name :: string
  subject_UID :: string
  subject_Namespace :: string

record ResourceReference =
  ref_APIGroup :: string
  ref_Kind :: string
  ref_Name :: string
  ref_UID :: string
  ref_Namespace :: string

record ResourceKindRef =
  kind_APIGroup :: string
  kind_Kind :: string

record ResourceSelector =
  sel_ResourceRef :: "ResourceReference option"
  sel_ResourceKind :: "ResourceKindRef option"

record PolicyBinding =
  pb_Namespace :: string
  pb_Name :: string
  pb_DeletionTimestamp :: bool
  pb_RoleRef :: RoleReference
  pb_Subjects :: "Subject list"
  pb_ResourceSelector :: ResourceSelector

section \<open>OpenFGA messages\<close>

text \<open>A tuple key; no code of the repository sets a condition, but stored tuples may carry one.\<close>

record TupleKey =
  tk_User :: string
  tk_Relation :: string
  tk_Object :: string
  tk_Condition :: "string option"

record TupleKeyWithoutCondition =
  tkd_User :: string
  tkd_Relation :: string
  tkd_Object :: string

text \<open>
  A userset rewrite. \<open>Userset_This None\<close> is the oneof member set to a nil
  \<open>DirectUserset\<close>, \<open>Userset_This (Some ())\<close> the one set to an empty message.
\<close>

datatype Userset =
    Userset_This "unit option"
  | Userset_ComputedUserset string
  | Userset_TupleToUserset string string
  | Userset_Union "Userset list"

record RelationReference =
  rr_Type :: string
  rr_Relation :: "string option"

record RelationMetadata =
  rm_DirectlyRelatedUserTypes :: "RelationReference list"

record Metadata =
  md_Relations :: "(string \<times> RelationMetadata) list"
  md_SourceFile :: string
  md_Module :: string

record TypeDefinition =
  td_Type :: string
  td_Relations :: "(string \<times> Userset) list"
  td_Metadata :: Metadata

record AuthorizationModel =
  am_Id :: string
  am_SchemaVersion :: string
  am_TypeDefinitions :: "TypeDefinition list"
  am_Conditions :: "(string \<times> string) list"

end
