(* ===== verification/Permissions.thy ===== *)
theory Permissions
  imports Api_Types
begin

text \<open>
  Package \<open>internal/permissions\<close> (\<open>permissions.go\<close>): the canonical permission
  identity, its text form, the parser, and the two ways the system asks which
  permissions a ProtectedResource registers (\<open>Defined\<close> for one permission,
  \<open>Enumerate\<close> for all of them). The lemmas show that \<open>Parse\<close> is exactly the
  inverse of \<open>String\<close> on well-formed permissions, and that the two registries
  agree on well-formed specifications.
\<close>

section \<open>Model\<close>

record Permission =
  perm_APIGroup :: string
  perm_Resource :: string
  perm_Subresource :: string
  perm_Verb :: string

definition Permission_String :: "Permission \<Rightarrow> string" where
  "Permission_String p =
     (let resource = perm_Resource p;
          resource = (if perm_Subresource p \<noteq> [] then resource @ ''/'' @ perm_Subresource p else resource)
      in perm_APIGroup p @ ''/'' @ resource @ ''.'' @ perm_Verb p)"

text \<open>\<open>None\<close> is the source's \<open>Permission{}, false\<close>.\<close>

definition Parse :: "string \<Rightarrow> Permission option" where
  "Parse value =
     (let slash = IndexByte value (CHR ''/'');
          offset = IndexByte (drop (nat (slash + 1)) value) (CHR ''.'');
          dot = (if 0 \<le> slash \<and> 0 \<le> offset then slash + 1 + offset else -1)
      in if slash \<le> 0 \<or> dot \<le> slash + 1 \<or> dot = int (length value) - 1 then None
         else let path = Split (slice value (slash + 1) dot) (CHR ''/'')
         in if length path < 1 \<or> length path > 2 then None
         else if list_ex (\<lambda>part. part = [] \<or> Contains part ''.'') path then None
         else let verb = drop (nat (dot + 1)) value
         in Some \<lparr>perm_APIGroup = slice value 0 slash, perm_Resource = path ! 0,
                  perm_Subresource = (if length path = 2 then path ! 1 else []), perm_Verb = verb\<rparr>)"

fun find_subresource :: "SubresourceDefinition list \<Rightarrow> string \<Rightarrow> string list" where
  "find_subresource [] name = []"
| "find_subresource (sub # subs) name =
     (if sub_Name sub = name then sub_Permissions sub else find_subresource subs name)"

definition Defined :: "ProtectedResourceSpec \<Rightarrow> Permission \<Rightarrow> bool \<Rightarrow> bool" where
  "Defined spec p enableSubresources =
     (if perm_APIGroup p \<noteq> ServiceRef_Name spec \<or> perm_Resource p \<noteq> spec_Plural spec then False
      else if perm_Subresource p \<noteq> [] \<and> \<not> enableSubresources then False
      else let verbs = (if perm_Subresource p \<noteq> []
                        then find_subresource (spec_Subresources spec) (perm_Subresource p)
                        else spec_Permissions spec)
      in list_ex (\<lambda>verb. verb = perm_Verb p) verbs)"

definition Enumerate :: "ProtectedResourceSpec \<Rightarrow> bool \<Rightarrow> string list" where
  "Enumerate spec enableSubresources =
     (if spec_Plural spec = [] then []
      else map (\<lambda>verb. Permission_String
                  \<lparr>perm_APIGroup = ServiceRef_Name spec, perm_Resource = spec_Plural spec,
                   perm_Subresource = [], perm_Verb = verb\<rparr>) (spec_Permissions spec) @
           (if enableSubresources
            then concat (map (\<lambda>sub. map (\<lambda>verb. Permission_String
                    \<lparr>perm_APIGroup = ServiceRef_Name spec, perm_Resource = spec_Plural spec,
                     perm_Subresource = sub_Name sub, perm_Verb = verb\<rparr>) (sub_Permissions sub))
                  (spec_Subresources spec))
            else []))"

section \<open>Well-formedness\<close>

text \<open>The grammar \<open>group/resource.verb\<close> or \<open>group/resource/subresource.verb\<close>.\<close>

definition wf_segment :: "string \<Rightarrow> bool" where
  "wf_segment s \<longleftrightarrow> CHR ''/'' \<notin> set s \<and> CHR ''.'' \<notin> set s"

definition wf_permission :: "Permission \<Rightarrow> bool" where
  "wf_permission p \<longleftrightarrow>
     perm_APIGroup p \<noteq> [] \<and> CHR ''/'' \<notin> set (perm_APIGroup p) \<and>
     perm_Resource p \<noteq> [] \<and> wf_segment (perm_Resource p) \<and>
     wf_segment (perm_Subresource p) \<and> perm_Verb p \<noteq> []"

text \<open>
  A specification whose names fit that grammar and whose subresources have distinct,
  non-empty names (they are a map list keyed by name in the custom resource).
\<close>

definition wf_spec :: "ProtectedResourceSpec \<Rightarrow> bool" where
  "wf_spec spec \<longleftrightarrow>
     ServiceRef_Name spec \<noteq> [] \<and> CHR ''/'' \<notin> set (ServiceRef_Name spec) \<and>
     spec_Plural spec \<noteq> [] \<and> wf_segment (spec_Plural spec) \<and>
     [] \<notin> set (spec_Permissions spec) \<and>
     distinct (map sub_Name (spec_Subresources spec)) \<and>
     list_all (\<lambda>sub. sub_Name sub \<noteq> [] \<and> wf_segment (sub_Name sub) \<and> [] \<notin> set (sub_Permissions sub))
       (spec_Subresources spec)"

section \<open>The parser inverts the printer\<close>

lemma Contains_dot [simp]: "Contains s ''.'' \<longleftrightarrow> CHR ''.'' \<in> set s"
  by (induction s) (auto simp: HasPrefix_def)

lemma Permission_String_simps:
  "perm_Subresource p = [] \<Longrightarrow>
     Permission_String p = perm_APIGroup p @ CHR ''/'' # (perm_Resource p @ CHR ''.'' # perm_Verb p)"
  "perm_Subresource p \<noteq> [] \<Longrightarrow>
     Permission_String p = perm_APIGroup p @ CHR ''/'' #
       ((perm_Resource p @ CHR ''/'' # perm_Subresource p) @ CHR ''.'' # perm_Verb p)"
  by (simp_all add: Permission_String_def)

text \<open>\<open>Parse\<close> on a string cut at its first slash and at the first dot after it.\<close>

lemma Parse_cut:
  assumes "CHR ''/'' \<notin> set g" and "CHR ''.'' \<notin> set r"
  shows "Parse (g @ CHR ''/'' # (r @ CHR ''.'' # v)) =
    (if g = [] \<or> r = [] \<or> v = [] then None
     else let path = Split r (CHR ''/'')
     in if 2 < length path \<or> list_ex (\<lambda>part. part = []) path then None
     else Some \<lparr>perm_APIGroup = g, perm_Resource = path ! 0,
                perm_Subresource = (if length path = 2 then path ! 1 else []), perm_Verb = v\<rparr>)"
proof -
  let ?s = "g @ CHR ''/'' # (r @ CHR ''.'' # v)"
  have slash: "IndexByte ?s (CHR ''/'') = int (length g)"
    by (rule IndexByte_append) (rule assms)
  have rest: "drop (nat (int (length g) + 1)) ?s = r @ CHR ''.'' # v"
    by (simp add: nat_add_distrib)
  have dot: "IndexByte (r @ CHR ''.'' # v) (CHR ''.'') = int (length r)"
    by (rule IndexByte_append) (rule assms)
  have path: "slice ?s (int (length g) + 1) (int (length g) + 1 + int (length r)) = r"
    by (simp add: slice_def nat_add_distrib)
  have no_dot: "list_ex (\<lambda>part. part = [] \<or> CHR ''.'' \<in> set part) (Split r (CHR ''/''))
      = list_ex (\<lambda>part. part = []) (Split r (CHR ''/''))"
  proof -
    have "CHR ''.'' \<notin> set x" if "x \<in> set (Split r c)" for x c
      using that assms(2) by (induction r c arbitrary: x rule: Split.induct) (auto split: if_splits list.splits)
    then show ?thesis by (induction "Split r (CHR ''/'')") (auto simp: list_ex_iff)
  qed
  have verb: "drop (nat (int (length g) + 1 + int (length r) + 1)) ?s = v"
    by (simp add: nat_add_distrib)
  have group: "slice ?s 0 (int (length g)) = g" by (simp add: slice_def)
  have end_iff: "int (length g) + 1 + int (length r) = int (length ?s) - 1 \<longleftrightarrow> v = []" by simp
  have "length (Split r (CHR ''/'')) \<ge> 1" by (simp add: length_Split)
  then show ?thesis
    unfolding Parse_def Let_def slash rest dot Contains_dot
    by (simp only: path verb group no_dot end_iff if_True of_nat_0_le_iff simp_thms)
      (simp add: not_less)
qed

lemma Parse_String:
  assumes "wf_permission p"
  shows "Parse (Permission_String p) = Some p"
proof (cases "perm_Subresource p = []")
  case True
  with assms show ?thesis
    by (simp add: Permission_String_simps Parse_cut wf_permission_def wf_segment_def Split_no_sep)
next
  case False
  let ?r = "perm_Resource p @ CHR ''/'' # perm_Subresource p"
  have "Split ?r (CHR ''/'') = [perm_Resource p, perm_Subresource p]"
    using assms by (simp add: wf_permission_def wf_segment_def Split_append Split_no_sep)
  moreover have "CHR ''/'' \<notin> set (perm_APIGroup p)" "CHR ''.'' \<notin> set ?r"
    using assms by (simp_all add: wf_permission_def wf_segment_def)
  ultimately show ?thesis
    using assms False
    by (simp add: Permission_String_simps(2) Parse_cut[of _ ?r] wf_permission_def del: append_assoc)
qed

lemma Parse_None_no_slash: "CHR ''/'' \<notin> set s \<Longrightarrow> Parse s = None"
  using IndexByte_neg_iff[of s "CHR ''/''"] by (simp add: Parse_def Let_def)

lemma Parse_Some_decomp:
  assumes "Parse s = Some p"
  obtains g r v where "s = g @ CHR ''/'' # (r @ CHR ''.'' # v)"
    and "CHR ''/'' \<notin> set g" and "CHR ''.'' \<notin> set r"
proof -
  have "CHR ''/'' \<in> set s" using assms Parse_None_no_slash by fastforce
  then obtain g t where s: "s = g @ CHR ''/'' # t" "CHR ''/'' \<notin> set g" by (metis split_list_first)
  have "CHR ''.'' \<in> set t"
  proof (rule ccontr)
    assume "CHR ''.'' \<notin> set t"
    then have "IndexByte t (CHR ''.'') < 0" by (simp add: IndexByte_neg_iff)
    then have "Parse s = None"
      unfolding Parse_def Let_def s(1) IndexByte_append[OF s(2)] by (simp add: nat_add_distrib)
    with assms show False by simp
  qed
  then obtain r v where "t = r @ CHR ''.'' # v" "CHR ''.'' \<notin> set r" by (metis split_list_first)
  with s that show thesis by blast
qed

lemma Parse_Some_sound:
  assumes "Parse s = Some p"
  shows "wf_permission p \<and> Permission_String p = s"
proof -
  from assms obtain g r v where s: "s = g @ CHR ''/'' # (r @ CHR ''.'' # v)"
    and g: "CHR ''/'' \<notin> set g" and r: "CHR ''.'' \<notin> set r"
    by (rule Parse_Some_decomp)
  let ?path = "Split r (CHR ''/'')"
  have cut: "(if g = [] \<or> r = [] \<or> v = [] then None
     else if 2 < length ?path \<or> list_ex (\<lambda>part. part = []) ?path then None
     else Some \<lparr>perm_APIGroup = g, perm_Resource = ?path ! 0,
                perm_Subresource = (if length ?path = 2 then ?path ! 1 else []), perm_Verb = v\<rparr>) = Some p"
    using assms unfolding s Parse_cut[OF g r] Let_def .
  then have nonempty: "g \<noteq> []" "r \<noteq> []" "v \<noteq> []"
    and len: "length ?path \<le> 2" and parts: "[] \<notin> set ?path"
    by (auto simp: list_ex_iff split: if_splits)
  have p: "p = \<lparr>perm_APIGroup = g, perm_Resource = ?path ! 0,
      perm_Subresource = (if length ?path = 2 then ?path ! 1 else []), perm_Verb = v\<rparr>"
    using cut by (metis option.distinct(1) option.inject)
  consider x where "?path = [x]" | x y where "?path = [x, y]"
    using len Split_nonempty[of r "CHR ''/''"]
    by (cases ?path rule: remdups_adj.cases) auto
  then show ?thesis
  proof cases
    case 1
    with p s nonempty g r Split_singleton[OF 1] show ?thesis
      by (auto simp: wf_permission_def wf_segment_def Permission_String_def)
  next
    case 2
    with p s nonempty g r parts Split_pair[OF 2] show ?thesis
      by (auto simp: wf_permission_def wf_segment_def Permission_String_def)
  qed
qed

lemma Permission_String_inject:
  assumes "wf_permission p" and "wf_permission q" and "Permission_String p = Permission_String q"
  shows "p = q"
  by (metis assms Parse_String option.inject)

text \<open>
  C34. The parser accepts exactly the printed forms of well-formed permissions and
  returns the permission that was printed: \<open>Parse\<close> and \<open>Permission_String\<close> are
  mutually inverse, with no ambiguity between the two accepted shapes.
\<close>

theorem Parse_iff: "Parse s = Some p \<longleftrightarrow> wf_permission p \<and> s = Permission_String p"
  using Parse_String Parse_Some_sound by metis

section \<open>The two registries agree\<close>

lemma find_subresource_iff:
  "distinct (map sub_Name subs) \<Longrightarrow>
   v \<in> set (find_subresource subs name) \<longleftrightarrow>
     (\<exists>sub \<in> set subs. sub_Name sub = name \<and> v \<in> set (sub_Permissions sub))"
  by (induction subs) (force simp: image_iff)+

text \<open>The permissions an enumeration lists, before they are printed.\<close>

definition enumerated :: "ProtectedResourceSpec \<Rightarrow> bool \<Rightarrow> Permission set" where
  "enumerated spec en =
     {p. perm_APIGroup p = ServiceRef_Name spec \<and> perm_Resource p = spec_Plural spec \<and>
         (perm_Subresource p = [] \<and> perm_Verb p \<in> set (spec_Permissions spec) \<or>
          en \<and> (\<exists>sub \<in> set (spec_Subresources spec). sub_Name sub = perm_Subresource p \<and>
                 perm_Verb p \<in> set (sub_Permissions sub)))}"

lemma enumerated_alt:
  "enumerated spec en =
     (\<lambda>verb. \<lparr>perm_APIGroup = ServiceRef_Name spec, perm_Resource = spec_Plural spec,
              perm_Subresource = [], perm_Verb = verb\<rparr>) ` set (spec_Permissions spec) \<union>
     (if en then \<Union>sub \<in> set (spec_Subresources spec).
        (\<lambda>verb. \<lparr>perm_APIGroup = ServiceRef_Name spec, perm_Resource = spec_Plural spec,
                 perm_Subresource = sub_Name sub, perm_Verb = verb\<rparr>) ` set (sub_Permissions sub)
      else {})"
  (is "?l = ?r")
proof (rule set_eqI)
  fix p
  show "p \<in> ?l \<longleftrightarrow> p \<in> ?r"
    by (cases p) (auto simp: enumerated_def)
qed

lemma set_Enumerate: "spec_Plural spec \<noteq> [] \<Longrightarrow> set (Enumerate spec en) = Permission_String ` enumerated spec en"
  by (cases en) (auto simp: Enumerate_def enumerated_alt image_Un image_image)

lemma enumerated_wf: "wf_spec spec \<Longrightarrow> p \<in> enumerated spec en \<Longrightarrow> wf_permission p"
  by (auto simp: enumerated_def wf_spec_def wf_permission_def list_all_iff wf_segment_def)

lemma Defined_iff_enumerated:
  assumes "wf_spec spec"
  shows "Defined spec p en \<longleftrightarrow> p \<in> enumerated spec en"
proof -
  from assms have "distinct (map sub_Name (spec_Subresources spec))"
    and "\<forall>sub \<in> set (spec_Subresources spec). sub_Name sub \<noteq> []"
    by (auto simp: wf_spec_def list_all_iff)
  then show ?thesis
    by (auto simp: Defined_def enumerated_def Let_def list_ex_iff find_subresource_iff)
qed

text \<open>
  C35. For a well-formed registration, the webhook's question (\<open>Defined\<close>, asked of a
  parsed permission) and the list the authorization model is built from
  (\<open>Enumerate\<close>) agree on every permission, with and without subresources.
\<close>

theorem Defined_iff_Enumerate:
  assumes "wf_spec spec" and "wf_permission p"
  shows "Defined spec p en \<longleftrightarrow> Permission_String p \<in> set (Enumerate spec en)"
proof -
  have "spec_Plural spec \<noteq> []" using assms(1) by (simp add: wf_spec_def)
  then have "Permission_String p \<in> set (Enumerate spec en) \<longleftrightarrow>
      (\<exists>q \<in> enumerated spec en. Permission_String p = Permission_String q)"
    by (auto simp: set_Enumerate)
  also have "\<dots> \<longleftrightarrow> p \<in> enumerated spec en"
    using Permission_String_inject assms enumerated_wf by blast
  finally show ?thesis using Defined_iff_enumerated[OF assms(1)] by simp
qed

definition workload_spec :: ProtectedResourceSpec where
  "workload_spec =
     \<lparr>ServiceRef_Name = ''compute.miloapis.com'', spec_Kind = ''Workload'', spec_Plural = ''workloads'',
      spec_Permissions = [''get'', ''list''],
      spec_Subresources = [\<lparr>sub_Name = ''status'', sub_Permissions = [''update'']\<rparr>],
      spec_ParentResources = []\<rparr>"

definition workload_status_update :: Permission where
  "workload_status_update =
     \<lparr>perm_APIGroup = ''compute.miloapis.com'', perm_Resource = ''workloads'',
      perm_Subresource = ''status'', perm_Verb = ''update''\<rparr>"

theorem Defined_iff_Enumerate_witness:
  "wf_spec workload_spec \<and> wf_permission workload_status_update \<and>
   Defined workload_spec workload_status_update True \<and>
   ''compute.miloapis.com/workloads/status.update'' \<in> set (Enumerate workload_spec True)"
proof -
  have wf: "wf_spec workload_spec" "wf_permission workload_status_update" by code_simp+
  have "Defined workload_spec workload_status_update True" by code_simp
  moreover have "Permission_String workload_status_update = ''compute.miloapis.com/workloads/status.update''"
    by code_simp
  ultimately show ?thesis using wf Defined_iff_Enumerate[OF wf, of True] by simp
qed

end
