(* ===== verification/Resource_Graph.thy ===== *)
theory Resource_Graph
  imports Permissions
begin

text \<open>
  \<open>internal/openfga/resources.go\<close>: the graph of registered resource types, built
  from the ProtectedResources by one pass that collects the types, the parentless
  types and the parent-to-child edges (\<open>add_protected_resource\<close>), followed by a
  depth-first unfolding from the parentless types (\<open>getResourceGraphNode\<close>). The
  lemmas characterise the result declaratively: when the unfolding fails, which types
  the graph holds, and what each node says about its type.
\<close>

section \<open>Constants\<close>

definition TypeInternalUser :: string where "TypeInternalUser = ''iam.miloapis.com/InternalUser''"
definition TypeInternalUserGroup :: string where "TypeInternalUserGroup = ''iam.miloapis.com/InternalUserGroup''"
definition TypeRoot :: string where "TypeRoot = ''iam.miloapis.com/Root''"
definition RelationMember :: string where "RelationMember = ''member''"
definition RelationAssignee :: string where "RelationAssignee = ''assignee''"
definition RelationParent :: string where "RelationParent = ''parent''"
definition SourceFile :: string where "SourceFile = ''dynamically_managed_iam_datumapis_com.fga''"
definition Module :: string where "Module = ''iam.miloapis.com''"

section \<open>Model\<close>

datatype resourceGraphNode = ResourceGraphNode
  (ResourceType: string)
  (DirectPermissions: "string list")
  (ParentResources: "string list")
  (ChildResources: "resourceGraphNode list")

text \<open>
  The three collections the first loop of \<open>getResourceGraph\<close> fills. The map
  \<open>resources\<close> is an association list updated in place; the map
  \<open>directChildren\<close> is a function, a missing key reading as the nil slice.
\<close>

record graph_state =
  rootResourceIdentifiers :: "string list"
  directChildren :: "string \<Rightarrow> string list"
  resources :: "(string \<times> ProtectedResourceSpec) list"

definition empty_graph_state :: graph_state where
  "empty_graph_state = \<lparr>rootResourceIdentifiers = [], directChildren = (\<lambda>_. []), resources = []\<rparr>"

text \<open>The loops that append an entry unless it is already listed.\<close>

definition append_new :: "string list \<Rightarrow> string \<Rightarrow> string list" where
  "append_new xs x = (if x \<in> set xs then xs else xs @ [x])"

definition fqParentResources :: "ProtectedResourceSpec \<Rightarrow> string list" where
  "fqParentResources spec =
     map (\<lambda>r. parent_APIGroup r @ ''/'' @ parent_Kind r)
       (filter (\<lambda>r. \<not> (parent_APIGroup r = [] \<or> parent_Kind r = [])) (spec_ParentResources spec))"

definition fqType :: "ProtectedResourceSpec \<Rightarrow> string" where
  "fqType spec = ServiceRef_Name spec @ ''/'' @ spec_Kind spec"

definition add_child :: "string \<Rightarrow> (string \<Rightarrow> string list) \<Rightarrow> string \<Rightarrow> (string \<Rightarrow> string list)" where
  "add_child fq dc parent =
     (if parent = [] then dc
      else if parent \<noteq> fq then dc(parent := append_new (dc parent) fq)
      else dc)"

definition add_protected_resource :: "graph_state \<Rightarrow> ProtectedResource \<Rightarrow> graph_state" where
  "add_protected_resource s pr =
     (let spec = pr_Spec pr in
      if pr_DeletionTimestamp pr then s
      else if ServiceRef_Name spec = [] then s
      else if spec_Kind spec = [] then s
      else
        let fq = fqType spec;
            roots = (if spec_ParentResources spec = [] then append_new (rootResourceIdentifiers s) fq
                     else rootResourceIdentifiers s);
            effectiveParentResources = fqParentResources spec;
            effectiveParentResources = (if TypeRoot \<in> set effectiveParentResources then effectiveParentResources
                                        else effectiveParentResources @ [TypeRoot])
        in \<lparr>rootResourceIdentifiers = roots,
            directChildren = foldl (add_child fq) (directChildren s) effectiveParentResources,
            resources = AList.update fq spec (resources s)\<rparr>)"

definition collect_resources :: "ProtectedResource list \<Rightarrow> graph_state" where
  "collect_resources prs =
     (let s = foldl add_protected_resource empty_graph_state prs
      in s\<lparr>rootResourceIdentifiers := sort (rootResourceIdentifiers s),
           directChildren := (\<lambda>p. sort (directChildren s p))\<rparr>)"

text \<open>Every step down adds a registered type to the path, so the recursion ends.\<close>

lemma card_visit_less:
  assumes "finite A" and "x \<notin> v"
  shows "card (A - insert x v) < card (insert x A - v)"
proof -
  have "insert x A - v = insert x (A - insert x v)" using assms(2) by auto
  then show ?thesis using assms(1) by simp
qed

lemma insert_known: "map_of all c = Some d \<Longrightarrow> insert c (fst ` set all) = fst ` set all"
  by (force dest: map_of_SomeD)

text \<open>
  The recursion of \<open>getResourceGraphNode\<close> and its loop over the children. The
  source hands every child a copy of the path's \<open>visited\<close> set and removes its own
  entry on return, so the set is a value here: the types on the path from the root.
\<close>

function getResourceGraphNode ::
    "string \<Rightarrow> ProtectedResourceSpec \<Rightarrow> (string \<times> ProtectedResourceSpec) list \<Rightarrow> (string \<Rightarrow> string list) \<Rightarrow>
     string set \<Rightarrow> bool \<Rightarrow> resourceGraphNode result"
  and getChildNodes ::
    "string \<Rightarrow> string list \<Rightarrow> (string \<times> ProtectedResourceSpec) list \<Rightarrow> (string \<Rightarrow> string list) \<Rightarrow>
     string set \<Rightarrow> bool \<Rightarrow> resourceGraphNode list result" where
  "getResourceGraphNode fq spec all dc visited en =
     (if fq \<in> visited
      then Inl (ErrorString (''cycle detected: resource '' @ fq @ '' already visited in current path''))
      else try_pure (getChildNodes fq (dc fq) all dc (insert fq visited) en) (\<lambda>e. e) (\<lambda>childNodes.
        if length (Split fq (CHR ''/'')) \<noteq> 2
        then Inl (ErrorString (''invalid fully qualified type for resource: type '' @ fq))
        else Inr (ResourceGraphNode fq (sort (Enumerate spec en)) (sort (fqParentResources spec)) childNodes)))"
| "getChildNodes fq [] all dc visited en = Inr []"
| "getChildNodes fq (child # cs) all dc visited en =
     (if child = [] then getChildNodes fq cs all dc visited en
      else (case map_of all child of
          None \<Rightarrow> Inl (ErrorString (''did not find child resource data of type '' @ child @ '' for parent '' @ fq))
        | Some childData \<Rightarrow>
            try_pure (getResourceGraphNode child childData all dc visited en)
              (WrapError (''failed to create graph node for child resource '' @ child @ '' of '' @ fq))
              (\<lambda>childNode. try_pure (getChildNodes fq cs all dc visited en) (\<lambda>e. e)
                (\<lambda>childNodes. Inr (childNode # childNodes)))))"
  by pat_completeness auto

termination
  by (relation "inv_image (less_than <*lex*> less_than <*lex*> less_than)
      (case_sum (\<lambda>(fq, spec, all, dc, visited, en). (card (insert fq (fst ` set all) - visited), 0, 0))
                (\<lambda>(fq, cs, all, dc, visited, en). (card (fst ` set all - visited), Suc 0, length cs)))")
    (auto simp: card_visit_less insert_known)

text \<open>The loop over the parentless types.\<close>

fun getRootNodes ::
    "string list \<Rightarrow> string set \<Rightarrow> (string \<times> ProtectedResourceSpec) list \<Rightarrow> (string \<Rightarrow> string list) \<Rightarrow> bool \<Rightarrow>
     resourceGraphNode list result" where
  "getRootNodes [] processed all dc en = Inr []"
| "getRootNodes (fq # fqs) processed all dc en =
     (if fq \<in> processed then getRootNodes fqs processed all dc en
      else (case map_of all fq of
          None \<Rightarrow> Inl (ErrorString (''root resource '' @ fq @ '' not found in processed map during graph construction''))
        | Some resourceData \<Rightarrow>
            try_pure (getResourceGraphNode fq resourceData all dc {} en)
              (\<lambda>e. ErrorString (''could not get root graph node for '' @ fq @ '': '' @ Error e))
              (\<lambda>node. try_pure (getRootNodes fqs (insert fq processed) all dc en) (\<lambda>e. e)
                (\<lambda>nodes. Inr (node # nodes)))))"

definition getResourceGraph :: "ProtectedResource list \<Rightarrow> bool \<Rightarrow> resourceGraphNode result" where
  "getResourceGraph prs en =
     (if prs = [] then Inr (ResourceGraphNode TypeRoot [] [] [])
      else let s = collect_resources prs in
        try_pure (getRootNodes (rootResourceIdentifiers s) {} (resources s) (directChildren s) en) (\<lambda>e. e)
          (\<lambda>nodes. Inr (ResourceGraphNode TypeRoot [] [] nodes)))"


section \<open>The registration, declaratively\<close>

text \<open>
  The ProtectedResources that take part, the edges and parentless types they declare,
  and the specification that counts for a type: the last one in the list.
\<close>

definition active :: "ProtectedResource \<Rightarrow> bool" where
  "active pr \<longleftrightarrow> \<not> pr_DeletionTimestamp pr \<and> ServiceRef_Name (pr_Spec pr) \<noteq> [] \<and> spec_Kind (pr_Spec pr) \<noteq> []"

definition child_rel :: "ProtectedResource list \<Rightarrow> (string \<times> string) set" where
  "child_rel prs =
     {(p, c). p \<noteq> c \<and> (\<exists>pr \<in> set prs. active pr \<and> fqType (pr_Spec pr) = c \<and>
                (p = TypeRoot \<or> p \<in> set (fqParentResources (pr_Spec pr))))}"

definition parentless :: "ProtectedResource list \<Rightarrow> string set" where
  "parentless prs = {fqType (pr_Spec pr) | pr. pr \<in> set prs \<and> active pr \<and> spec_ParentResources (pr_Spec pr) = []}"

definition registered :: "ProtectedResource list \<Rightarrow> string \<rightharpoonup> ProtectedResourceSpec" where
  "registered prs = map_of (map (\<lambda>pr. (fqType (pr_Spec pr), pr_Spec pr)) (rev (filter active prs)))"

text \<open>The types reachable from a parentless type.\<close>

definition reachable_types :: "ProtectedResource list \<Rightarrow> string set" where
  "reachable_types prs = (child_rel prs)\<^sup>* `` parentless prs"

lemma fqType_nonempty [simp]: "fqType spec \<noteq> []"
  by (simp add: fqType_def)

lemma fqParentResources_nonempty: "p \<in> set (fqParentResources spec) \<Longrightarrow> p \<noteq> []"
  by (auto simp: fqParentResources_def)

lemma TypeRoot_nonempty [simp]: "TypeRoot \<noteq> []"
  by (simp add: TypeRoot_def)

lemma set_append_new [simp]: "set (append_new xs x) = insert x (set xs)"
  by (auto simp: append_new_def)

lemma distinct_append_new [simp]: "distinct (append_new xs x) = distinct xs"
  by (simp add: append_new_def)

lemma set_fold_add_child:
  "set (foldl (add_child fq) dc ps p) = set (dc p) \<union> (if p \<in> set ps \<and> p \<noteq> [] \<and> p \<noteq> fq then {fq} else {})"
  by (induction ps arbitrary: dc) (auto simp: add_child_def)

lemma distinct_fold_add_child:
  "distinct (dc p) \<Longrightarrow> distinct (foldl (add_child fq) dc ps p)"
proof (induction ps arbitrary: dc)
  case (Cons q ps)
  have "distinct (add_child fq dc q p)" using Cons.prems by (auto simp: add_child_def)
  then show ?case by (simp add: Cons.IH)
qed simp

lemma add_protected_resource_inactive [simp]: "\<not> active pr \<Longrightarrow> add_protected_resource s pr = s"
  by (auto simp: add_protected_resource_def active_def Let_def)

lemma add_protected_resource_active:
  assumes "active pr"
  shows "set (rootResourceIdentifiers (add_protected_resource s pr)) =
           set (rootResourceIdentifiers s) \<union> (if spec_ParentResources (pr_Spec pr) = [] then {fqType (pr_Spec pr)} else {})"
    and "set (directChildren (add_protected_resource s pr) p) =
           set (directChildren s p) \<union>
           (if p \<noteq> fqType (pr_Spec pr) \<and> (p = TypeRoot \<or> p \<in> set (fqParentResources (pr_Spec pr)))
            then {fqType (pr_Spec pr)} else {})"
    and "map_of (resources (add_protected_resource s pr)) =
           (map_of (resources s))(fqType (pr_Spec pr) \<mapsto> pr_Spec pr)"
    and "distinct (rootResourceIdentifiers s) \<Longrightarrow> distinct (rootResourceIdentifiers (add_protected_resource s pr))"
    and "distinct (directChildren s p) \<Longrightarrow> distinct (directChildren (add_protected_resource s pr) p)"
  using assms fqParentResources_nonempty[of p "pr_Spec pr"]
  by (auto simp: add_protected_resource_def active_def Let_def set_fold_add_child distinct_fold_add_child
      update_conv' split: if_splits)

lemma fold_add_protected_resource:
  defines "S \<equiv> foldl add_protected_resource empty_graph_state"
  shows "set (rootResourceIdentifiers (S prs)) = parentless prs"
    and "set (directChildren (S prs) p) = child_rel prs `` {p}"
    and "map_of (resources (S prs)) = registered prs"
    and "distinct (rootResourceIdentifiers (S prs))"
    and "distinct (directChildren (S prs) p)"
proof (induction prs rule: rev_induct)
  case Nil
  show "set (rootResourceIdentifiers (S [])) = parentless []"
    and "set (directChildren (S []) p) = child_rel [] `` {p}"
    and "map_of (resources (S [])) = registered []"
    and "distinct (rootResourceIdentifiers (S []))"
    and "distinct (directChildren (S []) p)"
    by (simp_all add: S_def empty_graph_state_def parentless_def child_rel_def registered_def)
next
  case (snoc pr prs)
  have S: "S (prs @ [pr]) = add_protected_resource (S prs) pr" by (simp add: S_def)
  show "set (rootResourceIdentifiers (S (prs @ [pr]))) = parentless (prs @ [pr])"
    using snoc(1) by (cases "active pr") (auto simp: S add_protected_resource_active parentless_def)
  show "set (directChildren (S (prs @ [pr])) p) = child_rel (prs @ [pr]) `` {p}"
    using snoc(2) by (cases "active pr") (auto simp: S add_protected_resource_active child_rel_def)
  show "map_of (resources (S (prs @ [pr]))) = registered (prs @ [pr])"
    using snoc(3) by (cases "active pr") (auto simp: S add_protected_resource_active registered_def)
  show "distinct (rootResourceIdentifiers (S (prs @ [pr])))"
    using snoc(4) by (cases "active pr") (auto simp: S add_protected_resource_active)
  show "distinct (directChildren (S (prs @ [pr])) p)"
    using snoc(5) by (cases "active pr") (auto simp: S add_protected_resource_active)
qed

lemma collect_resources_simps [simp]:
  "set (rootResourceIdentifiers (collect_resources prs)) = parentless prs"
  "set (directChildren (collect_resources prs) p) = child_rel prs `` {p}"
  "map_of (resources (collect_resources prs)) = registered prs"
  "distinct (rootResourceIdentifiers (collect_resources prs))"
  "distinct (directChildren (collect_resources prs) p)"
  "sorted (directChildren (collect_resources prs) p)"
  by (simp_all add: collect_resources_def Let_def fold_add_protected_resource)

lemma registered_active:
  "registered prs t = Some spec \<Longrightarrow> \<exists>pr \<in> set prs. active pr \<and> pr_Spec pr = spec \<and> fqType spec = t"
  by (auto simp: registered_def dest!: map_of_SomeD)

lemma dom_registered: "dom (registered prs) = {fqType (pr_Spec pr) | pr. pr \<in> set prs \<and> active pr}"
  by (auto simp: registered_def dom_map_of_conv_image_fst image_image)

lemma child_registered: "(p, c) \<in> child_rel prs \<Longrightarrow> c \<in> dom (registered prs) \<and> c \<noteq> []"
  by (auto simp: child_rel_def dom_registered)

lemma parentless_registered: "t \<in> parentless prs \<Longrightarrow> t \<in> dom (registered prs) \<and> t \<noteq> []"
  by (auto simp: parentless_def dom_registered)


section \<open>The unfolding\<close>

definition edges :: "(string \<Rightarrow> string list) \<Rightarrow> (string \<times> string) set" where
  "edges dc = {(p, c). c \<in> set (dc p)}"

definition children_known :: "(string \<times> ProtectedResourceSpec) list \<Rightarrow> (string \<Rightarrow> string list) \<Rightarrow> bool" where
  "children_known all dc \<longleftrightarrow> (\<forall>p. \<forall>c \<in> set (dc p). c \<noteq> [] \<and> map_of all c \<noteq> None)"

definition one_slash :: "string \<Rightarrow> bool" where
  "one_slash t \<longleftrightarrow> length (Split t (CHR ''/'')) = 2"

text \<open>A type unfolds below a path \<open>v\<close> when nothing reachable from it is on the path, on a cycle or malformed.\<close>

definition unfolds :: "(string \<Rightarrow> string list) \<Rightarrow> string set \<Rightarrow> string \<Rightarrow> bool" where
  "unfolds dc v t \<longleftrightarrow> (\<forall>u. (t, u) \<in> (edges dc)\<^sup>* \<longrightarrow> u \<notin> v \<and> (u, u) \<notin> (edges dc)\<^sup>+ \<and> one_slash u)"

lemma unfolds_step:
  "unfolds dc v t \<longleftrightarrow> t \<notin> v \<and> one_slash t \<and> (\<forall>c \<in> set (dc t). unfolds dc (insert t v) c)"
proof -
  have below: "(t, u) \<in> (edges dc)\<^sup>+ \<longleftrightarrow> (\<exists>c \<in> set (dc t). (c, u) \<in> (edges dc)\<^sup>*)" for u
    by (auto simp: edges_def dest: tranclD intro: rtrancl_into_trancl2)
  let ?ok = "\<lambda>u. (u, u) \<notin> (edges dc)\<^sup>+ \<and> one_slash u"
  have "unfolds dc v t \<longleftrightarrow> t \<notin> v \<and> ?ok t \<and> (\<forall>u. (t, u) \<in> (edges dc)\<^sup>+ \<longrightarrow> u \<notin> v \<and> ?ok u)"
    by (auto simp: unfolds_def rtrancl_eq_or_trancl)
  also have "\<dots> \<longleftrightarrow> t \<notin> v \<and> one_slash t \<and> (\<forall>u. (t, u) \<in> (edges dc)\<^sup>+ \<longrightarrow> u \<notin> insert t v \<and> ?ok u)"
    by auto
  finally show ?thesis by (auto simp: below unfolds_def)
qed

declare getResourceGraphNode.simps [simp del]

lemma getResourceGraphNode_ok_iff:
  "children_known all dc \<Longrightarrow>
     (\<exists>n. getResourceGraphNode fq spec all dc visited en = Inr n) \<longleftrightarrow> unfolds dc visited fq"
  "children_known all dc \<Longrightarrow> set cs \<subseteq> set (dc fq) \<Longrightarrow>
     (\<exists>ns. getChildNodes fq cs all dc visited en = Inr ns) \<longleftrightarrow> (\<forall>c \<in> set cs. unfolds dc visited c)"
proof (induction fq spec all dc visited en and fq cs all dc visited en
    rule: getResourceGraphNode_getChildNodes.induct)
  case (1 fq spec all dc visited en)
  show ?case
  proof (cases "fq \<in> visited")
    case True
    then show ?thesis by (simp add: unfolds_step[of dc visited fq] getResourceGraphNode.simps)
  next
    case False
    with 1 have "(\<exists>ns. getChildNodes fq (dc fq) all dc (insert fq visited) en = Inr ns) \<longleftrightarrow>
        (\<forall>c \<in> set (dc fq). unfolds dc (insert fq visited) c)" by blast
    with False show ?thesis
      unfolding unfolds_step[of dc visited fq] by (auto simp: one_slash_def go_calls getResourceGraphNode.simps)
  qed
next
  case (3 fq child cs all dc visited en)
  from "3.prems" obtain d where "child \<noteq> []" and "map_of all child = Some d"
    unfolding children_known_def by (metis list.set_intros(1) not_Some_eq subsetD)
  with 3 show ?case by (auto simp: go_calls)
qed simp_all

text \<open>What a node says: its own type's data, and one node per child, in order.\<close>

inductive describes ::
    "(string \<rightharpoonup> ProtectedResourceSpec) \<Rightarrow> (string \<Rightarrow> string list) \<Rightarrow> bool \<Rightarrow> string \<Rightarrow> resourceGraphNode \<Rightarrow> bool"
  for reg dc en where
  "reg fq = Some spec \<Longrightarrow> list_all2 (describes reg dc en) (dc fq) ns \<Longrightarrow>
   describes reg dc en fq (ResourceGraphNode fq (sort (Enumerate spec en)) (sort (fqParentResources spec)) ns)"
  monos list_all2_mono

lemma getResourceGraphNode_describes:
  "map_of all fq = Some spec \<Longrightarrow> children_known all dc \<Longrightarrow>
     getResourceGraphNode fq spec all dc visited en = Inr n \<Longrightarrow> describes (map_of all) dc en fq n"
  "children_known all dc \<Longrightarrow> set cs \<subseteq> set (dc fq) \<Longrightarrow>
     getChildNodes fq cs all dc visited en = Inr ns \<Longrightarrow> list_all2 (describes (map_of all) dc en) cs ns"
proof (induction fq spec all dc visited en and fq cs all dc visited en arbitrary: n and ns
    rule: getResourceGraphNode_getChildNodes.induct)
  case (1 fq spec all dc visited en)
  then show ?case
    by (auto simp: go_calls getResourceGraphNode.simps split: if_splits intro!: describes.intros)
next
  case (3 fq child cs all dc visited en)
  from "3.prems" have "child \<noteq> []" by (auto simp: children_known_def)
  with 3 show ?case by (auto simp: go_calls split: option.splits)
qed simp_all


section \<open>The whole graph\<close>

fun nodes :: "resourceGraphNode \<Rightarrow> resourceGraphNode list" where
  "nodes (ResourceGraphNode t d p cs) = ResourceGraphNode t d p cs # concat (map nodes cs)"

lemma describes_ResourceType: "describes reg dc en fq n \<Longrightarrow> ResourceType n = fq"
  by (auto elim: describes.cases)

lemma describes_types: "describes reg dc en fq n \<Longrightarrow> ResourceType ` set (nodes n) = (edges dc)\<^sup>* `` {fq}"
proof (induction rule: describes.induct)
  case (1 fq spec ns)
  have "ResourceType ` (\<Union>n \<in> set ns. set (nodes n)) = (\<Union>c \<in> set (dc fq). (edges dc)\<^sup>* `` {c})"
    using 1(2) by (induction rule: list_all2_induct) (simp_all add: image_Un)
  moreover have "(edges dc)\<^sup>* `` {fq} = insert fq (\<Union>c \<in> set (dc fq). (edges dc)\<^sup>* `` {c})"
    by (auto simp: edges_def elim: converse_rtranclE intro: converse_rtrancl_into_rtrancl)
  ultimately show ?case by simp
qed

lemma describes_nodes:
  "describes reg dc en fq n \<Longrightarrow> m \<in> set (nodes n) \<Longrightarrow> describes reg dc en (ResourceType m) m"
proof (induction rule: describes.induct)
  case (1 fq spec ns)
  let ?n = "ResourceGraphNode fq (sort (Enumerate spec en)) (sort (fqParentResources spec)) ns"
  have "list_all2 (describes reg dc en) (dc fq) ns"
    using 1(2) by (rule list_all2_mono) simp
  then have self: "describes reg dc en fq ?n" using 1(1) by (rule describes.intros[rotated])
  show ?case
  proof (cases "m = ?n")
    case False
    with 1(3) obtain k where k: "k \<in> set ns" "m \<in> set (nodes k)" by auto
    from k(1) 1(2) obtain c where "describes reg dc en c k \<and>
        (m \<in> set (nodes k) \<longrightarrow> describes reg dc en (ResourceType m) m)"
      by (auto simp: list_all2_conv_all_nth in_set_conv_nth)
    with k show ?thesis by simp
  qed (use self in simp)
qed

lemma describes_children:
  assumes "describes reg dc en fq n"
  shows "\<exists>spec. reg fq = Some spec \<and> DirectPermissions n = sort (Enumerate spec en) \<and>
    ParentResources n = sort (fqParentResources spec) \<and> map ResourceType (ChildResources n) = dc fq"
proof -
  have "map ResourceType ns = cs" if "list_all2 (describes reg dc en) cs ns" for cs ns
    using that by (induction rule: list_all2_induct) (auto dest: describes_ResourceType)
  with assms show ?thesis by (auto elim!: describes.cases)
qed

lemma getRootNodes_ok_iff:
  assumes "children_known all dc" and "distinct fqs" and "set fqs \<inter> processed = {}" and "set fqs \<subseteq> dom (map_of all)"
  shows "(\<exists>ns. getRootNodes fqs processed all dc en = Inr ns) \<longleftrightarrow> (\<forall>fq \<in> set fqs. unfolds dc {} fq)"
  using assms(2-)
proof (induction fqs arbitrary: processed)
  case (Cons fq fqs)
  from Cons.prems obtain d where "map_of all fq = Some d" by auto
  with Cons.prems Cons.IH[of "insert fq processed"] show ?case
    by (auto simp: go_calls getResourceGraphNode_ok_iff(1)[OF assms(1), of fq d "{}" en, symmetric])
qed simp

lemma getRootNodes_describes:
  assumes "children_known all dc" and "distinct fqs" and "set fqs \<inter> processed = {}"
    and "getRootNodes fqs processed all dc en = Inr ns"
  shows "list_all2 (describes (map_of all) dc en) fqs ns"
  using assms(2-)
proof (induction fqs arbitrary: processed ns)
  case (Cons fq fqs)
  from Cons.prems show ?case
    by (auto simp: go_calls split: option.splits
        intro: getResourceGraphNode_describes(1)[OF _ assms(1)] Cons.IH[of "insert fq processed"])
qed simp

lemma collect_children_known: "children_known (resources (collect_resources prs)) (directChildren (collect_resources prs))"
  using child_registered by (fastforce simp: children_known_def)

lemma edges_collect [simp]: "edges (directChildren (collect_resources prs)) = child_rel prs"
  by (auto simp: edges_def)

lemma directChildren_sorted:
  "directChildren (collect_resources prs) p = sorted_list_of_set (child_rel prs `` {p})"
  by (rule sorted_distinct_set_unique) (simp_all flip: collect_resources_simps(2))

lemmas collect_getRootNodes =
  getRootNodes_ok_iff[OF collect_children_known, where processed = "{}"]
  getRootNodes_describes[OF collect_children_known, where processed = "{}"]

lemma getResourceGraph_describes:
  assumes "getResourceGraph prs en = Inr g"
  obtains ns where "g = ResourceGraphNode TypeRoot [] [] ns"
    and "list_all2 (describes (registered prs) (directChildren (collect_resources prs)) en)
           (rootResourceIdentifiers (collect_resources prs)) ns"
proof (cases "prs = []")
  case True
  with assms that show thesis
    by (auto simp: getResourceGraph_def collect_resources_def empty_graph_state_def)
next
  case False
  let ?s = "collect_resources prs"
  from assms False obtain ns where "g = ResourceGraphNode TypeRoot [] [] ns"
    and "getRootNodes (rootResourceIdentifiers ?s) {} (resources ?s) (directChildren ?s) en = Inr ns"
    by (auto simp: getResourceGraph_def go_calls Let_def)
  with that show thesis using collect_getRootNodes(2)[of "rootResourceIdentifiers ?s" prs] by simp
qed

lemma graph_ok_iff:
  "(\<exists>g. getResourceGraph prs en = Inr g) \<longleftrightarrow>
     reachable_types prs \<subseteq> {t. (t, t) \<notin> (child_rel prs)\<^sup>+ \<and> one_slash t}"
proof (cases "prs = []")
  case True
  then show ?thesis by (simp add: getResourceGraph_def reachable_types_def parentless_def)
next
  case False
  let ?s = "collect_resources prs"
  have "(\<exists>g. getResourceGraph prs en = Inr g) \<longleftrightarrow> (\<forall>fq \<in> parentless prs. unfolds (directChildren ?s) {} fq)"
    using False parentless_registered[of _ prs] collect_getRootNodes(1)[of "rootResourceIdentifiers ?s" prs en]
    by (auto simp: getResourceGraph_def go_calls Let_def)
  then show ?thesis by (auto simp: unfolds_def reachable_types_def)
qed

text \<open>
  C36. When at least one registered type is parentless, building the resource graph
  succeeds exactly when no type reachable from a parentless type lies on a cycle of the
  declared hierarchy and every such type name has exactly one slash; otherwise it
  returns an error, and the unfolding itself always ends. Diamonds are accepted, and a
  cycle that no parentless type reaches is not an error. (Without a parentless type the
  code and its comment disagree: \<open>getResourceGraph_no_roots\<close> below.)
\<close>

theorem getResourceGraph_ok_iff:
  assumes "parentless prs \<noteq> {}"
  shows "(\<exists>g. getResourceGraph prs en = Inr g) \<longleftrightarrow>
     reachable_types prs \<subseteq> {t. (t, t) \<notin> (child_rel prs)\<^sup>+ \<and> one_slash t}"
  by (rule graph_ok_iff)

lemma graph_types:
  assumes "getResourceGraph prs en = Inr g"
  shows "ResourceType ` set (nodes g) = insert TypeRoot (reachable_types prs)"
proof -
  let ?s = "collect_resources prs"
  from assms obtain ns where g: "g = ResourceGraphNode TypeRoot [] [] ns"
    and ns: "list_all2 (describes (registered prs) (directChildren ?s) en) (rootResourceIdentifiers ?s) ns"
    by (rule getResourceGraph_describes)
  have "ResourceType ` (\<Union>n \<in> set ns. set (nodes n)) =
      (\<Union>r \<in> set (rootResourceIdentifiers ?s). (edges (directChildren ?s))\<^sup>* `` {r})"
    using ns by (induction rule: list_all2_induct) (simp_all add: image_Un describes_types)
  then show ?thesis by (simp add: g reachable_types_def) blast
qed

text \<open>
  The graph holds exactly the types reachable from a parentless type, besides its
  artificial top node.
\<close>

theorem getResourceGraph_types:
  assumes "getResourceGraph prs en = Inr g"
  shows "ResourceType ` set (nodes g) = insert TypeRoot (reachable_types prs)"
  using assms by (rule graph_types)

lemma graph_nodes:
  assumes "getResourceGraph prs en = Inr g" and "root \<in> set (ChildResources g)" and "n \<in> set (nodes root)"
  shows "\<exists>spec. registered prs (ResourceType n) = Some spec \<and>
    DirectPermissions n = sort (Enumerate spec en) \<and>
    ParentResources n = sort (fqParentResources spec) \<and>
    map ResourceType (ChildResources n) = sorted_list_of_set (child_rel prs `` {ResourceType n})"
proof -
  let ?s = "collect_resources prs"
  from assms(1) obtain ns where g: "g = ResourceGraphNode TypeRoot [] [] ns"
    and ns: "list_all2 (describes (registered prs) (directChildren ?s) en) (rootResourceIdentifiers ?s) ns"
    by (rule getResourceGraph_describes)
  from ns assms(2) g obtain r where "describes (registered prs) (directChildren ?s) en r root"
    by (auto simp: list_all2_conv_all_nth in_set_conv_nth)
  then have "describes (registered prs) (directChildren ?s) en (ResourceType n) n"
    using assms(3) by (rule describes_nodes)
  then show ?thesis using describes_children directChildren_sorted by metis
qed

text \<open>
  Every node of the graph describes its type faithfully: its permissions are those
  enumerated from the registration that counts for the type, its parents are the
  declared ones, and its children are exactly the types that declare it (for the Root
  type: all others), each once and in order.
\<close>

theorem getResourceGraph_nodes:
  assumes "getResourceGraph prs en = Inr g" and "root \<in> set (ChildResources g)" and "n \<in> set (nodes root)"
  shows "\<exists>spec. registered prs (ResourceType n) = Some spec \<and>
    DirectPermissions n = sort (Enumerate spec en) \<and>
    ParentResources n = sort (fqParentResources spec) \<and>
    map ResourceType (ChildResources n) = sorted_list_of_set (child_rel prs `` {ResourceType n})"
  using assms by (rule graph_nodes)


text \<open>
  When no registered type is parentless the result is not an error: the graph is
  the bare Root node, and only then. (The comment on \<open>getResourceGraph\<close> announces
  an error for this case.)
\<close>

theorem getResourceGraph_no_roots:
  "getResourceGraph prs en = Inr (ResourceGraphNode TypeRoot [] [] []) \<longleftrightarrow> parentless prs = {}"
proof
  assume "getResourceGraph prs en = Inr (ResourceGraphNode TypeRoot [] [] [])"
  then have "set (rootResourceIdentifiers (collect_resources prs)) = {}"
    by (rule getResourceGraph_describes) auto
  then show "parentless prs = {}" by simp
next
  assume "parentless prs = {}"
  then have "rootResourceIdentifiers (collect_resources prs) = []"
    by (simp flip: collect_resources_simps(1))
  then show "getResourceGraph prs en = Inr (ResourceGraphNode TypeRoot [] [] [])"
    by (simp add: getResourceGraph_def Let_def)
qed

section \<open>An example\<close>

definition example_pr :: "string \<Rightarrow> string \<Rightarrow> string \<Rightarrow> string list \<Rightarrow> (string \<times> string) list \<Rightarrow> ProtectedResource" where
  "example_pr svc kind plural verbs parents =
     \<lparr>pr_Name = plural, pr_UID = plural, pr_DeletionTimestamp = False,
      pr_Spec = \<lparr>ServiceRef_Name = svc, spec_Kind = kind, spec_Plural = plural, spec_Permissions = verbs,
        spec_Subresources = [],
        spec_ParentResources = map (\<lambda>(g, k). \<lparr>parent_APIGroup = g, parent_Kind = k\<rparr>) parents\<rparr>\<rparr>"

definition example_prs :: "ProtectedResource list" where
  "example_prs =
     [example_pr ''rm.io'' ''Org'' ''orgs'' [''get''] [],
      example_pr ''rm.io'' ''Project'' ''projects'' [''get''] [(''rm.io'', ''Org'')],
      example_pr ''c.io'' ''VM'' ''vms'' [''list''] [(''rm.io'', ''Project''), (''rm.io'', ''Org'')]]"

definition example_vm_node :: resourceGraphNode where
  "example_vm_node = ResourceGraphNode ''c.io/VM'' [''c.io/vms.list''] [''rm.io/Org'', ''rm.io/Project''] []"

definition example_graph :: resourceGraphNode where
  "example_graph =
     ResourceGraphNode TypeRoot [] []
       [ResourceGraphNode ''rm.io/Org'' [''rm.io/orgs.get''] []
          [example_vm_node,
           ResourceGraphNode ''rm.io/Project'' [''rm.io/projects.get''] [''rm.io/Org''] [example_vm_node]]]"

lemma example_graph_ok: "getResourceGraph example_prs False = Inr example_graph"
  by code_simp

theorem getResourceGraph_ok_iff_witness:
  "parentless example_prs \<noteq> {} \<and>
   reachable_types example_prs \<subseteq> {t. (t, t) \<notin> (child_rel example_prs)\<^sup>+ \<and> one_slash t}"
proof -
  have "parentless example_prs \<noteq> {}"
    using getResourceGraph_no_roots[of example_prs False] example_graph_ok by (simp add: example_graph_def)
  with getResourceGraph_ok_iff[OF this, of False] example_graph_ok show ?thesis by blast
qed

theorem getResourceGraph_types_witness:
  "getResourceGraph example_prs False = Inr example_graph \<and>
   {TypeRoot, ''rm.io/Org'', ''rm.io/Project'', ''c.io/VM''} = insert TypeRoot (reachable_types example_prs)"
proof -
  have "ResourceType ` set (nodes example_graph) = {TypeRoot, ''rm.io/Org'', ''rm.io/Project'', ''c.io/VM''}"
    by code_simp
  then show ?thesis using getResourceGraph_types[OF example_graph_ok] example_graph_ok by simp
qed

theorem getResourceGraph_nodes_witness:
  "\<exists>spec. registered example_prs ''c.io/VM'' = Some spec \<and> [''c.io/vms.list''] = sort (Enumerate spec False)"
proof -
  have "hd (ChildResources example_graph) \<in> set (ChildResources example_graph)"
    and "example_vm_node \<in> set (nodes (hd (ChildResources example_graph)))" by code_simp+
  from getResourceGraph_nodes[OF example_graph_ok this]
  show ?thesis by (auto simp: example_vm_node_def)
qed

end
