(* ===== verification/Model_Builder.thy ===== *)
theory Model_Builder
  imports Resource_Graph "HOL-Library.Word" "HOL-Library.Multiset"
begin

text \<open>
  The pure part of \<open>internal/openfga/authorization_model_reconciler.go\<close>: from the
  registered ProtectedResources to the OpenFGA authorization model. It holds the
  permission hash (FNV-1a on 32-bit words, printed as hex), the memoised computation
  of the permissions each type inherits from its descendants, and the construction of
  the type definitions. The lemmas give the memoised result in closed form, show that
  the model has exactly the relations the hierarchy calls for, and that it does not
  depend on the order in which the ProtectedResources are listed.
\<close>

unbundle bit_operations_syntax

section \<open>Permission hash\<close>

text \<open>\<open>hash/fnv\<close>: \<open>New32a\<close>, \<open>Write\<close> and \<open>Sum\<close> (four bytes, most significant first).\<close>

definition fnv_offset32 :: "32 word" where "fnv_offset32 = 2166136261"
definition fnv_prime32 :: "32 word" where "fnv_prime32 = 16777619"

definition fnv32a_step :: "32 word \<Rightarrow> char \<Rightarrow> 32 word" where
  "fnv32a_step h c = (h XOR of_char c) * fnv_prime32"

definition fnv32a :: "string \<Rightarrow> 32 word" where
  "fnv32a s = foldl fnv32a_step fnv_offset32 s"

definition fnv_Sum :: "32 word \<Rightarrow> 8 word list" where
  "fnv_Sum h = [ucast (drop_bit 24 h), ucast (drop_bit 16 h), ucast (drop_bit 8 h), ucast h]"

text \<open>\<open>encoding/hex\<close>: \<open>EncodeToString\<close>.\<close>

definition hextable :: string where "hextable = ''0123456789abcdef''"

definition EncodeToString :: "8 word list \<Rightarrow> string" where
  "EncodeToString bs =
     concat (map (\<lambda>b. [hextable ! unat (drop_bit 4 b), hextable ! unat (b AND 15)]) bs)"

definition hashPermission :: "string \<Rightarrow> string" where
  "hashPermission permission = EncodeToString (fnv_Sum (fnv32a permission))"

definition HashPermission :: "string \<Rightarrow> string" where
  "HashPermission permission = hashPermission permission"

section \<open>Inherited permissions\<close>

fun removeDuplicatePermissions_loop :: "string list \<Rightarrow> string set \<Rightarrow> string list \<Rightarrow> string list" where
  "removeDuplicatePermissions_loop [] seen result = result"
| "removeDuplicatePermissions_loop (permission # permissions) seen result =
     (if permission \<notin> seen
      then removeDuplicatePermissions_loop permissions (insert permission seen) (result @ [permission])
      else removeDuplicatePermissions_loop permissions seen result)"

definition removeDuplicatePermissions :: "string list \<Rightarrow> string list" where
  "removeDuplicatePermissions permissions = removeDuplicatePermissions_loop permissions {} []"

text \<open>
  The map \<open>permissionsMap\<close> is threaded through the recursion: it memoises the types
  already computed. The second function is the loop over the children, which
  appends the children's permissions.
\<close>

fun calculatePermissionsForNode ::
    "resourceGraphNode \<Rightarrow> (string \<times> string list) list \<Rightarrow> string list \<times> (string \<times> string list) list"
  and calculatePermissionsForChildren ::
    "resourceGraphNode list \<Rightarrow> (string \<times> string list) list \<Rightarrow> string list \<times> (string \<times> string list) list" where
  "calculatePermissionsForNode (ResourceGraphNode t direct parents children) m =
     (if t = TypeRoot then ([], snd (calculatePermissionsForChildren children m))
      else (case map_of m t of
          Some permissions \<Rightarrow> (permissions, m)
        | None \<Rightarrow>
            let (childPermissions, m') = calculatePermissionsForChildren children m;
                nodePermissions = sort (removeDuplicatePermissions (direct @ childPermissions))
            in (nodePermissions, AList.update t nodePermissions m')))"
| "calculatePermissionsForChildren [] m = ([], m)"
| "calculatePermissionsForChildren (child # children) m =
     (let (childPermissions, m1) = calculatePermissionsForNode child m;
          (morePermissions, m2) = calculatePermissionsForChildren children m1
      in (childPermissions @ morePermissions, m2))"

definition calculateHierarchicalPermissions :: "resourceGraphNode \<Rightarrow> (string \<times> string list) list" where
  "calculateHierarchicalPermissions rootNode = snd (calculatePermissionsForNode rootNode [])"

section \<open>Type definitions\<close>

definition getResourceParentRelatedTypes :: "string list \<Rightarrow> RelationReference list" where
  "getResourceParentRelatedTypes parents = map (\<lambda>parent. \<lparr>rr_Type = parent, rr_Relation = None\<rparr>) (sort parents)"

text \<open>The user types a permission relation accepts: internal users and the members of internal groups.\<close>

definition permission_metadata :: RelationMetadata where
  "permission_metadata = \<lparr>rm_DirectlyRelatedUserTypes =
     [\<lparr>rr_Type = TypeInternalUser, rr_Relation = None\<rparr>,
      \<lparr>rr_Type = TypeInternalUserGroup, rr_Relation = Some RelationMember\<rparr>]\<rparr>"

definition empty_type_definition :: "string \<Rightarrow> string \<Rightarrow> TypeDefinition" where
  "empty_type_definition t module_name =
     \<lparr>td_Type = t, td_Relations = [],
      td_Metadata = \<lparr>md_Relations = [], md_SourceFile = SourceFile, md_Module = module_name\<rparr>\<rparr>"

text \<open>Setting one entry of both maps of a type definition, \<open>Relations\<close> and \<open>Metadata.Relations\<close>.\<close>

definition set_relation :: "string \<Rightarrow> Userset \<Rightarrow> RelationMetadata \<Rightarrow> TypeDefinition \<Rightarrow> TypeDefinition" where
  "set_relation relation userset metadata td =
     td\<lparr>td_Relations := AList.update relation userset (td_Relations td),
        td_Metadata := (td_Metadata td)\<lparr>md_Relations := AList.update relation metadata (md_Relations (td_Metadata td))\<rparr>\<rparr>"

definition permission_userset :: "resourceGraphNode \<Rightarrow> string \<Rightarrow> Userset" where
  "permission_userset resourceNode hashedPermission =
     (let permChildren = [Userset_This (Some ())];
          permChildren = (if length (ParentResources resourceNode) > 0
                          then permChildren @ [Userset_TupleToUserset RelationParent hashedPermission]
                          else permChildren)
      in if length permChildren = 1 then permChildren ! 0 else Userset_Union permChildren)"

definition getResourceTypeDefinition :: "string list \<Rightarrow> resourceGraphNode \<Rightarrow> TypeDefinition" where
  "getResourceTypeDefinition permissions resourceNode =
     (let td = empty_type_definition (ResourceType resourceNode) (Split (ResourceType resourceNode) (CHR ''/'') ! 0);
          td = (if length (ParentResources resourceNode) > 0
                then set_relation RelationParent (Userset_This None)
                       \<lparr>rm_DirectlyRelatedUserTypes = getResourceParentRelatedTypes (ParentResources resourceNode)\<rparr> td
                else td)
      in foldl (\<lambda>td permission.
            let hashedPermission = hashPermission permission
            in set_relation hashedPermission (permission_userset resourceNode hashedPermission) permission_metadata td)
          td permissions)"

definition getUserTypeDefinition :: TypeDefinition where
  "getUserTypeDefinition = empty_type_definition TypeInternalUser Module"

definition getUserGroupTypeDefinition :: TypeDefinition where
  "getUserGroupTypeDefinition =
     \<lparr>td_Type = TypeInternalUserGroup,
      td_Relations =
        [(RelationMember, Userset_This (Some ())),
         (RelationAssignee, Userset_ComputedUserset RelationMember)],
      td_Metadata =
        \<lparr>md_Relations =
           [(RelationMember, \<lparr>rm_DirectlyRelatedUserTypes = [\<lparr>rr_Type = TypeInternalUser, rr_Relation = None\<rparr>]\<rparr>),
            (RelationAssignee, \<lparr>rm_DirectlyRelatedUserTypes = []\<rparr>)],
         md_SourceFile = SourceFile, md_Module = Module\<rparr>\<rparr>"

definition getRootTypeDefinition :: "string list \<Rightarrow> TypeDefinition" where
  "getRootTypeDefinition permissions =
     foldl (\<lambda>root permission. set_relation (hashPermission permission) (Userset_This (Some ())) permission_metadata root)
       (empty_type_definition TypeRoot Module) permissions"

definition getMinimalAuthorizationModel :: AuthorizationModel where
  "getMinimalAuthorizationModel =
     \<lparr>am_Id = [], am_SchemaVersion = ''1.2'',
      am_TypeDefinitions = [getUserTypeDefinition, getUserGroupTypeDefinition], am_Conditions = []\<rparr>"

text \<open>The copy of one map into another, \<open>for k, v := range childTypes { types[k] = v }\<close>.\<close>

definition copy_types ::
    "(string \<times> TypeDefinition) list \<Rightarrow> (string \<times> TypeDefinition) list \<Rightarrow> (string \<times> TypeDefinition) list" where
  "copy_types types childTypes = foldl (\<lambda>m (k, v). AList.update k v m) types childTypes"

fun getResourceTypeDefinitionsWithHierarchicalPermissions ::
    "(string \<times> string list) list \<Rightarrow> resourceGraphNode \<Rightarrow> (string \<times> TypeDefinition) list" where
  "getResourceTypeDefinitionsWithHierarchicalPermissions hp (ResourceGraphNode t direct parents children) =
     (let node = ResourceGraphNode t direct parents children;
          types = (if t \<noteq> TypeRoot
                   then [(t, getResourceTypeDefinition (case map_of hp t of None \<Rightarrow> [] | Some ps \<Rightarrow> ps) node)]
                   else [])
      in foldl copy_types types
           (map (getResourceTypeDefinitionsWithHierarchicalPermissions hp) children))"

text \<open>
  \<open>sort.Slice\<close> on the type, then the name. It need not be stable, which makes no
  difference for a list whose names are distinct, as those of a cluster-scoped kind are.
\<close>

definition sort_protected_resources :: "ProtectedResource list \<Rightarrow> ProtectedResource list" where
  "sort_protected_resources prs = sort_key (\<lambda>pr. (fqType (pr_Spec pr), pr_Name pr)) prs"

definition createExpectedAuthorizationModel :: "bool \<Rightarrow> ProtectedResource list \<Rightarrow> AuthorizationModel result" where
  "createExpectedAuthorizationModel en prs =
     (if prs = [] then Inr getMinimalAuthorizationModel
      else try_pure (getResourceGraph (sort_protected_resources prs) en)
        (\<lambda>e. ErrorString (''failed to get resource graph: '' @ Error e))
        (\<lambda>resourceGraph.
          let hierarchicalPermissions = calculateHierarchicalPermissions resourceGraph;
              allPermissions = sort (remdups (concat (map snd hierarchicalPermissions)));
              types = getResourceTypeDefinitionsWithHierarchicalPermissions hierarchicalPermissions resourceGraph;
              sortedResourceTypes = sort (map fst types);
              typeDefinitions = [getUserTypeDefinition, getUserGroupTypeDefinition] @
                map (\<lambda>t. the (map_of types t)) sortedResourceTypes @
                [getRootTypeDefinition allPermissions]
          in Inr \<lparr>am_Id = [], am_SchemaVersion = ''1.2'', am_TypeDefinitions = typeDefinitions, am_Conditions = []\<rparr>))"


section \<open>Lemmas on the hash\<close>

lemma hextable_nth_inject: "i < 16 \<Longrightarrow> j < 16 \<Longrightarrow> hextable ! i = hextable ! j \<Longrightarrow> i = j"
  by (rule nth_eq_iff_index_eq[THEN iffD1, of hextable]) (simp_all add: hextable_def)

lemma hextable_digit: "i < 16 \<Longrightarrow> hextable ! i \<in> set hextable"
  by (rule nth_mem) (simp add: hextable_def)

lemma unat_low_nibble: "unat (b AND 15 :: 8 word) = unat b mod 16"
proof -
  have "b AND 15 = take_bit 4 b" by (simp add: take_bit_eq_mask mask_eq_exp_minus_1)
  then show ?thesis by (simp add: take_bit_eq_mod unat_mod)
qed

lemma unat_high_nibble: "unat (drop_bit 4 b :: 8 word) = unat b div 16"
  by (simp add: drop_bit_eq_div unat_div)

lemma unat_byte: "unat (b :: 8 word) < 256"
  using unsigned_less[of b] by simp

lemmas nibbles = unat_low_nibble unat_high_nibble

lemma hex_byte_inject:
  fixes a b :: "8 word"
  assumes "hextable ! (unat a div 16) = hextable ! (unat b div 16)"
    and "hextable ! (unat a mod 16) = hextable ! (unat b mod 16)"
  shows "a = b"
proof -
  have "unat a div 16 = unat b div 16"
    by (rule hextable_nth_inject) (use assms unat_byte[of a] unat_byte[of b] in auto)
  moreover have "unat a mod 16 = unat b mod 16" by (rule hextable_nth_inject) (use assms in auto)
  ultimately show ?thesis by (metis div_mult_mod_eq word_unat_eq_iff)
qed

lemma EncodeToString_inject:
  "length as = length bs \<Longrightarrow> EncodeToString as = EncodeToString bs \<Longrightarrow> as = bs"
  by (induction as bs rule: list_induct2) (auto simp: EncodeToString_def nibbles intro: hex_byte_inject)

lemma fnv_Sum_inject:
  assumes "fnv_Sum g = fnv_Sum h"
  shows "g = h"
proof (rule bit_word_eqI)
  fix n assume n: "n < LENGTH(32)"
  from assms have eq: "ucast (drop_bit k g) = (ucast (drop_bit k h) :: 8 word)" if "k \<in> {0, 8, 16, 24}" for k
    using that by (auto simp: fnv_Sum_def)
  have "bit g n = bit (ucast (drop_bit (8 * (n div 8)) g) :: 8 word) (n mod 8)"
    by (simp add: bit_ucast_iff bit_drop_bit_eq)
  also have "\<dots> = bit (ucast (drop_bit (8 * (n div 8)) h) :: 8 word) (n mod 8)"
  proof -
    have "n div 8 \<in> {0, 1, 2, 3}" using n by auto
    then show ?thesis by (subst eq) auto
  qed
  also have "\<dots> = bit h n" by (simp add: bit_ucast_iff bit_drop_bit_eq)
  finally show "bit g n = bit h n" .
qed

lemma hashPermission_eq_iff: "hashPermission p = hashPermission q \<longleftrightarrow> fnv32a p = fnv32a q"
  using EncodeToString_inject[of "fnv_Sum (fnv32a p)" "fnv_Sum (fnv32a q)"] fnv_Sum_inject
  by (auto simp: hashPermission_def fnv_Sum_def)

lemma length_hashPermission: "length (hashPermission p) = 8"
  by (simp add: hashPermission_def fnv_Sum_def EncodeToString_def)

lemma set_EncodeToString: "set (EncodeToString bs) \<subseteq> set hextable"
proof -
  have "unat b div 16 < 16" for b :: "8 word" using unat_byte[of b] by auto
  then show ?thesis by (auto simp: EncodeToString_def nibbles intro: hextable_digit)
qed

text \<open>
  C37. A permission's relation name is eight hexadecimal digits, and two permissions
  share it exactly when their 32-bit FNV-1a hashes agree. In particular it can never
  be one of the fixed relation names of the model.
\<close>

theorem hashPermission_format:
  "length (hashPermission p) = 8 \<and> set (hashPermission p) \<subseteq> set ''0123456789abcdef'' \<and>
   (hashPermission p = hashPermission q \<longleftrightarrow> fnv32a p = fnv32a q) \<and>
   hashPermission p \<notin> {RelationMember, RelationAssignee, RelationParent}"
proof -
  have "hashPermission p \<noteq> r" if "length r \<noteq> 8 \<or> \<not> set r \<subseteq> set hextable" for r
    using that set_EncodeToString length_hashPermission by (metis hashPermission_def)
  from this[of RelationMember] this[of RelationAssignee] this[of RelationParent]
  show ?thesis
    using length_hashPermission hashPermission_eq_iff set_EncodeToString
    by (auto simp: hashPermission_def hextable_def RelationMember_def RelationAssignee_def RelationParent_def)
qed

lemma hashPermission_not_parent [simp]: "hashPermission p \<noteq> RelationParent"
  using length_hashPermission[of p] by (auto simp: RelationParent_def)

text \<open>
  The relation name does not identify the permission: two different well-formed
  permissions can share it, so that a grant of one is a grant of the other.
\<close>

theorem hashPermission_collision:
  "\<exists>p q. wf_permission p \<and> wf_permission q \<and> p \<noteq> q \<and>
     hashPermission (Permission_String p) = hashPermission (Permission_String q)"
proof -
  define p where "p = \<lparr>perm_APIGroup = ''costarring'', perm_Resource = ''rs'', perm_Subresource = [], perm_Verb = ''get''\<rparr>"
  define q where "q = \<lparr>perm_APIGroup = ''liquid'', perm_Resource = ''rs'', perm_Subresource = [], perm_Verb = ''get''\<rparr>"
  have "wf_permission p" "wf_permission q" "p \<noteq> q"
    by (simp_all add: p_def q_def wf_permission_def wf_segment_def)
  moreover have "fnv32a (Permission_String p) = fnv32a (Permission_String q)"
    unfolding p_def q_def by code_simp
  ultimately show ?thesis unfolding hashPermission_eq_iff by blast
qed


section \<open>Lemmas on inherited permissions\<close>

lemma removeDuplicatePermissions_loop_spec:
  assumes "distinct result" and "seen = set result"
  shows "set (removeDuplicatePermissions_loop ps seen result) = set ps \<union> set result \<and>
    distinct (removeDuplicatePermissions_loop ps seen result)"
  using assms by (induction ps seen result rule: removeDuplicatePermissions_loop.induct) auto

lemma sort_removeDuplicatePermissions:
  "sort (removeDuplicatePermissions ps) = sorted_list_of_set (set ps)"
  by (rule sorted_distinct_set_unique)
    (simp_all add: removeDuplicatePermissions_def removeDuplicatePermissions_loop_spec)

definition permissions_of :: "(string \<rightharpoonup> ProtectedResourceSpec) \<Rightarrow> bool \<Rightarrow> string \<Rightarrow> string set" where
  "permissions_of reg en t = (case reg t of None \<Rightarrow> {} | Some spec \<Rightarrow> set (Enumerate spec en))"

lemma finite_permissions_of [simp]: "finite (permissions_of reg en t)"
  by (simp add: permissions_of_def split: option.splits)

definition inherited ::
    "(string \<rightharpoonup> ProtectedResourceSpec) \<Rightarrow> (string \<times> string) set \<Rightarrow> bool \<Rightarrow> string \<Rightarrow> string set" where
  "inherited reg E en t = (\<Union>u \<in> E\<^sup>* `` {t}. permissions_of reg en u)"

lemma inherited_step:
  "inherited reg E en t = permissions_of reg en t \<union> (\<Union>c \<in> E `` {t}. inherited reg E en c)"
proof -
  have "E\<^sup>* `` {t} = insert t (\<Union>c \<in> E `` {t}. E\<^sup>* `` {c})"
    by (auto elim: converse_rtranclE intro: converse_rtrancl_into_rtrancl)
  then show ?thesis by (simp add: inherited_def)
qed

text \<open>The memo map holds finished types only, with everything below them.\<close>

definition memo_ok ::
    "(string \<rightharpoonup> ProtectedResourceSpec) \<Rightarrow> (string \<times> string) set \<Rightarrow> bool \<Rightarrow> (string \<times> string list) list \<Rightarrow> bool" where
  "memo_ok reg E en m \<longleftrightarrow> (\<forall>t ps. map_of m t = Some ps \<longrightarrow>
     t \<noteq> TypeRoot \<and> ps = sorted_list_of_set (inherited reg E en t) \<and> E\<^sup>* `` {t} \<subseteq> dom (map_of m))"

lemma memo_ok_update:
  assumes "memo_ok reg E en m" and "t \<noteq> TypeRoot" and "E\<^sup>* `` {t} \<subseteq> insert t (dom (map_of m))"
  shows "memo_ok reg E en (AList.update t (sorted_list_of_set (inherited reg E en t)) m)"
  unfolding memo_ok_def
proof (intro allI impI)
  fix u ps assume u: "map_of (AList.update t (sorted_list_of_set (inherited reg E en t)) m) u = Some ps"
  show "u \<noteq> TypeRoot \<and> ps = sorted_list_of_set (inherited reg E en u) \<and>
      E\<^sup>* `` {u} \<subseteq> dom (map_of (AList.update t (sorted_list_of_set (inherited reg E en t)) m))"
  proof (cases "u = t")
    case False
    with u have "map_of m u = Some ps" by (simp add: update_conv')
    with assms(1) have "u \<noteq> TypeRoot" "ps = sorted_list_of_set (inherited reg E en u)" "E\<^sup>* `` {u} \<subseteq> dom (map_of m)"
      unfolding memo_ok_def by blast+
    then show ?thesis by (auto simp: update_conv')
  qed (use u assms in \<open>auto simp: update_conv'\<close>)
qed

text \<open>The Root type is above every other type, never below one.\<close>

definition root_above :: "(string \<times> string) set \<Rightarrow> string \<Rightarrow> bool" where
  "root_above E t \<longleftrightarrow> (\<forall>u. (t, u) \<in> E\<^sup>* \<longrightarrow> u \<noteq> TypeRoot \<longrightarrow> (u, TypeRoot) \<notin> E\<^sup>*)"

lemma root_above_child: "root_above E t \<Longrightarrow> (t, c) \<in> E \<Longrightarrow> root_above E c"
  unfolding root_above_def by (meson converse_rtrancl_into_rtrancl)

lemma root_above_child_not_root: "root_above E t \<Longrightarrow> t \<noteq> TypeRoot \<Longrightarrow> (t, c) \<in> E \<Longrightarrow> c \<noteq> TypeRoot"
  unfolding root_above_def by blast

definition computes ::
    "(string \<rightharpoonup> ProtectedResourceSpec) \<Rightarrow> (string \<times> string) set \<Rightarrow> bool \<Rightarrow> string set \<Rightarrow> string set \<Rightarrow>
     (string \<times> string list) list \<Rightarrow> string list \<times> (string \<times> string list) list \<Rightarrow> bool" where
  "computes reg E en ps ts m r \<longleftrightarrow>
     memo_ok reg E en (snd r) \<and> set (fst r) = ps \<and>
     dom (map_of (snd r)) = dom (map_of m) \<union> (E\<^sup>* `` ts - {TypeRoot})"

definition node_result ::
    "(string \<rightharpoonup> ProtectedResourceSpec) \<Rightarrow> (string \<times> string) set \<Rightarrow> bool \<Rightarrow> string \<Rightarrow> string set" where
  "node_result reg E en t = (if t = TypeRoot then {} else inherited reg E en t)"

lemma finite_inherited_describes: "describes reg dc en fq n \<Longrightarrow> finite (inherited reg (edges dc) en fq)"
  by (simp add: inherited_def flip: describes_types)

lemma computes_children:
  assumes "list_all2 (\<lambda>c n. root_above E c \<longrightarrow>
      (\<forall>m. memo_ok reg E en m \<longrightarrow> computes reg E en (node_result reg E en c) {c} m (calculatePermissionsForNode n m))) cs ns"
    and "\<forall>c \<in> set cs. root_above E c" and "memo_ok reg E en m"
  shows "computes reg E en (\<Union>c \<in> set cs. node_result reg E en c) (set cs) m (calculatePermissionsForChildren ns m)"
  using assms
proof (induction cs ns arbitrary: m rule: list_all2_induct)
  case Nil
  then show ?case by (simp add: computes_def)
next
  case (Cons c cs n ns)
  obtain ps m1 where n: "calculatePermissionsForNode n m = (ps, m1)" by fastforce
  with Cons.hyps(1) Cons.prems have c: "computes reg E en (node_result reg E en c) {c} m (ps, m1)"
    by (metis list.set_intros(1))
  obtain qs m2 where ns: "calculatePermissionsForChildren ns m1 = (qs, m2)" by fastforce
  with Cons.IH[of m1] Cons.prems c
  have cs: "computes reg E en (\<Union>c \<in> set cs. node_result reg E en c) (set cs) m1 (qs, m2)"
    by (simp add: computes_def)
  from c cs show ?case by (auto simp: computes_def n ns)
qed

lemma computes_node:
  assumes "describes reg dc en fq n"
  shows "root_above (edges dc) fq \<longrightarrow> (\<forall>m. memo_ok reg (edges dc) en m \<longrightarrow>
    computes reg (edges dc) en (node_result reg (edges dc) en fq) {fq} m (calculatePermissionsForNode n m))"
  using assms
proof (induction rule: describes.induct)
  case (1 fq spec ns)
  let ?E = "edges dc" and ?d = "sort (Enumerate spec en)"
  let ?n = "ResourceGraphNode fq ?d (sort (fqParentResources spec)) ns"
  have "list_all2 (describes reg dc en) (dc fq) ns" using 1(2) by (rule list_all2_mono) simp
  then have desc: "describes reg dc en fq ?n" using 1(1) by (rule describes.intros[rotated])
  have children: "set (dc fq) = ?E `` {fq}" by (auto simp: edges_def)
  have below: "?E\<^sup>* `` {fq} = insert fq (?E\<^sup>* `` (?E `` {fq}))"
    by (auto elim: converse_rtranclE intro: converse_rtrancl_into_rtrancl)
  show ?case
  proof (intro impI allI)
    fix m assume above: "root_above ?E fq" and m: "memo_ok reg ?E en m"
    obtain ps m' where loop: "calculatePermissionsForChildren ns m = (ps, m')" by fastforce
    have cs: "computes reg ?E en (\<Union>c \<in> ?E `` {fq}. node_result reg ?E en c) (?E `` {fq}) m (ps, m')"
      unfolding loop[symmetric] children[symmetric]
      by (rule computes_children[OF list_all2_mono[OF 1(2)] _ m])
        (use above root_above_child children in auto)
    have no_root: "TypeRoot \<notin> ?E\<^sup>* `` {fq}" if "fq \<noteq> TypeRoot"
      using above that unfolding root_above_def by blast
    show "computes reg ?E en (node_result reg ?E en fq) {fq} m (calculatePermissionsForNode ?n m)"
    proof -
      consider "fq = TypeRoot" | "fq \<noteq> TypeRoot" "fq \<in> dom (map_of m)" | "fq \<noteq> TypeRoot" "map_of m fq = None"
        by blast
      then show ?thesis
      proof cases
        case 1
        then have "?E\<^sup>* `` {fq} - {TypeRoot} = ?E\<^sup>* `` (?E `` {fq}) - {TypeRoot}" using below by blast
        with cs 1 show ?thesis by (simp add: computes_def loop node_result_def)
      next
        case 2
        then obtain qs where "map_of m fq = Some qs" by blast
        with m have "qs = sorted_list_of_set (inherited reg ?E en fq)" "?E\<^sup>* `` {fq} \<subseteq> dom (map_of m)"
          by (simp_all add: memo_ok_def)
        with 2 m \<open>map_of m fq = Some qs\<close> show ?thesis
          by (auto simp: computes_def node_result_def finite_inherited_describes[OF desc])
      next
        case 3
        then have "fq \<noteq> TypeRoot" by simp
      have perms: "set (?d @ ps) = inherited reg ?E en fq"
      proof -
        have "set ps = (\<Union>c \<in> ?E `` {fq}. inherited reg ?E en c)"
          using cs root_above_child_not_root[OF above \<open>fq \<noteq> TypeRoot\<close>]
          by (auto simp: computes_def node_result_def)
        then show ?thesis using 1(1) inherited_step[of reg ?E en fq] by (simp add: permissions_of_def)
      qed
      let ?ps = "sorted_list_of_set (inherited reg ?E en fq)"
      have calc: "calculatePermissionsForNode ?n m = (?ps, AList.update fq ?ps m')"
        using 3 by (simp add: loop sort_removeDuplicatePermissions perms[symmetric] Let_def)
      have dom: "dom (map_of (AList.update fq ?ps m')) = dom (map_of m) \<union> ?E\<^sup>* `` {fq}"
        using cs below no_root[OF \<open>fq \<noteq> TypeRoot\<close>] by (auto simp: computes_def update_conv')
      have "memo_ok reg ?E en (AList.update fq ?ps m')"
        using cs dom \<open>fq \<noteq> TypeRoot\<close> by (intro memo_ok_update) (auto simp: computes_def update_conv')
      then show ?thesis
        using dom no_root[OF \<open>fq \<noteq> TypeRoot\<close>] \<open>fq \<noteq> TypeRoot\<close> finite_inherited_describes[OF desc]
        unfolding calc computes_def node_result_def by auto
      qed
    qed
  qed
qed


lemma root_above_parentless:
  assumes "getResourceGraph prs en = Inr g" and "r \<in> parentless prs"
  shows "root_above (child_rel prs) r"
  unfolding root_above_def
proof (intro allI impI notI)
  fix u assume u: "(r, u) \<in> (child_rel prs)\<^sup>*" "u \<noteq> TypeRoot" "(u, TypeRoot) \<in> (child_rel prs)\<^sup>*"
  have "u \<in> dom (registered prs)"
    using u(1) assms(2) child_registered parentless_registered by (metis rtranclE)
  with u(2) have "(TypeRoot, u) \<in> child_rel prs" by (auto simp: dom_registered child_rel_def)
  with u(3) have "(u, u) \<in> (child_rel prs)\<^sup>+" by (rule rtrancl_into_trancl1)
  moreover have "u \<in> reachable_types prs" using u(1) assms(2) by (auto simp: reachable_types_def)
  ultimately show False using assms(1) graph_ok_iff[of prs en] by auto
qed

lemma hierarchical_computes:
  assumes "getResourceGraph prs en = Inr g"
  shows "memo_ok (registered prs) (child_rel prs) en (calculateHierarchicalPermissions g)"
    and "dom (map_of (calculateHierarchicalPermissions g)) = reachable_types prs - {TypeRoot}"
proof -
  let ?s = "collect_resources prs"
  from assms obtain ns where g: "g = ResourceGraphNode TypeRoot [] [] ns"
    and ns: "list_all2 (describes (registered prs) (directChildren ?s) en) (rootResourceIdentifiers ?s) ns"
    by (rule getResourceGraph_describes)
  have "memo_ok (registered prs) (child_rel prs) en []" by (simp add: memo_ok_def)
  then have "computes (registered prs) (child_rel prs) en
      (\<Union>c \<in> set (rootResourceIdentifiers ?s). node_result (registered prs) (child_rel prs) en c)
      (set (rootResourceIdentifiers ?s)) [] (calculatePermissionsForChildren ns [])"
    using root_above_parentless[OF assms]
    by (intro computes_children list_all2_mono[OF ns])
      (use computes_node[of "registered prs" "directChildren ?s"] in auto)
  then show "memo_ok (registered prs) (child_rel prs) en (calculateHierarchicalPermissions g)"
    and "dom (map_of (calculateHierarchicalPermissions g)) = reachable_types prs - {TypeRoot}"
    by (simp_all add: computes_def calculateHierarchicalPermissions_def g reachable_types_def)
qed

lemma hierarchical_map_of:
  assumes "getResourceGraph prs en = Inr g"
  shows "map_of (calculateHierarchicalPermissions g) t =
    (if t \<in> reachable_types prs - {TypeRoot}
     then Some (sorted_list_of_set (inherited (registered prs) (child_rel prs) en t)) else None)"
proof (cases "map_of (calculateHierarchicalPermissions g) t")
  case None
  then show ?thesis using hierarchical_computes(2)[OF assms] by auto
next
  case (Some ps)
  then have "t \<in> reachable_types prs - {TypeRoot}" using hierarchical_computes(2)[OF assms] by blast
  with Some show ?thesis using hierarchical_computes(1)[OF assms] by (simp add: memo_ok_def)
qed

text \<open>
  C32. The memoised depth-first computation gives every type of the graph exactly the
  permissions of all types reachable from it in the declared hierarchy, sorted and
  without duplicates, and says nothing about any other type.
\<close>

theorem calculateHierarchicalPermissions_inherited:
  assumes "getResourceGraph prs en = Inr g"
  shows "map_of (calculateHierarchicalPermissions g) t =
    (if t \<in> reachable_types prs - {TypeRoot}
     then Some (sorted_list_of_set (\<Union>u \<in> (child_rel prs)\<^sup>* `` {t}. permissions_of (registered prs) en u)) else None)"
  using hierarchical_map_of[OF assms] by (simp add: inherited_def)

end
