(* ===== verification/Fga_Client.thy ===== *)
theory Fga_Client
  imports Model_Builder
begin

text \<open>
  The OpenFGA client as the sources use it, and the helpers of
  \<open>internal/openfga\<close> around it: \<open>errors.go\<close>, \<open>tuples.go\<close>,
  \<open>model_id.go\<close>, \<open>model_transition.go\<close>, \<open>index.go\<close> and the shared
  helpers at the end of \<open>policy_reconciler.go\<close>.

  The service itself is outside the repository: a client is a record of functions over
  a world \<open>'w\<close>. Reads look at the world, writes return a new one; \<open>ctx_Err\<close> is
  the state of the caller's context, which may expire while a write is under way. What the sources
  rely on is stated by the predicates \<open>paged_reads\<close>, \<open>atomic_writes\<close> and
  \<open>model_store\<close> below.
\<close>

section \<open>Requests\<close>

record WriteRequestWrites =
  writes_TupleKeys :: "TupleKey list"
  writes_OnDuplicate :: string

record WriteRequestDeletes =
  deletes_TupleKeys :: "TupleKeyWithoutCondition list"
  deletes_OnMissing :: string

record WriteRequest =
  wr_StoreId :: string
  wr_AuthorizationModelId :: string
  wr_Writes :: "WriteRequestWrites option"
  wr_Deletes :: "WriteRequestDeletes option"

text \<open>The tuple filter of a Read; an empty field matches everything.\<close>

record ReadRequestTupleKey =
  rk_User :: string
  rk_Relation :: string
  rk_Object :: string

record ReadRequest =
  rq_StoreId :: string
  rq_ContinuationToken :: string
  rq_PageSize :: int
  rq_TupleKey :: ReadRequestTupleKey

record ReadResponse =
  rs_Tuples :: "TupleKey list"
  rs_ContinuationToken :: string

record WriteAuthorizationModelRequest =
  wm_StoreId :: string
  wm_SchemaVersion :: string
  wm_TypeDefinitions :: "TypeDefinition list"
  wm_Conditions :: "(string \<times> string) list"

record 'w OpenFGAServiceClient =
  Write :: "WriteRequest \<Rightarrow> 'w \<Rightarrow> (unit, 'w) call"
  Read :: "ReadRequest \<Rightarrow> 'w \<Rightarrow> ReadResponse result"
  ReadAuthorizationModels :: "string \<Rightarrow> int \<Rightarrow> 'w \<Rightarrow> AuthorizationModel list result"
  ReadAuthorizationModel :: "string \<Rightarrow> string \<Rightarrow> 'w \<Rightarrow> AuthorizationModel option result"
  WriteAuthorizationModel :: "WriteAuthorizationModelRequest \<Rightarrow> 'w \<Rightarrow> (string, 'w) call"
  ctx_Err :: "'w \<Rightarrow> go_error option"
  InternalErrorCode_deadline_exceeded :: nat

section \<open>errors.go\<close>

definition IsAlreadyExistsErr :: "go_error \<Rightarrow> bool" where
  "IsAlreadyExistsErr err =
     (case status_FromError err of
        Some code \<Rightarrow> code = 2017
      | None \<Rightarrow> Contains (Error err) ''already exists'')"

definition IsTupleNotFoundErr :: "go_error \<Rightarrow> bool" where
  "IsTupleNotFoundErr err =
     (case status_FromError err of
        Some code \<Rightarrow> code = 2017 \<or> code = 2018
      | None \<Rightarrow> Contains (Error err) ''cannot delete a tuple which does not exist'' \<or>
                Contains (Error err) ''not found'')"

section \<open>tuples.go\<close>

definition MaxTuplesPerWrite :: nat where "MaxTuplesPerWrite = 100"
definition onMissingIgnore :: string where "onMissingIgnore = ''ignore''"
definition onDuplicateIgnore :: string where "onDuplicateIgnore = ''ignore''"

text \<open>\<open>codes.DeadlineExceeded\<close> of gRPC. OpenFGA's own deadline code is a constant of its API package, a field of the client.\<close>

definition DeadlineExceeded :: nat where "DeadlineExceeded = 4"

definition convertTuplesForDelete :: "TupleKey list \<Rightarrow> TupleKeyWithoutCondition list" where
  "convertTuplesForDelete tuples =
     map (\<lambda>t. \<lparr>tkd_User = tk_User t, tkd_Relation = tk_Relation t, tkd_Object = tk_Object t\<rparr>) tuples"

definition delete_request :: "string \<Rightarrow> string \<Rightarrow> TupleKey list \<Rightarrow> WriteRequest" where
  "delete_request storeID modelID batch =
     \<lparr>wr_StoreId = storeID, wr_AuthorizationModelId = modelID, wr_Writes = None,
      wr_Deletes = Some \<lparr>deletes_TupleKeys = convertTuplesForDelete batch, deletes_OnMissing = onMissingIgnore\<rparr>\<rparr>"

partial_function (option) DeleteTuples_loop ::
    "('w, 'z) OpenFGAServiceClient_scheme \<Rightarrow> string \<Rightarrow> string \<Rightarrow> TupleKey list \<Rightarrow> nat \<Rightarrow> nat \<Rightarrow> 'w \<Rightarrow> (unit, 'w) comp" where
  "DeleteTuples_loop client storeID modelID tuples start batchSize w =
     (if start < length tuples
      then (case ctx_Err client w of
          Some err \<Rightarrow> Some (Inl (WrapError ''failed to delete tuples'' err), w)
        | None \<Rightarrow>
            let batch = take (min (start + batchSize) (length tuples) - start) (drop start tuples)
            in (case Write client (delete_request storeID modelID batch) w of
                (Inl err, w') \<Rightarrow>
                  let code = status_Code err
                  in if ctx_Err client w' = None \<and> length batch > 1 \<and>
                        (code = DeadlineExceeded \<or> code = InternalErrorCode_deadline_exceeded client)
                     then DeleteTuples_loop client storeID modelID tuples start (length batch div 2) w'
                     else Some (Inl (WrapError ''failed to delete tuples'' err), w')
              | (Inr u, w') \<Rightarrow>
                  DeleteTuples_loop client storeID modelID tuples (start + length batch) batchSize w'))
      else Some (Inr (), w))"

definition DeleteTuples ::
    "('w, 'z) OpenFGAServiceClient_scheme \<Rightarrow> string \<Rightarrow> string \<Rightarrow> TupleKey list \<Rightarrow> 'w \<Rightarrow> (unit, 'w) comp" where
  "DeleteTuples client storeID modelID tuples w = DeleteTuples_loop client storeID modelID tuples 0 MaxTuplesPerWrite w"


section \<open>index.go\<close>

definition ObjectName :: "string \<Rightarrow> string \<Rightarrow> string \<Rightarrow> string" where
  "ObjectName grp kind name = grp @ ''/'' @ kind @ '':'' @ name"

definition TargetObjectFromResourceSelector :: "ResourceSelector \<Rightarrow> string result" where
  "TargetObjectFromResourceSelector selector =
     (case sel_ResourceRef selector of
        Some ref \<Rightarrow> Inr (ObjectName (ref_APIGroup ref) (ref_Kind ref) (ref_Name ref))
      | None \<Rightarrow> (case sel_ResourceKind selector of
          Some rk \<Rightarrow> Inr (TypeRoot @ '':'' @ kind_APIGroup rk @ ''/'' @ kind_Kind rk)
        | None \<Rightarrow> Inl (ErrorString ''resourceSelector must specify either resourceRef or resourceKind'')))"

definition TargetKindFromResourceSelector :: "ResourceSelector \<Rightarrow> string result" where
  "TargetKindFromResourceSelector selector =
     (case sel_ResourceRef selector of
        Some ref \<Rightarrow> Inr (ref_APIGroup ref @ ''/'' @ ref_Kind ref)
      | None \<Rightarrow> (case sel_ResourceKind selector of
          Some rk \<Rightarrow> Inr (kind_APIGroup rk @ ''/'' @ kind_Kind rk)
        | None \<Rightarrow> Inl (ErrorString ''resourceSelector must specify either resourceRef or resourceKind'')))"

definition RoleRefIndexKey :: "string \<Rightarrow> RoleReference \<Rightarrow> string" where
  "RoleRefIndexKey policyBindingNamespace roleRef =
     (let namespace = roleRef_Namespace roleRef;
          namespace = (if namespace = [] then policyBindingNamespace else namespace)
      in namespace @ ''/'' @ roleRef_Name roleRef)"

section \<open>Reading and comparing tuples\<close>

partial_function (option) getTupleKeys_loop ::
    "('w, 'z) OpenFGAServiceClient_scheme \<Rightarrow> string \<Rightarrow> ReadRequestTupleKey \<Rightarrow> 'w \<Rightarrow> string \<Rightarrow> TupleKey list \<Rightarrow> TupleKey list result option" where
  "getTupleKeys_loop client storeID tuple w continuationToken tupleKeys =
     (case Read client \<lparr>rq_StoreId = storeID, rq_ContinuationToken = continuationToken,
                        rq_PageSize = 100, rq_TupleKey = tuple\<rparr> w of
        Inl err \<Rightarrow> Some (Inl (WrapError ''failed to read existing tuples'' err))
      | Inr resp \<Rightarrow>
          (if rs_ContinuationToken resp = [] then Some (Inr (tupleKeys @ rs_Tuples resp))
           else getTupleKeys_loop client storeID tuple w (rs_ContinuationToken resp) (tupleKeys @ rs_Tuples resp)))"

declare DeleteTuples_loop.simps [code] getTupleKeys_loop.simps [code]

definition getTupleKeys ::
    "('w, 'z) OpenFGAServiceClient_scheme \<Rightarrow> string \<Rightarrow> ReadRequestTupleKey \<Rightarrow> 'w \<Rightarrow> TupleKey list result option" where
  "getTupleKeys client storeID tuple w = getTupleKeys_loop client storeID tuple w [] []"

definition tupleKeyEqual :: "TupleKey \<Rightarrow> TupleKey \<Rightarrow> bool" where
  "tupleKeyEqual a b \<longleftrightarrow> tk_User a = tk_User b \<and> tk_Relation a = tk_Relation b \<and> tk_Object a = tk_Object b \<and>
     tk_Condition a = tk_Condition b"

definition diffTuples :: "TupleKey list \<Rightarrow> TupleKey list \<Rightarrow> TupleKey list \<times> TupleKey list" where
  "diffTuples existing current =
     (let removed = filter (\<lambda>existingTuple. \<not> list_ex (\<lambda>currentTuple. tupleKeyEqual existingTuple currentTuple) current) existing;
          added = filter (\<lambda>currentTuple. \<not> list_ex (\<lambda>existingTuple. tupleKeyEqual currentTuple existingTuple) existing) current
      in (added, removed))"

section \<open>model_id.go, model_transition.go\<close>

text \<open>
  A provider of the model ID; \<open>SetModelID\<close> is there when the value behind the
  interface also implements \<open>modelIDUpdater\<close>. A nil provider is \<open>None\<close>.
\<close>

record 'w ModelIDProvider =
  GetModelID :: "'w \<Rightarrow> string"
  SetModelID :: "(string \<Rightarrow> 'w \<Rightarrow> 'w) option"

definition ModelIDFrom :: "('w, 'z) ModelIDProvider_scheme option \<Rightarrow> 'w \<Rightarrow> string" where
  "ModelIDFrom p w = (case p of None \<Rightarrow> [] | Some p \<Rightarrow> GetModelID p w)"

definition latestAuthorizationModel ::
    "('w, 'z) OpenFGAServiceClient_scheme \<Rightarrow> string \<Rightarrow> 'w \<Rightarrow> AuthorizationModel option result" where
  "latestAuthorizationModel client storeID w =
     try_pure (ReadAuthorizationModels client storeID 1 w) (WrapError ''failed to list authorization models'')
       (\<lambda>models. if length models = 0 then Inr None
         else try_pure (ReadAuthorizationModel client storeID (am_Id (models ! 0)) w)
           (WrapError ''failed to get authorization model'') Inr)"

definition write_keys :: "WriteRequest \<Rightarrow> TupleKey list" where
  "write_keys request = (case wr_Writes request of None \<Rightarrow> [] | Some ws \<Rightarrow> writes_TupleKeys ws)"

definition mayBeModelTransition :: "WriteRequest \<Rightarrow> go_error \<Rightarrow> bool" where
  "mayBeModelTransition request err \<longleftrightarrow>
     wr_AuthorizationModelId request \<noteq> [] \<and> length (write_keys request) > 0 \<and> wr_Deletes request = None \<and>
     Contains (Error err) ''Invalid tuple''"

definition relationsByType :: "AuthorizationModel \<Rightarrow> (string \<times> string set) list" where
  "relationsByType model =
     foldl (\<lambda>m td. AList.update (td_Type td) (fst ` set (td_Relations td)) m) [] (am_TypeDefinitions model)"

definition modelSupportsTupleWrites :: "AuthorizationModel option \<Rightarrow> TupleKey list \<Rightarrow> bool" where
  "modelSupportsTupleWrites model tupleKeys =
     (case model of None \<Rightarrow> False
      | Some m \<Rightarrow> list_all (\<lambda>tupleKey.
          (case Cut (tk_Object tupleKey) (CHR '':'') of (objectType, _, found) \<Rightarrow>
             found \<and> (case map_of (relationsByType m) objectType of
                None \<Rightarrow> False | Some relations \<Rightarrow> tk_Relation tupleKey \<in> relations))) tupleKeys)"

definition set_model_id ::
    "('w, 'z) ModelIDProvider_scheme option \<Rightarrow> string \<Rightarrow> string \<Rightarrow> 'w \<Rightarrow> 'w" where
  "set_model_id modelIDProvider requestModelID latestModelID w =
     (case modelIDProvider of None \<Rightarrow> w
      | Some p \<Rightarrow> (case SetModelID p of None \<Rightarrow> w
          | Some set_id \<Rightarrow> if GetModelID p w = requestModelID then set_id latestModelID w else w))"

definition writeWithModelTransitionRetry ::
    "('w, 'z) OpenFGAServiceClient_scheme \<Rightarrow> WriteRequest \<Rightarrow> ('w, 'y) ModelIDProvider_scheme option \<Rightarrow> 'w \<Rightarrow> (unit, 'w) call" where
  "writeWithModelTransitionRetry client request modelIDProvider w =
     (case Write client request w of
        (Inr u, w1) \<Rightarrow> (Inr (), w1)
      | (Inl err, w1) \<Rightarrow>
          if \<not> mayBeModelTransition request err then (Inl err, w1)
          else (case latestAuthorizationModel client (wr_StoreId request) w1 of
              Inl readErr \<Rightarrow>
                (Inl (WrapError ''failed to read the latest authorization model after a tuple write failed'' readErr), w1)
            | Inr latestModel \<Rightarrow>
                let latestModelID = (case latestModel of None \<Rightarrow> [] | Some m \<Rightarrow> am_Id m)
                in if latestModelID = [] \<or> latestModelID = wr_AuthorizationModelId request then (Inl err, w1)
                   else if \<not> modelSupportsTupleWrites latestModel (write_keys request) then (Inl err, w1)
                   else let w2 = set_model_id modelIDProvider (wr_AuthorizationModelId request) latestModelID w1
                        in (case Write client (request\<lparr>wr_AuthorizationModelId := latestModelID\<rparr>) w2 of
                            (Inl retryErr, w3) \<Rightarrow>
                              (Inl (WrapError (''failed to write permission tuples with latest authorization model '' @ latestModelID) retryErr), w3)
                          | (Inr u, w3) \<Rightarrow> (Inr (), w3))))"

section \<open>What the sources rely on\<close>

text \<open>
  The store of a world is a set of tuples. \<open>paged_reads\<close>: a Read answers with the next
  page of a fixed enumeration of the matching tuples, the continuation token standing
  for the position reached; the last page comes with the empty token.
\<close>

text \<open>
  The object of a filter: none, a type followed by a colon, which matches every object of
  the type, or one object.
\<close>

definition type_filter :: "string \<Rightarrow> bool" where
  "type_filter f \<longleftrightarrow> f \<noteq> [] \<and> last f = CHR '':'' \<and> CHR '':'' \<notin> set (butlast f)"

definition object_matches :: "string \<Rightarrow> string \<Rightarrow> bool" where
  "object_matches f object \<longleftrightarrow> f = [] \<or> object = f \<or> type_filter f \<and> HasPrefix object f"

lemma object_matches_self [simp]: "object_matches f f"
  by (simp add: object_matches_def)

definition matching :: "TupleKey set \<Rightarrow> ReadRequestTupleKey \<Rightarrow> TupleKey set" where
  "matching S k = {t \<in> S. (rk_User k = [] \<or> tk_User t = rk_User k) \<and>
     (rk_Relation k = [] \<or> tk_Relation t = rk_Relation k) \<and> object_matches (rk_Object k) (tk_Object t)}"

definition paged_reads ::
    "('w, 'z) OpenFGAServiceClient_scheme \<Rightarrow> ('w \<Rightarrow> TupleKey set) \<Rightarrow> ('w \<Rightarrow> ReadRequestTupleKey \<Rightarrow> TupleKey list) \<Rightarrow>
     (string \<Rightarrow> nat) \<Rightarrow> bool" where
  "paged_reads client stored listing position \<longleftrightarrow> position [] = 0 \<and>
     (\<forall>w k. set (listing w k) = matching (stored w) k) \<and>
     (\<forall>w rq rs. Read client rq w = Inr rs \<longrightarrow>
        (let rest = drop (position (rq_ContinuationToken rq)) (listing w (rq_TupleKey rq))
         in if rs_ContinuationToken rs = [] then rs_Tuples rs = rest
            else rs_Tuples rs \<noteq> [] \<and> (\<exists>more. rest = rs_Tuples rs @ more) \<and>
                 position (rs_ContinuationToken rs) = position (rq_ContinuationToken rq) + length (rs_Tuples rs)))"

text \<open>
  \<open>atomic_writes\<close>: a Write is one transaction. When it succeeds, the keys to delete
  are gone and the tuples to write are there; when it fails, either nothing happened or
  (a deadline that expired too late) all of it did.
\<close>

definition tuple_key :: "TupleKey \<Rightarrow> TupleKeyWithoutCondition" where
  "tuple_key t = \<lparr>tkd_User = tk_User t, tkd_Relation = tk_Relation t, tkd_Object = tk_Object t\<rparr>"

definition delete_keys :: "WriteRequest \<Rightarrow> TupleKeyWithoutCondition list" where
  "delete_keys request = (case wr_Deletes request of None \<Rightarrow> [] | Some ds \<Rightarrow> deletes_TupleKeys ds)"

definition write_effect :: "WriteRequest \<Rightarrow> TupleKey set \<Rightarrow> TupleKey set" where
  "write_effect request S = {t \<in> S. tuple_key t \<notin> set (delete_keys request)} \<union> set (write_keys request)"

definition atomic_writes :: "('w, 'z) OpenFGAServiceClient_scheme \<Rightarrow> ('w \<Rightarrow> TupleKey set) \<Rightarrow> bool" where
  "atomic_writes client stored \<longleftrightarrow> (\<forall>request w r w'. Write client request w = (r, w') \<longrightarrow>
     (r = Inr () \<longrightarrow> stored w' = write_effect request (stored w)) \<and>
     (stored w' = stored w \<or> stored w' = write_effect request (stored w)))"


section \<open>Deleting tuples\<close>

lemma keys_convertTuplesForDelete [simp]: "set (convertTuplesForDelete ts) = tuple_key ` set ts"
  by (auto simp: convertTuplesForDelete_def tuple_key_def)

lemma write_effect_delete_request [simp]:
  "write_effect (delete_request sid mid batch) S = {t \<in> S. tuple_key t \<notin> tuple_key ` set batch}"
  by (auto simp: write_effect_def delete_request_def delete_keys_def write_keys_def)

lemma atomic_writesD:
  assumes "atomic_writes client stored" and "Write client request w = (r, w')"
  shows "r = Inr () \<Longrightarrow> stored w' = write_effect request (stored w)"
    and "stored w' = stored w \<or> stored w' = write_effect request (stored w)"
  using assms unfolding atomic_writes_def by blast+

lemma batch_eq: "take (min (start + n) (length ts) - start) (drop start ts) = take n (drop start ts)"
  by (simp add: min_def)

definition without :: "TupleKey list \<Rightarrow> TupleKey set \<Rightarrow> TupleKey set" where
  "without ts S = {t \<in> S. tuple_key t \<notin> tuple_key ` set ts}"

lemma take_length_take: "take (length (take n xs)) xs = take n xs"
  by (simp add: min_def)

lemma without_subset: "without ts S \<subseteq> S"
  by (auto simp: without_def)

lemma without_absorb: "set ts \<subseteq> set us \<Longrightarrow> without us (without ts S) = without us S"
  unfolding without_def by blast

lemma without_take_drop: "without (drop n ts) (without (take n ts) S) = without ts S"
  unfolding without_def by (subst (3) append_take_drop_id[of n ts, symmetric]) (auto simp del: append_take_drop_id)

lemma DeleteTuples_loop_spec:
  assumes "atomic_writes client stored" and "0 < batchSize"
  shows "\<exists>r w'. DeleteTuples_loop client sid mid tuples start batchSize w = Some (r, w') \<and>
    stored w' \<subseteq> stored w \<and> without (drop start tuples) (stored w) \<subseteq> stored w' \<and>
    (r = Inr () \<longrightarrow> stored w' = without (drop start tuples) (stored w))"
  using assms(2)
proof (induction "(length tuples - start, batchSize)" arbitrary: start batchSize w
    rule: wf_induct_rule[OF wf_lex_prod[OF wf_less_than wf_less_than]])
  case (1 start batchSize w)
  note unfold = DeleteTuples_loop.simps[of client sid mid tuples start batchSize w]
  let ?batch = "take batchSize (drop start tuples)"
  show ?case
  proof (cases "start < length tuples \<and> ctx_Err client w = None")
    case False
    then show ?thesis using without_subset by (auto simp: unfold without_def split: option.splits)
  next
    case True
    obtain r w1 where wr: "Write client (delete_request sid mid ?batch) w = (r, w1)" by fastforce
    have len: "length ?batch = min batchSize (length tuples - start)" "0 < length ?batch"
      using True "1.prems" by auto
    from atomic_writesD(2)[OF assms(1) wr]
    have w1: "stored w1 = stored w \<or> stored w1 = without ?batch (stored w)" by (simp add: without_def)
    have rest: "without (drop start tuples) (stored w1) = without (drop start tuples) (stored w)"
      using w1 by (auto simp: without_absorb set_take_subset)
    have sub: "stored w1 \<subseteq> stored w" using w1 without_subset by blast
    have keep: "without (drop start tuples) (stored w) \<subseteq> stored w1" using rest without_subset by metis
    show ?thesis
    proof (cases r)
      case (Inl err)
      show ?thesis
      proof (cases "ctx_Err client w1 = None \<and> length ?batch > 1 \<and>
          (status_Code err = DeadlineExceeded \<or> status_Code err = InternalErrorCode_deadline_exceeded client)")
        case retry: True
        let ?n = "length ?batch div 2"
        have "0 < ?n" "?n < batchSize" using retry len by auto
        with "1.hyps"[of start ?n w1] obtain r2 w2 where "DeleteTuples_loop client sid mid tuples start ?n w1 = Some (r2, w2)"
          "stored w2 \<subseteq> stored w1" "without (drop start tuples) (stored w1) \<subseteq> stored w2"
          "r2 = Inr () \<longrightarrow> stored w2 = without (drop start tuples) (stored w1)"
          by auto
        then show ?thesis using True retry sub by (auto simp: unfold batch_eq wr Inl Let_def rest)
      next
        case False
        then show ?thesis using True sub keep by (auto simp: unfold batch_eq wr Inl Let_def)
      qed
    next
      case (Inr u)
      then have "stored w1 = without ?batch (stored w)"
        using atomic_writesD(1)[OF assms(1) wr] by (simp add: without_def)
      then have next_rest: "without (drop (start + length ?batch) tuples) (stored w1) = without (drop start tuples) (stored w)"
        using without_take_drop[of "length ?batch" "drop start tuples" "stored w"] take_length_take[of batchSize "drop start tuples"]
        by (simp add: add.commute del: length_take)
      have "length tuples - (start + length ?batch) < length tuples - start" using len True by auto
      with "1.hyps"[of "start + length ?batch" batchSize w1] "1.prems" obtain r2 w2 where
        "DeleteTuples_loop client sid mid tuples (start + length ?batch) batchSize w1 = Some (r2, w2)"
        "stored w2 \<subseteq> stored w1" "without (drop (start + length ?batch) tuples) (stored w1) \<subseteq> stored w2"
        "r2 = Inr () \<longrightarrow> stored w2 = without (drop (start + length ?batch) tuples) (stored w1)"
        by auto
      then show ?thesis using True sub unfolding next_rest by (auto simp: unfold batch_eq wr Inr Let_def)
    qed
  qed
qed


text \<open>
  C33. Bulk deletion always returns, however often a batch times out, and is exact: on
  success precisely the tuples with the given keys are gone, and on failure nothing
  else was touched.
\<close>

theorem DeleteTuples_exact:
  assumes "atomic_writes client stored"
  shows "\<exists>r w'. DeleteTuples client sid mid tuples w = Some (r, w') \<and> stored w' \<subseteq> stored w \<and>
    {t \<in> stored w. tuple_key t \<notin> tuple_key ` set tuples} \<subseteq> stored w' \<and>
    (r = Inr () \<longrightarrow> stored w' = {t \<in> stored w. tuple_key t \<notin> tuple_key ` set tuples})"
  using DeleteTuples_loop_spec[OF assms, of MaxTuplesPerWrite sid mid tuples 0 w]
  by (simp add: DeleteTuples_def without_def MaxTuplesPerWrite_def)

lemma DeleteTuples_total: "atomic_writes client stored \<Longrightarrow> \<exists>r w'. DeleteTuples client sid mid tuples w = Some (r, w')"
  using DeleteTuples_loop_spec[of client stored MaxTuplesPerWrite sid mid tuples 0 w]
  by (auto simp: DeleteTuples_def MaxTuplesPerWrite_def)

section \<open>Reading tuples\<close>

text \<open>One page: the last one ends the listing, another one moves the position on.\<close>

lemma paged_reads_last:
  assumes "paged_reads client stored listing position" and "Read client rq w = Inr rs" and "rs_ContinuationToken rs = []"
  shows "rs_Tuples rs = drop (position (rq_ContinuationToken rq)) (listing w (rq_TupleKey rq))"
  using assms by (force simp: paged_reads_def Let_def)

lemma paged_reads_next:
  assumes "paged_reads client stored listing position" and "Read client rq w = Inr rs" and "rs_ContinuationToken rs \<noteq> []"
  defines "token \<equiv> rq_ContinuationToken rq" and "l \<equiv> listing w (rq_TupleKey rq)"
  shows "length l - position (rs_ContinuationToken rs) < length l - position token"
    and "drop (position token) l = rs_Tuples rs @ drop (position (rs_ContinuationToken rs)) l"
proof -
  from assms obtain more where page: "rs_Tuples rs \<noteq> []" "drop (position token) l = rs_Tuples rs @ more"
    and pos: "position (rs_ContinuationToken rs) = position token + length (rs_Tuples rs)"
    unfolding paged_reads_def Let_def by metis
  have "0 < length (drop (position token) l)" using page by simp
  then show "length l - position (rs_ContinuationToken rs) < length l - position token"
    using page(1) by (simp add: pos) (metis diff_less_mono2 length_greater_0_conv less_add_same_cancel1 zero_less_diff)
  have "drop (position (rs_ContinuationToken rs)) l = more"
    using page(2) by (metis append_eq_conv_conj drop_drop pos add.commute)
  with page(2) show "drop (position token) l = rs_Tuples rs @ drop (position (rs_ContinuationToken rs)) l" by simp
qed

lemma getTupleKeys_loop_listing:
  assumes "paged_reads client stored listing position"
  shows "\<exists>r. getTupleKeys_loop client sid k w token acc = Some r \<and>
    (\<forall>ts. r = Inr ts \<longrightarrow> ts = acc @ drop (position token) (listing w k))"
proof (induction "length (listing w k) - position token" arbitrary: token acc rule: less_induct)
  case less
  let ?rq = "\<lparr>rq_StoreId = sid, rq_ContinuationToken = token, rq_PageSize = 100, rq_TupleKey = k\<rparr>"
  note unfold = getTupleKeys_loop.simps[of client sid k w token acc]
  show ?case
  proof (cases "Read client ?rq w")
    case (Inl e)
    then show ?thesis by (simp add: unfold)
  next
    case (Inr rs)
    show ?thesis
    proof (cases "rs_ContinuationToken rs = []")
      case True
      with paged_reads_last[OF assms Inr] Inr show ?thesis by (simp add: unfold)
    next
      case False
      with paged_reads_next[OF assms Inr] less[of "rs_ContinuationToken rs" "acc @ rs_Tuples rs"] Inr show ?thesis
        by (simp add: unfold)
    qed
  qed
qed

lemma getTupleKeys_listing:
  assumes "paged_reads client stored listing position"
  obtains r where "getTupleKeys client sid k w = Some r" and "\<And>ts. r = Inr ts \<Longrightarrow> set ts = matching (stored w) k"
proof -
  from getTupleKeys_loop_listing[OF assms, of sid k w "[]" "[]"] obtain r where
    r: "getTupleKeys client sid k w = Some r" "\<forall>ts. r = Inr ts \<longrightarrow> ts = drop (position []) (listing w k)"
    by (auto simp: getTupleKeys_def)
  moreover have "position [] = 0" "set (listing w k) = matching (stored w) k"
    using assms by (simp_all add: paged_reads_def)
  ultimately show thesis using that by (metis drop0)
qed

text \<open>
  Reading a store page by page returns, for every page size the server chooses,
  and yields exactly the stored tuples that match the filter.
\<close>

theorem getTupleKeys_complete:
  assumes "paged_reads client stored listing position"
  shows "\<exists>r. getTupleKeys client sid k w = Some r \<and> (case r of Inl _ \<Rightarrow> True | Inr ts \<Rightarrow> set ts = matching (stored w) k)"
proof -
  from assms obtain r where "getTupleKeys client sid k w = Some r" "\<And>ts. r = Inr ts \<Longrightarrow> set ts = matching (stored w) k"
    using getTupleKeys_listing[of client stored listing position sid k w] by blast
  then show ?thesis by (cases r) auto
qed

section \<open>Diffs\<close>

lemma tupleKeyEqual_iff [simp]: "tupleKeyEqual a b \<longleftrightarrow> a = b"
  by (cases a; cases b) (simp add: tupleKeyEqual_def)

lemma diffTuples_sets:
  "set (fst (diffTuples existing current)) = set current - set existing"
  "set (snd (diffTuples existing current)) = set existing - set current"
  by (auto simp: diffTuples_def list_ex_iff)


section \<open>Writing across a model change\<close>

lemma write_effect_idem [simp]: "write_effect r (write_effect r S) = write_effect r S"
  by (auto simp: write_effect_def)

lemma write_effect_model_id [simp]: "write_effect (r\<lparr>wr_AuthorizationModelId := i\<rparr>) = write_effect r"
  by (simp add: write_effect_def fun_eq_iff write_keys_def delete_keys_def)

lemma write_keys_model_id [simp]: "write_keys (r\<lparr>wr_AuthorizationModelId := i\<rparr>) = write_keys r"
  by (simp add: write_keys_def)

text \<open>Updating the cached model ID leaves the store alone.\<close>

definition provider_keeps :: "('w, 'y) ModelIDProvider_scheme option \<Rightarrow> ('w \<Rightarrow> TupleKey set) \<Rightarrow> bool" where
  "provider_keeps p stored \<longleftrightarrow>
     (case p of None \<Rightarrow> True
      | Some q \<Rightarrow> (case SetModelID q of None \<Rightarrow> True | Some set_id \<Rightarrow> \<forall>i w. stored (set_id i w) = stored w))"

lemma stored_set_model_id: "provider_keeps p stored \<Longrightarrow> stored (set_model_id p a b w) = stored w"
  by (auto simp: provider_keeps_def set_model_id_def split: option.splits)

lemma transition_retry_effect:
  assumes "atomic_writes client stored" and "provider_keeps p stored"
    and "writeWithModelTransitionRetry client request p w = (r, w')"
  shows "(r = Inr () \<longrightarrow> stored w' = write_effect request (stored w)) \<and>
    (stored w' = stored w \<or> stored w' = write_effect request (stored w))"
proof -
  obtain r1 w1 where w1: "Write client request w = (r1, w1)" by fastforce
  note eff = atomic_writesD[OF assms(1) w1]
  show ?thesis
  proof (cases "\<exists>err m. r1 = Inl err \<and> mayBeModelTransition request err \<and>
      latestAuthorizationModel client (wr_StoreId request) w1 = Inr (Some m) \<and>
      am_Id m \<noteq> [] \<and> am_Id m \<noteq> wr_AuthorizationModelId request \<and> modelSupportsTupleWrites (Some m) (write_keys request)")
    case True
    then obtain err m where m: "r1 = Inl err" "mayBeModelTransition request err"
      "latestAuthorizationModel client (wr_StoreId request) w1 = Inr (Some m)"
      "am_Id m \<noteq> []" "am_Id m \<noteq> wr_AuthorizationModelId request" "modelSupportsTupleWrites (Some m) (write_keys request)"
      by blast
    let ?w2 = "set_model_id p (wr_AuthorizationModelId request) (am_Id m) w1"
    obtain r3 w3 where w3: "Write client (request\<lparr>wr_AuthorizationModelId := am_Id m\<rparr>) ?w2 = (r3, w3)" by fastforce
    have "w' = w3" "r = Inr () \<longrightarrow> r3 = Inr ()"
      using assms(3) w1 w3 m by (auto simp: writeWithModelTransitionRetry_def Let_def split: sum.splits)
    moreover have "stored ?w2 = stored w1" by (rule stored_set_model_id) (rule assms)
    ultimately show ?thesis using eff atomic_writesD[OF assms(1) w3] by auto
  next
    case False
    then have "w' = w1" "r = Inr () \<longrightarrow> r1 = Inr ()"
      using assms(3) w1 unfolding writeWithModelTransitionRetry_def Let_def
      by (auto split: sum.splits if_splits option.splits simp: modelSupportsTupleWrites_def)
    then show ?thesis using eff by auto
  qed
qed

text \<open>
  C38. The write that retries across a model change has the effect of the one write it
  was given: on success exactly that, on failure that or nothing, also when the first
  attempt was applied although it reported an error.
\<close>

theorem writeWithModelTransitionRetry_effect:
  assumes "atomic_writes client stored" and "provider_keeps p stored"
    and "writeWithModelTransitionRetry client request p w = (r, w')"
  shows "(r = Inr () \<longrightarrow> stored w' = write_effect request (stored w)) \<and>
    (stored w' = stored w \<or> stored w' = write_effect request (stored w))"
  using assms by (rule transition_retry_effect)

end
