(* ===== verification/Memory_Store.thy ===== *)
theory Memory_Store
  imports Fga_Client
begin

text \<open>
  A small in-memory authorization service, used to evaluate the model on concrete
  inputs and to show that the assumptions of \<open>Fga_Client\<close> about the service can
  hold together: it answers reads in pages of two tuples, fails the first
  \<open>mem_timeouts\<close> writes with a deadline error, and keeps every model ever written.
\<close>

record mem_world =
  mem_tuples :: "TupleKey list"
  mem_models :: "AuthorizationModel list"
  mem_timeouts :: nat
  mem_model_id :: string

definition matches :: "ReadRequestTupleKey \<Rightarrow> TupleKey \<Rightarrow> bool" where
  "matches k t \<longleftrightarrow> (rk_User k = [] \<or> tk_User t = rk_User k) \<and>
     (rk_Relation k = [] \<or> tk_Relation t = rk_Relation k) \<and> object_matches (rk_Object k) (tk_Object t)"

definition mem_listing :: "('z) mem_world_scheme \<Rightarrow> ReadRequestTupleKey \<Rightarrow> TupleKey list" where
  "mem_listing w k = filter (matches k) (mem_tuples w)"

definition mem_Read :: "ReadRequest \<Rightarrow> ('z) mem_world_scheme \<Rightarrow> ReadResponse result" where
  "mem_Read rq w =
     (let rest = drop (length (rq_ContinuationToken rq)) (mem_listing w (rq_TupleKey rq))
      in Inr (if length rest \<le> 2 then \<lparr>rs_Tuples = rest, rs_ContinuationToken = []\<rparr>
              else \<lparr>rs_Tuples = take 2 rest, rs_ContinuationToken = rq_ContinuationToken rq @ ''pp''\<rparr>))"

definition mem_Write :: "WriteRequest \<Rightarrow> ('z) mem_world_scheme \<Rightarrow> (unit, 'z mem_world_scheme) call" where
  "mem_Write rq w =
     (if mem_timeouts w > 0
      then (Inl (ExternalError (Some DeadlineExceeded) False False ''context deadline exceeded''),
            w\<lparr>mem_timeouts := mem_timeouts w - 1\<rparr>)
      else (Inr (), w\<lparr>mem_tuples := filter (\<lambda>t. tuple_key t \<notin> set (delete_keys rq)) (mem_tuples w) @ write_keys rq\<rparr>))"

definition mem_ReadAuthorizationModels :: "string \<Rightarrow> int \<Rightarrow> ('z) mem_world_scheme \<Rightarrow> AuthorizationModel list result" where
  "mem_ReadAuthorizationModels sid n w = Inr (take (nat n) (mem_models w))"

definition mem_ReadAuthorizationModel :: "string \<Rightarrow> string \<Rightarrow> ('z) mem_world_scheme \<Rightarrow> AuthorizationModel option result" where
  "mem_ReadAuthorizationModel sid i w = Inr (find (\<lambda>m. am_Id m = i) (mem_models w))"

definition mem_WriteAuthorizationModel ::
    "WriteAuthorizationModelRequest \<Rightarrow> ('z) mem_world_scheme \<Rightarrow> (string, 'z mem_world_scheme) call" where
  "mem_WriteAuthorizationModel rq w =
     (let i = replicate (Suc (length (mem_models w))) (CHR ''m'')
      in (Inr i, w\<lparr>mem_models := \<lparr>am_Id = i, am_SchemaVersion = wm_SchemaVersion rq,
            am_TypeDefinitions = wm_TypeDefinitions rq, am_Conditions = wm_Conditions rq\<rparr> # mem_models w\<rparr>))"

definition mem_client :: "('z mem_world_scheme) OpenFGAServiceClient" where
  "mem_client =
     \<lparr>Write = mem_Write, Read = mem_Read, ReadAuthorizationModels = mem_ReadAuthorizationModels,
      ReadAuthorizationModel = mem_ReadAuthorizationModel, WriteAuthorizationModel = mem_WriteAuthorizationModel,
      ctx_Err = (\<lambda>_. None), InternalErrorCode_deadline_exceeded = 4004\<rparr>"

definition mem_stored :: "('z) mem_world_scheme \<Rightarrow> TupleKey set" where
  "mem_stored w = set (mem_tuples w)"

lemma mem_client_simps [simp]:
  "Write mem_client = mem_Write" "Read mem_client = mem_Read"
  "ReadAuthorizationModels mem_client = mem_ReadAuthorizationModels"
  "ReadAuthorizationModel mem_client = mem_ReadAuthorizationModel"
  "WriteAuthorizationModel mem_client = mem_WriteAuthorizationModel" "ctx_Err mem_client w = None"
  by (simp_all add: mem_client_def)

lemma mem_paged_reads: "paged_reads mem_client mem_stored mem_listing length"
proof -
  have "matching (mem_stored w) k = set (mem_listing w k)" for w :: "'a mem_world_scheme" and k
    by (auto simp: matching_def mem_stored_def mem_listing_def matches_def)
  moreover have "\<exists>more. xs = take 2 xs @ more" for xs :: "TupleKey list"
    by (metis append_take_drop_id)
  ultimately show ?thesis
    by (auto simp: paged_reads_def mem_Read_def Let_def min_def not_le numeral_2_eq_2 split: if_splits)
qed

lemma mem_atomic_writes: "atomic_writes mem_client mem_stored"
  by (auto simp: atomic_writes_def mem_Write_def mem_stored_def write_effect_def split: if_splits)

section \<open>Evaluations\<close>

definition grant :: "string \<Rightarrow> string \<Rightarrow> string \<Rightarrow> TupleKey" where
  "grant user relation object = \<lparr>tk_User = user, tk_Relation = relation, tk_Object = object, tk_Condition = None\<rparr>"

definition example_world :: mem_world where
  "example_world =
     \<lparr>mem_tuples = [grant ''u:a'' ''r1'' ''o:1'', grant ''u:b'' ''r1'' ''o:1'', grant ''u:a'' ''r2'' ''o:1'', grant ''u:a'' ''r3'' ''o:1''],
      mem_models = [], mem_timeouts = 2, mem_model_id = []\<rparr>"

lemma example_world_stored:
  "mem_stored example_world =
     {grant ''u:a'' ''r1'' ''o:1'', grant ''u:b'' ''r1'' ''o:1'', grant ''u:a'' ''r2'' ''o:1'', grant ''u:a'' ''r3'' ''o:1''}"
  by (simp add: mem_stored_def example_world_def)

text \<open>Three tuples are deleted although the first two writes time out.\<close>

theorem DeleteTuples_exact_witness:
  "\<exists>r w'. DeleteTuples mem_client ''s'' ''m''
       [grant ''u:a'' ''r1'' ''o:1'', grant ''u:a'' ''r2'' ''o:1'', grant ''u:a'' ''r3'' ''o:1''] example_world = Some (r, w') \<and>
     (r = Inr () \<longrightarrow> mem_stored w' = {grant ''u:b'' ''r1'' ''o:1''})"
proof -
  let ?ts = "[grant ''u:a'' ''r1'' ''o:1'', grant ''u:a'' ''r2'' ''o:1'', grant ''u:a'' ''r3'' ''o:1'']"
  have "{t \<in> mem_stored example_world. tuple_key t \<notin> tuple_key ` set ?ts} = {grant ''u:b'' ''r1'' ''o:1''}"
    unfolding example_world_stored by (auto simp: grant_def tuple_key_def)
  then show ?thesis
    using DeleteTuples_exact[OF mem_atomic_writes, of "''s''" "''m''" ?ts example_world] by auto
qed

theorem getTupleKeys_complete_witness:
  "\<exists>r. getTupleKeys mem_client ''s'' \<lparr>rk_User = ''u:a'', rk_Relation = [], rk_Object = ''o:1''\<rparr> example_world = Some r \<and>
     (case r of Inl _ \<Rightarrow> True
      | Inr ts \<Rightarrow> set ts = {grant ''u:a'' ''r1'' ''o:1'', grant ''u:a'' ''r2'' ''o:1'', grant ''u:a'' ''r3'' ''o:1''})"
proof -
  let ?k = "\<lparr>rk_User = ''u:a'', rk_Relation = [], rk_Object = ''o:1''\<rparr>"
  have "matching (mem_stored example_world) ?k =
      {grant ''u:a'' ''r1'' ''o:1'', grant ''u:a'' ''r2'' ''o:1'', grant ''u:a'' ''r3'' ''o:1''}"
    unfolding example_world_stored by (auto simp: matching_def object_matches_def type_filter_def grant_def)
  then show ?thesis using getTupleKeys_complete[OF mem_paged_reads, of "''s''" ?k example_world] by metis
qed

definition mem_provider :: "('z mem_world_scheme) ModelIDProvider" where
  "mem_provider = \<lparr>GetModelID = mem_model_id, SetModelID = Some (\<lambda>i w. w\<lparr>mem_model_id := i\<rparr>)\<rparr>"

lemma mem_provider_keeps: "provider_keeps (Some mem_provider) mem_stored"
  by (simp add: provider_keeps_def mem_provider_def mem_stored_def)

text \<open>The service with a model \<open>m2\<close>; it refuses writes that are pinned to another model.\<close>

definition strict_client :: "mem_world OpenFGAServiceClient" where
  "strict_client = mem_client\<lparr>Write := (\<lambda>rq w. if wr_AuthorizationModelId rq = ''m2'' then mem_Write rq w
     else (Inl (ErrorString ''Invalid tuple''), w))\<rparr>"

definition strict_world :: mem_world where
  "strict_world =
     \<lparr>mem_tuples = [], mem_models = [\<lparr>am_Id = ''m2'', am_SchemaVersion = ''1.2'',
        am_TypeDefinitions = [set_relation ''r'' (Userset_This (Some ())) permission_metadata (empty_type_definition ''t'' [])],
        am_Conditions = []\<rparr>], mem_timeouts = 0, mem_model_id = ''m1''\<rparr>"

definition strict_request :: WriteRequest where
  "strict_request = \<lparr>wr_StoreId = ''s'', wr_AuthorizationModelId = ''m1'',
     wr_Writes = Some \<lparr>writes_TupleKeys = [grant ''u:a'' ''r'' ''t:1''], writes_OnDuplicate = onDuplicateIgnore\<rparr>, wr_Deletes = None\<rparr>"

lemma strict_atomic_writes: "atomic_writes strict_client mem_stored"
  by (auto simp: atomic_writes_def strict_client_def mem_Write_def mem_stored_def write_effect_def split: if_splits)

text \<open>The first write is refused, the retry under the newest model succeeds, and the provider has moved to it.\<close>

theorem writeWithModelTransitionRetry_effect_witness:
  "\<exists>w'. writeWithModelTransitionRetry strict_client strict_request (Some mem_provider) strict_world = (Inr (), w') \<and>
     mem_model_id w' = ''m2'' \<and> mem_stored w' = {grant ''u:a'' ''r'' ''t:1''}"
proof -
  define w' where "w' = snd (writeWithModelTransitionRetry strict_client strict_request (Some mem_provider) strict_world)"
  have run: "writeWithModelTransitionRetry strict_client strict_request (Some mem_provider) strict_world = (Inr (), w')"
    unfolding w'_def by code_simp
  have "write_effect strict_request (mem_stored strict_world) = {grant ''u:a'' ''r'' ''t:1''}"
    by (simp add: write_effect_def write_keys_def delete_keys_def mem_stored_def strict_request_def strict_world_def)
  moreover have "mem_model_id w' = ''m2''" unfolding w'_def by code_simp
  ultimately show ?thesis
    using writeWithModelTransitionRetry_effect[OF strict_atomic_writes mem_provider_keeps run] run by simp
qed

end
