(* ===== verification/Object_Hold.thy ===== *)
theory Object_Hold
  imports Memory_Store
begin

text \<open>
  Holding an object that tuples name: \<open>target_hold.go\<close> (whether the finalizer of this
  program is on an object, and putting it there) and \<open>object_tuples.go\<close> (finding,
  deleting and re-checking the tuples that name an object before the finalizer lets it
  go), with the finalizer logic of \<open>resourceownerhierarchy_controller.go\<close>.

  Objects are records of the metadata the sources read. The helpers of the controller
  runtime (\<open>ContainsFinalizer\<close>, \<open>AddFinalizer\<close>, the finalizer registry), the key
  mutex, the API server and the scheme are parameters.
\<close>

section \<open>Model\<close>

subsection \<open>Objects and helpers\<close>

record OwnerReference =
  owner_APIVersion :: string
  owner_Kind :: string
  owner_Name :: string
  owner_UID :: string

record K8sObject =
  obj_Group :: string
  obj_Kind :: string
  obj_Namespace :: string
  obj_Name :: string
  obj_UID :: string
  obj_Deleting :: bool
  obj_Generation :: int
  obj_Finalizers :: "string list"
  obj_OwnerReferences :: "OwnerReference list"

record FinalizerUtil =
  ContainsFinalizer :: "K8sObject \<Rightarrow> string \<Rightarrow> bool"
  AddFinalizer :: "K8sObject \<Rightarrow> string \<Rightarrow> K8sObject"

text \<open>The registry runs a registered finalizer on an object and says whether it changed the object.\<close>

type_synonym 'w finalizer = "K8sObject \<Rightarrow> 'w \<Rightarrow> (unit, 'w) comp"
type_synonym 'w finalizers = "'w finalizer \<Rightarrow> K8sObject \<Rightarrow> 'w \<Rightarrow> (bool \<times> K8sObject, 'w) comp"

record 'w ObjectLocks =
  LockKey :: "string \<Rightarrow> 'w \<Rightarrow> 'w"
  UnlockKey :: "string \<Rightarrow> 'w \<Rightarrow> 'w"

text \<open>\<open>defer locks.Lock(object)()\<close> around the rest of a function.\<close>

definition with_lock :: "('w, 'z) ObjectLocks_scheme \<Rightarrow> string \<Rightarrow> ('w \<Rightarrow> ('a, 'w) comp) \<Rightarrow> 'w \<Rightarrow> ('a, 'w) comp" where
  "with_lock locks object body w =
     map_option (\<lambda>(r, w). (r, UnlockKey locks object w)) (body (LockKey locks object w))"

subsection \<open>target\_hold.go\<close>

definition resourceOwnerHierarchyFinalizer :: string where
  "resourceOwnerHierarchyFinalizer = ''resourceownerhierarchy.iam.miloapis.com/finalizer''"

definition projectKind :: string where "projectKind = ''Project''"
definition organizationKind :: string where "organizationKind = ''Organization''"

definition miloFinalizers :: "string list" where
  "miloFinalizers = [''resourcemanager.miloapis.com/project-controller'', ''resourcemanager.miloapis.com/organization-namespace'']"

datatype hold = holdHeld | holdNotYet | holdDeleting | holdReplaced | holdMissing

definition holdOf :: "FinalizerUtil \<Rightarrow> K8sObject \<Rightarrow> string \<Rightarrow> hold" where
  "holdOf u obj uid =
     (if obj_UID obj \<noteq> uid then holdReplaced
      else if obj_Deleting obj then holdDeleting
      else if ContainsFinalizer u obj resourceOwnerHierarchyFinalizer then holdHeld
      else holdNotYet)"

definition drained :: "FinalizerUtil \<Rightarrow> K8sObject \<Rightarrow> bool" where
  "drained u obj = list_all (\<lambda>f. \<not> ContainsFinalizer u obj f) miloFinalizers"

text \<open>An Update returns the stored object.\<close>

definition holdWithFinalizer ::
    "FinalizerUtil \<Rightarrow> (K8sObject \<Rightarrow> 'w \<Rightarrow> (K8sObject, 'w) call) \<Rightarrow> K8sObject \<Rightarrow> 'w \<Rightarrow> (K8sObject, 'w) call" where
  "holdWithFinalizer u Update obj w =
     (let obj = AddFinalizer u obj resourceOwnerHierarchyFinalizer
      in try_call (Update obj w) (WrapError (''failed to add our finalizer to '' @ obj_Kind obj @ '' '' @ obj_Name obj))
           (\<lambda>obj w. (Inr obj, w)))"

definition holdTarget ::
    "FinalizerUtil \<Rightarrow> (K8sObject \<Rightarrow> 'w \<Rightarrow> (K8sObject, 'w) call) \<Rightarrow> K8sObject \<Rightarrow> string \<Rightarrow> 'w \<Rightarrow> (hold, 'w) call" where
  "holdTarget u Update obj uid w =
     (let h = holdOf u obj uid
      in if h \<noteq> holdNotYet then (Inr h, w)
         else try_call (holdWithFinalizer u Update obj w) (\<lambda>e. e) (\<lambda>obj w. (Inr (holdOf u obj uid), w)))"

definition isHeldKind :: "string \<Rightarrow> string \<Rightarrow> bool" where
  "isHeldKind grp kind \<longleftrightarrow> grp = ''resourcemanager.miloapis.com'' \<and> (kind = projectKind \<or> kind = organizationKind)"

fun whyNotHeld :: "hold \<Rightarrow> string \<Rightarrow> string \<Rightarrow> string" where
  "whyNotHeld holdHeld kind name = []"
| "whyNotHeld holdNotYet kind name = ''the '' @ kind @ '' '' @ name @ '' is not ready for new permissions yet''"
| "whyNotHeld holdDeleting kind name = ''the '' @ kind @ '' '' @ name @ '' is being deleted''"
| "whyNotHeld holdReplaced kind name = ''the '' @ kind @ '' '' @ name @ '' is no longer the object this binding names''"
| "whyNotHeld holdMissing kind name = ''the '' @ kind @ '' '' @ name @ '' does not exist''"

subsection \<open>Reading tuples\<close>

text \<open>\<open>codes.NotFound\<close> of gRPC.\<close>

definition grpc_NotFound :: nat where "grpc_NotFound = 5"

partial_function (option) fetch_loop ::
    "('w, 'z) OpenFGAServiceClient_scheme \<Rightarrow> string \<Rightarrow> ReadRequestTupleKey \<Rightarrow> 'w \<Rightarrow> string \<Rightarrow> TupleKey list \<Rightarrow> TupleKey list result option" where
  "fetch_loop fgaClient storeID tupleKey w continuationToken existingTuples =
     (case Read fgaClient \<lparr>rq_StoreId = storeID, rq_ContinuationToken = continuationToken, rq_PageSize = 0, rq_TupleKey = tupleKey\<rparr> w of
        Inl err \<Rightarrow> if status_FromError err = Some grpc_NotFound then Some (Inr existingTuples) else Some (Inl err)
      | Inr readResp \<Rightarrow>
          (if rs_ContinuationToken readResp = [] then Some (Inr (existingTuples @ rs_Tuples readResp))
           else fetch_loop fgaClient storeID tupleKey w (rs_ContinuationToken readResp) (existingTuples @ rs_Tuples readResp)))"

declare fetch_loop.simps [code]

definition fetchOpenFGATuples ::
    "('w, 'z) OpenFGAServiceClient_scheme \<Rightarrow> string \<Rightarrow> ReadRequestTupleKey \<Rightarrow> 'w \<Rightarrow> TupleKey list result option" where
  "fetchOpenFGATuples fgaClient storeID tupleKey w = fetch_loop fgaClient storeID tupleKey w [] []"

subsection \<open>object\_tuples.go\<close>

record 'w objectTuples =
  ot_List :: "'w \<Rightarrow> ProtectedResource list result"
  ot_fga :: "'w OpenFGAServiceClient"
  ot_storeID :: string

definition declaresParent :: "ProtectedResource \<Rightarrow> string \<Rightarrow> bool" where
  "declaresParent pr parentType =
     list_ex (\<lambda>parent. parent_APIGroup parent @ ''/'' @ parent_Kind parent = parentType) (spec_ParentResources (pr_Spec pr))"

fun child_loop :: "string \<Rightarrow> string set \<Rightarrow> ProtectedResource list \<Rightarrow> string list" where
  "child_loop parentType listed [] = []"
| "child_loop parentType listed (pr # prs) =
     (let child = ServiceRef_Name (pr_Spec pr) @ ''/'' @ spec_Kind (pr_Spec pr)
      in if child \<noteq> parentType \<and> child \<notin> listed \<and> declaresParent pr parentType
         then child # child_loop parentType (insert child listed) prs
         else child_loop parentType listed prs)"

definition childTypes :: "('w, 'z) objectTuples_scheme \<Rightarrow> string \<Rightarrow> 'w \<Rightarrow> string list result" where
  "childTypes o' parentType w =
     try_pure (ot_List o' w) (WrapError ''failed to list ProtectedResources'') (\<lambda>resources. Inr (child_loop parentType {} resources))"

fun naming_loop :: "('w, 'z) objectTuples_scheme \<Rightarrow> string \<Rightarrow> 'w \<Rightarrow> TupleKey list \<Rightarrow> string list \<Rightarrow> TupleKey list result option" where
  "naming_loop o' object w found [] = Some (Inr found)"
| "naming_loop o' object w found (child # children) =
     (case fetchOpenFGATuples (ot_fga o') (ot_storeID o') \<lparr>rk_User = object, rk_Relation = [], rk_Object = child @ '':''\<rparr> w of
        None \<Rightarrow> None
      | Some (Inl err) \<Rightarrow> Some (Inl err)
      | Some (Inr asUser) \<Rightarrow> naming_loop o' object w (found @ asUser) children)"

definition naming :: "('w, 'z) objectTuples_scheme \<Rightarrow> string \<times> string \<Rightarrow> string \<Rightarrow> 'w \<Rightarrow> TupleKey list result option" where
  "naming o' gk name w =
     (let object = ObjectName (fst gk) (snd gk) name in
      case fetchOpenFGATuples (ot_fga o') (ot_storeID o') \<lparr>rk_User = [], rk_Relation = [], rk_Object = object\<rparr> w of
        None \<Rightarrow> None
      | Some (Inl err) \<Rightarrow> Some (Inl err)
      | Some (Inr found) \<Rightarrow>
          (case childTypes o' (fst gk @ ''/'' @ snd gk) w of
             Inl err \<Rightarrow> Some (Inl err)
           | Inr children \<Rightarrow> naming_loop o' object w found children))"

definition clear_tuples :: "('w, 'z) objectTuples_scheme \<Rightarrow> string \<times> string \<Rightarrow> string \<Rightarrow> 'w \<Rightarrow> (nat, 'w) comp" where
  "clear_tuples o' gk name w =
     go_try (reading (naming o' gk name w) w) (\<lambda>e. e)
       (\<lambda>found w. go_try (DeleteTuples (ot_fga o') (ot_storeID o') [] found w) (\<lambda>e. e) (\<lambda>_ w. Some (Inr (length found), w)))"

definition remaining :: "('w, 'z) objectTuples_scheme \<Rightarrow> string \<times> string \<Rightarrow> string \<Rightarrow> 'w \<Rightarrow> (unit, 'w) comp" where
  "remaining o' gk name w =
     go_try (reading (naming o' gk name w) w) (\<lambda>e. e)
       (\<lambda>left w. if length left > 0
          then Some (Inl (ErrorString (format_nat (length left) @ '' tuples still name '' @ ObjectName (fst gk) (snd gk) name)), w)
          else Some (Inr (), w))"

subsection \<open>The finalizer\<close>

record 'w FinalizerLogic =
  fl_List :: "'w \<Rightarrow> ProtectedResource list result"
  fl_Update :: "K8sObject \<Rightarrow> 'w \<Rightarrow> (K8sObject, 'w) call"
  fl_FGAClient :: "'w OpenFGAServiceClient"
  fl_FGAStoreID :: string
  fl_GVKForObject :: "K8sObject \<Rightarrow> (string \<times> string) result"

definition fl_tuples :: "('w, 'z) FinalizerLogic_scheme \<Rightarrow> 'w objectTuples" where
  "fl_tuples f = \<lparr>ot_List = fl_List f, ot_fga = fl_FGAClient f, ot_storeID = fl_FGAStoreID f\<rparr>"

definition groupKind :: "('w, 'z) FinalizerLogic_scheme \<Rightarrow> K8sObject \<Rightarrow> (string \<times> string) result" where
  "groupKind f obj =
     try_pure (fl_GVKForObject f obj) (WrapError (''finalizer: cannot determine the kind of '' @ obj_Name obj)) Inr"

definition fl_objectName :: "('w, 'z) FinalizerLogic_scheme \<Rightarrow> K8sObject \<Rightarrow> string result" where
  "fl_objectName f obj = try_pure (groupKind f obj) (\<lambda>e. e) (\<lambda>gk. Inr (ObjectName (fst gk) (snd gk) (obj_Name obj)))"

definition fl_Clear :: "('w, 'z) FinalizerLogic_scheme \<Rightarrow> K8sObject \<Rightarrow> 'w \<Rightarrow> (unit, 'w) comp" where
  "fl_Clear f obj w =
     (case groupKind f obj of
        Inl err \<Rightarrow> Some (Inl err, w)
      | Inr gk \<Rightarrow> go_try (clear_tuples (fl_tuples f) gk (obj_Name obj) w) (\<lambda>e. e) (\<lambda>removed w. Some (Inr (), w)))"

definition fl_Finalize :: "('w, 'z) FinalizerLogic_scheme \<Rightarrow> 'w finalizer" where
  "fl_Finalize f obj w =
     (case groupKind f obj of
        Inl err \<Rightarrow> Some (Inl err, w)
      | Inr gk \<Rightarrow> remaining (fl_tuples f) gk (obj_Name obj) w)"

text \<open>The object is returned as the registry and the update leave it.\<close>

definition finalizeWhenClear ::
    "('w, 'y) ObjectLocks_scheme \<Rightarrow> ('w, 'z) FinalizerLogic_scheme \<Rightarrow> 'w finalizers \<Rightarrow> K8sObject \<Rightarrow> 'w \<Rightarrow>
     (K8sObject, 'w) comp" where
  "finalizeWhenClear locks logic fins obj w =
     (case fl_objectName logic obj of
        Inl err \<Rightarrow> Some (Inl err, w)
      | Inr object \<Rightarrow>
          go_try (fl_Clear logic obj w) (\<lambda>e. e)
            (\<lambda>_ w. with_lock locks object
              (\<lambda>w. go_try (fins (fl_Finalize logic) obj w) (\<lambda>e. e)
                 (\<lambda>(Updated, obj) w. if \<not> Updated then Some (Inr obj, w)
                    else go_try (Some (fl_Update logic obj w)) (\<lambda>e. e) (\<lambda>obj w. Some (Inr obj, w)))) w))"

section \<open>Finding the tuples that name an object\<close>

text \<open>A Read does not report NotFound for a store it can read.\<close>

definition reads_found :: "('w, 'z) OpenFGAServiceClient_scheme \<Rightarrow> bool" where
  "reads_found client \<longleftrightarrow> (\<forall>rq w e. Read client rq w = Inl e \<longrightarrow> status_FromError e \<noteq> Some grpc_NotFound)"

lemma fetch_loop_listing:
  assumes "paged_reads client stored listing position" and "reads_found client"
  shows "\<exists>r. fetch_loop client sid k w token acc = Some r \<and> (\<forall>ts. r = Inr ts \<longrightarrow> ts = acc @ drop (position token) (listing w k))"
proof (induction "length (listing w k) - position token" arbitrary: token acc rule: less_induct)
  case less
  let ?rq = "\<lparr>rq_StoreId = sid, rq_ContinuationToken = token, rq_PageSize = 0, rq_TupleKey = k\<rparr>"
  note unfold = fetch_loop.simps[of client sid k w token acc]
  show ?case
  proof (cases "Read client ?rq w")
    case (Inl e)
    with assms(2) show ?thesis by (auto simp: unfold reads_found_def)
  next
    case (Inr rs)
    show ?thesis
    proof (cases "rs_ContinuationToken rs = []")
      case True
      with paged_reads_last[OF assms(1) Inr] Inr show ?thesis by (simp add: unfold)
    next
      case False
      with paged_reads_next[OF assms(1) Inr] less[of "rs_ContinuationToken rs" "acc @ rs_Tuples rs"] Inr show ?thesis
        by (simp add: unfold)
    qed
  qed
qed

lemma fetchOpenFGATuples_listing:
  assumes "paged_reads client stored listing position" and "reads_found client"
  obtains r where "fetchOpenFGATuples client sid k w = Some r" and "\<And>ts. r = Inr ts \<Longrightarrow> set ts = matching (stored w) k"
proof -
  from fetch_loop_listing[OF assms, of sid k w "[]" "[]"] obtain r where
    r: "fetchOpenFGATuples client sid k w = Some r" "\<forall>ts. r = Inr ts \<longrightarrow> ts = drop (position []) (listing w k)"
    by (auto simp: fetchOpenFGATuples_def)
  moreover have "position [] = 0" "set (listing w k) = matching (stored w) k"
    using assms by (simp_all add: paged_reads_def)
  ultimately show thesis using that by (metis drop0)
qed

definition child_types_of :: "ProtectedResource list \<Rightarrow> string \<Rightarrow> string set" where
  "child_types_of prs parentType =
     {c. c \<noteq> parentType \<and> (\<exists>pr \<in> set prs. c = ServiceRef_Name (pr_Spec pr) @ ''/'' @ spec_Kind (pr_Spec pr) \<and> declaresParent pr parentType)}"

lemma child_loop_set: "set (child_loop parentType listed prs) = child_types_of prs parentType - listed"
  by (induction parentType listed prs rule: child_loop.induct) (auto simp: child_types_of_def Let_def)

lemma child_loop_distinct: "distinct (child_loop parentType listed prs)"
  by (induction parentType listed prs rule: child_loop.induct) (auto simp: child_loop_set Let_def)

text \<open>The tuples of a store that name an object, as the object or as the parent of an object of a child type.\<close>

definition names_object :: "string set \<Rightarrow> string \<Rightarrow> TupleKey \<Rightarrow> bool" where
  "names_object children object t \<longleftrightarrow>
     object_matches object (tk_Object t) \<or> tk_User t = object \<and> (\<exists>c \<in> children. object_matches (c @ '':'') (tk_Object t))"

lemma ObjectName_nonempty [simp]: "ObjectName g k n \<noteq> []"
  by (simp add: ObjectName_def)

lemma naming_loop_spec:
  assumes "paged_reads (ot_fga o') stored listing position" and "reads_found (ot_fga o')" and "object \<noteq> []"
  shows "\<exists>r. naming_loop o' object w found children = Some r \<and>
    (\<forall>ts. r = Inr ts \<longrightarrow> set ts = set found \<union>
       {t \<in> stored w. tk_User t = object \<and> (\<exists>c \<in> set children. object_matches (c @ '':'') (tk_Object t))})"
proof (induction children arbitrary: found)
  case (Cons c children)
  let ?k = "\<lparr>rk_User = object, rk_Relation = [], rk_Object = c @ '':''\<rparr>"
  obtain r where r: "fetchOpenFGATuples (ot_fga o') (ot_storeID o') ?k w = Some r"
    "\<And>ts. r = Inr ts \<Longrightarrow> set ts = matching (stored w) ?k"
    using fetchOpenFGATuples_listing[OF assms(1,2)] by blast
  show ?case
  proof (cases r)
    case (Inr ts)
    have "set ts = {t \<in> stored w. tk_User t = object \<and> object_matches (c @ '':'') (tk_Object t)}"
      using r(2)[OF Inr] assms(3) by (simp add: matching_def)
    with r(1) Inr Cons.IH[of "found @ ts"] show ?thesis by auto
  qed (simp add: r)
qed simp

lemma naming_spec:
  assumes "paged_reads (ot_fga o') stored listing position" and "reads_found (ot_fga o')"
  shows "\<exists>r. naming o' gk name w = Some r \<and>
    (\<forall>ts. r = Inr ts \<longrightarrow> (\<exists>prs. ot_List o' w = Inr prs \<and>
       set ts = {t \<in> stored w. names_object (child_types_of prs (fst gk @ ''/'' @ snd gk)) (ObjectName (fst gk) (snd gk) name) t}))"
proof -
  let ?object = "ObjectName (fst gk) (snd gk) name"
  let ?k = "\<lparr>rk_User = [], rk_Relation = [], rk_Object = ?object\<rparr>"
  obtain r where r: "fetchOpenFGATuples (ot_fga o') (ot_storeID o') ?k w = Some r"
    "\<And>ts. r = Inr ts \<Longrightarrow> set ts = matching (stored w) ?k"
    using fetchOpenFGATuples_listing[OF assms] by blast
  show ?thesis
  proof (cases r)
    case (Inr found)
    then have found: "set found = {t \<in> stored w. object_matches ?object (tk_Object t)}" using r(2) by (simp add: matching_def)
    show ?thesis
    proof (cases "ot_List o' w")
      case (Inr prs)
      let ?children = "child_loop (fst gk @ ''/'' @ snd gk) {} prs"
      obtain r2 where r2: "naming_loop o' ?object w found ?children = Some r2" "\<forall>ts. r2 = Inr ts \<longrightarrow> set ts = set found \<union>
          {t \<in> stored w. tk_User t = ?object \<and> (\<exists>c \<in> set ?children. object_matches (c @ '':'') (tk_Object t))}"
        using naming_loop_spec[OF assms, of ?object w found ?children] by auto
      have "naming o' gk name w = Some r2" using r(1) \<open>r = Inr found\<close> Inr r2(1) by (simp add: naming_def childTypes_def Let_def)
      moreover have "set found \<union> {t \<in> stored w. tk_User t = ?object \<and> (\<exists>c \<in> set ?children. object_matches (c @ '':'') (tk_Object t))} =
          {t \<in> stored w. names_object (child_types_of prs (fst gk @ ''/'' @ snd gk)) ?object t}"
        unfolding found names_object_def child_loop_set by blast
      ultimately show ?thesis using r2(2) Inr by simp
    qed (simp add: naming_def childTypes_def Let_def r \<open>r = Inr found\<close>)
  qed (simp add: naming_def Let_def r)
qed

section \<open>Clearing and releasing an object\<close>

text \<open>
  What the finalizer relies on besides the service: taking a lock and updating an object
  leave the tuples and the ProtectedResources alone, and the registry reports a change of
  an object that is being deleted only after the finalizer has succeeded on it.
\<close>

definition keeps_tuples ::
    "('w, 'y) ObjectLocks_scheme \<Rightarrow> ('w, 'z) FinalizerLogic_scheme \<Rightarrow> ('w \<Rightarrow> TupleKey set) \<Rightarrow> bool" where
  "keeps_tuples locks logic stored \<longleftrightarrow>
     (\<forall>k w. stored (UnlockKey locks k w) = stored w \<and> fl_List logic (UnlockKey locks k w) = fl_List logic w) \<and>
     (\<forall>obj w r w'. fl_Update logic obj w = (r, w') \<longrightarrow> stored w' = stored w \<and> fl_List logic w' = fl_List logic w)"

definition registry_runs :: "'w finalizers \<Rightarrow> bool" where
  "registry_runs fins \<longleftrightarrow>
     (\<forall>f obj w obj' w'. fins f obj w = Some (Inr (False, obj'), w') \<longrightarrow> obj' = obj) \<and>
     (\<forall>f obj w obj' w'. fins f obj w = Some (Inr (True, obj'), w') \<and> obj_Deleting obj \<longrightarrow> f obj w = Some (Inr (), w'))"

definition named_in :: "('w, 'z) FinalizerLogic_scheme \<Rightarrow> ('w \<Rightarrow> TupleKey set) \<Rightarrow> K8sObject \<Rightarrow> 'w \<Rightarrow> TupleKey set" where
  "named_in logic stored obj w =
     {t \<in> stored w. \<exists>g k prs. groupKind logic obj = Inr (g, k) \<and> fl_List logic w = Inr prs \<and>
        names_object (child_types_of prs (g @ ''/'' @ k)) (ObjectName g k (obj_Name obj)) t}"

lemma fl_tuples_simps [simp]:
  "ot_List (fl_tuples f) = fl_List f" "ot_fga (fl_tuples f) = fl_FGAClient f" "ot_storeID (fl_tuples f) = fl_FGAStoreID f"
  by (simp_all add: fl_tuples_def)

lemma fl_naming:
  assumes "paged_reads (fl_FGAClient f) stored listing position" and "reads_found (fl_FGAClient f)" and "groupKind f obj = Inr gk"
  obtains r where "naming (fl_tuples f) gk (obj_Name obj) w = Some r"
    and "\<And>ts. r = Inr ts \<Longrightarrow> set ts = named_in f stored obj w \<and> (\<exists>prs. fl_List f w = Inr prs)"
proof -
  obtain r where r: "naming (fl_tuples f) gk (obj_Name obj) w = Some r"
    and spec: "\<forall>ts. r = Inr ts \<longrightarrow> (\<exists>prs. fl_List f w = Inr prs \<and>
       set ts = {t \<in> stored w. names_object (child_types_of prs (fst gk @ ''/'' @ snd gk)) (ObjectName (fst gk) (snd gk) (obj_Name obj)) t})"
    using naming_spec[of "fl_tuples f" stored listing position gk "obj_Name obj" w] assms(1,2) by auto
  show thesis
  proof (rule that[OF r])
    fix ts assume "r = Inr ts"
    with spec obtain prs where "fl_List f w = Inr prs"
      "set ts = {t \<in> stored w. names_object (child_types_of prs (fst gk @ ''/'' @ snd gk)) (ObjectName (fst gk) (snd gk) (obj_Name obj)) t}"
      by blast
    with assms(3) show "set ts = named_in f stored obj w \<and> (\<exists>prs. fl_List f w = Inr prs)"
      by (cases gk) (auto simp: named_in_def)
  qed
qed

text \<open>
  C31. Clearing an object always returns; on success exactly the stored tuples that named
  it, as the object or as the parent of an object of a declared child type, are gone, and
  on failure no other tuple is.
\<close>

theorem fl_Clear_exact:
  assumes "paged_reads (fl_FGAClient f) stored listing position" and "reads_found (fl_FGAClient f)"
    and "atomic_writes (fl_FGAClient f) stored"
  shows "\<exists>r w'. fl_Clear f obj w = Some (r, w') \<and>
    {t \<in> stored w. tuple_key t \<notin> tuple_key ` named_in f stored obj w} \<subseteq> stored w' \<and> stored w' \<subseteq> stored w \<and>
    (r = Inr () \<longrightarrow> stored w' = {t \<in> stored w. tuple_key t \<notin> tuple_key ` named_in f stored obj w})"
proof (cases "groupKind f obj")
  case (Inl e)
  then show ?thesis by (auto simp: fl_Clear_def)
next
  case (Inr gk)
  obtain r where r: "naming (fl_tuples f) gk (obj_Name obj) w = Some r"
    and found: "\<And>ts. r = Inr ts \<Longrightarrow> set ts = named_in f stored obj w \<and> (\<exists>prs. fl_List f w = Inr prs)"
    using fl_naming[OF assms(1,2) Inr] by blast
  show ?thesis
  proof (cases r)
    case err: (Inl e)
    with r Inr show ?thesis by (auto simp: fl_Clear_def clear_tuples_def reading_def)
  next
    case ts: (Inr ts)
    obtain r2 w2 where del: "DeleteTuples (fl_FGAClient f) (fl_FGAStoreID f) [] ts w = Some (r2, w2)"
      and sub: "stored w2 \<subseteq> stored w" "without ts (stored w) \<subseteq> stored w2" "r2 = Inr () \<longrightarrow> stored w2 = without ts (stored w)"
      using DeleteTuples_loop_spec[OF assms(3), of MaxTuplesPerWrite "fl_FGAStoreID f" "[]" ts 0 w]
      by (auto simp: DeleteTuples_def MaxTuplesPerWrite_def)
    have "without ts (stored w) = {t \<in> stored w. tuple_key t \<notin> tuple_key ` named_in f stored obj w}"
      using found[OF ts] by (simp add: without_def)
    with sub del r ts Inr show ?thesis
      by (cases r2) (auto simp: fl_Clear_def clear_tuples_def reading_def)
  qed
qed

lemma fl_Finalize_clear:
  assumes "paged_reads (fl_FGAClient f) stored listing position" and "reads_found (fl_FGAClient f)"
    and "fl_Finalize f obj w = Some (Inr (), w')"
  shows "w' = w \<and> (\<exists>gk prs. groupKind f obj = Inr gk \<and> fl_List f w = Inr prs) \<and> named_in f stored obj w = {}"
proof -
  from assms(3) obtain gk where gk: "groupKind f obj = Inr gk" by (cases "groupKind f obj") (auto simp: fl_Finalize_def)
  obtain r where r: "naming (fl_tuples f) gk (obj_Name obj) w = Some r"
    and found: "\<And>ts. r = Inr ts \<Longrightarrow> set ts = named_in f stored obj w \<and> (\<exists>prs. fl_List f w = Inr prs)"
    using fl_naming[OF assms(1,2) gk] by blast
  have "r = Inr [] \<and> w' = w"
    using assms(3) gk r by (cases r) (auto simp: fl_Finalize_def remaining_def reading_def split: if_splits)
  with found[of "[]"] gk show ?thesis by auto
qed

text \<open>
  C21. When \<open>finalizeWhenClear\<close> returns a released object, that is, one the registry
  changed, then no stored tuple names the object any more, be it as the tuple's object or as
  the user of a parent tuple of an object of a declared child type.
\<close>

theorem finalizeWhenClear_releases_clear:
  assumes "paged_reads (fl_FGAClient logic) stored listing position" and "reads_found (fl_FGAClient logic)"
    and "registry_runs fins" and keeps: "keeps_tuples locks logic stored" and "obj_Deleting obj"
    and run: "finalizeWhenClear locks logic fins obj w = Some (Inr obj', w')" and "obj' \<noteq> obj"
  shows "(\<exists>gk prs. groupKind logic obj = Inr gk \<and> fl_List logic w' = Inr prs) \<and> named_in logic stored obj w' = {}"
proof -
  from run obtain object w1 where "fl_objectName logic obj = Inr object"
    and body: "with_lock locks object
        (\<lambda>w. go_try (fins (fl_Finalize logic) obj w) (\<lambda>e. e)
           (\<lambda>(Updated, obj) w. if \<not> Updated then Some (Inr obj, w)
              else go_try (Some (fl_Update logic obj w)) (\<lambda>e. e) (\<lambda>obj w. Some (Inr obj, w)))) w1 = Some (Inr obj', w')"
    by (cases "fl_objectName logic obj") (auto simp: finalizeWhenClear_def go_calls)
  let ?w = "LockKey locks object w1"
  from body obtain updated obj1 w2 w3 where fins: "fins (fl_Finalize logic) obj ?w = Some (Inr (updated, obj1), w2)"
    and upd: "if \<not> updated then obj' = obj1 \<and> w3 = w2 else fl_Update logic obj1 w2 = (Inr obj', w3)"
    and w': "w' = UnlockKey locks object w3"
    by (auto simp: with_lock_def go_calls split: if_splits)
  have "updated"
  proof (rule ccontr)
    assume "\<not> updated"
    with fins have "fins (fl_Finalize logic) obj ?w = Some (Inr (False, obj1), w2)" by simp
    with assms(3) have "obj1 = obj" unfolding registry_runs_def by blast
    with upd \<open>\<not> updated\<close> assms(7) show False by simp
  qed
  with fins assms(3,5) have "fl_Finalize logic obj ?w = Some (Inr (), w2)" unfolding registry_runs_def by simp
  note clear = fl_Finalize_clear[OF assms(1,2) this]
  have same: "stored w' = stored w2 \<and> fl_List logic w' = fl_List logic w2"
    using keeps upd \<open>updated\<close> unfolding w' keeps_tuples_def by auto
  then have "named_in logic stored obj w' = named_in logic stored obj w2" by (simp add: named_in_def)
  with clear same show ?thesis by auto
qed

section \<open>Evaluations\<close>

definition list_util :: FinalizerUtil where
  "list_util = \<lparr>ContainsFinalizer = (\<lambda>obj f. f \<in> set (obj_Finalizers obj)),
     AddFinalizer = (\<lambda>obj f. if f \<in> set (obj_Finalizers obj) then obj else obj\<lparr>obj_Finalizers := obj_Finalizers obj @ [f]\<rparr>)\<rparr>"

text \<open>A registry with one finalizer, and locks that do nothing.\<close>

definition one_finalizer :: "'w finalizers" where
  "one_finalizer f obj w =
     (if obj_Deleting obj \<and> resourceOwnerHierarchyFinalizer \<in> set (obj_Finalizers obj)
      then go_try (f obj w) (\<lambda>e. e)
             (\<lambda>_ w. Some (Inr (True, obj\<lparr>obj_Finalizers := removeAll resourceOwnerHierarchyFinalizer (obj_Finalizers obj)\<rparr>), w))
      else Some (Inr (False, obj), w))"

definition free_locks :: "'w ObjectLocks" where
  "free_locks = \<lparr>LockKey = (\<lambda>k w. w), UnlockKey = (\<lambda>k w. w)\<rparr>"

definition example_logic :: "mem_world FinalizerLogic" where
  "example_logic =
     \<lparr>fl_List = (\<lambda>_. Inr example_prs), fl_Update = (\<lambda>obj w. (Inr obj, w)), fl_FGAClient = mem_client, fl_FGAStoreID = ''s'',
      fl_GVKForObject = (\<lambda>obj. Inr (obj_Group obj, obj_Kind obj))\<rparr>"

definition example_org :: K8sObject where
  "example_org =
     \<lparr>obj_Group = ''rm.io'', obj_Kind = ''Org'', obj_Namespace = [], obj_Name = ''acme'', obj_UID = ''1'', obj_Deleting = True,
      obj_Generation = 1, obj_Finalizers = [resourceOwnerHierarchyFinalizer], obj_OwnerReferences = []\<rparr>"

definition org_world :: mem_world where
  "org_world =
     \<lparr>mem_tuples = [grant ''u:a'' ''r1'' ''rm.io/Org:acme'', grant ''rm.io/Org:acme'' ''parent'' ''rm.io/Project:p'',
        grant ''u:a'' ''r1'' ''rm.io/Org:other''], mem_models = [], mem_timeouts = 0, mem_model_id = []\<rparr>"

lemma mem_reads_found: "reads_found mem_client"
  by (simp add: reads_found_def mem_Read_def Let_def)

lemma example_logic_service:
  "paged_reads (fl_FGAClient example_logic) mem_stored mem_listing length" "reads_found (fl_FGAClient example_logic)"
  "atomic_writes (fl_FGAClient example_logic) mem_stored"
  by (simp_all add: example_logic_def mem_paged_reads mem_reads_found mem_atomic_writes)

lemma one_finalizer_runs: "registry_runs one_finalizer"
  by (auto simp: registry_runs_def one_finalizer_def go_calls split: if_splits)

theorem fl_Clear_exact_witness:
  "\<exists>r w'. fl_Clear example_logic example_org org_world = Some (r, w') \<and> mem_stored w' \<subseteq> mem_stored org_world \<and>
     r = Inr () \<and> mem_stored w' = {grant ''u:a'' ''r1'' ''rm.io/Org:other''}"
proof -
  obtain r w' where rw: "fl_Clear example_logic example_org org_world = Some (r, w')" "mem_stored w' \<subseteq> mem_stored org_world"
    using fl_Clear_exact[OF example_logic_service, of example_org org_world] by blast
  have "map_option (\<lambda>(r, w). (r, mem_tuples w)) (fl_Clear example_logic example_org org_world) =
      Some (Inr (), [grant ''u:a'' ''r1'' ''rm.io/Org:other''])" by code_simp
  with rw show ?thesis by (auto simp: mem_stored_def)
qed

theorem finalizeWhenClear_releases_clear_witness:
  "\<exists>obj' w'. finalizeWhenClear free_locks example_logic one_finalizer example_org org_world = Some (Inr obj', w') \<and>
     obj_Finalizers obj' = [] \<and> named_in example_logic mem_stored example_org w' = {}"
proof -
  define w' where "w' = snd (the (finalizeWhenClear free_locks example_logic one_finalizer example_org org_world))"
  have run: "finalizeWhenClear free_locks example_logic one_finalizer example_org org_world =
      Some (Inr (example_org\<lparr>obj_Finalizers := []\<rparr>), w')" unfolding w'_def by code_simp
  have "keeps_tuples free_locks example_logic mem_stored" "obj_Deleting example_org"
    "example_org\<lparr>obj_Finalizers := []\<rparr> \<noteq> example_org"
    by (simp_all add: keeps_tuples_def free_locks_def example_logic_def example_org_def)
  from finalizeWhenClear_releases_clear[OF example_logic_service(1,2) one_finalizer_runs this(1,2) run this(3)] run
  show ?thesis by auto
qed

end
