(* ===== verification/Hierarchy.thy ===== *)
theory Hierarchy
  imports Object_Hold
begin

text \<open>
  The parents of Projects (\<open>resourceownerhierarchy_controller.go\<close>) and the controller
  that holds Organizations (\<open>organization_controller.go\<close>): the parent tuples a Project's
  owner references call for, their synchronisation with the store under the owners'
  locks, deletion, and the predicate on Project events. The parser of API versions and
  the scheme are parameters, as are the API server and the service.
\<close>

section \<open>Model\<close>

type_synonym gvk = "string \<times> string \<times> string"

definition gvk_Group :: "gvk \<Rightarrow> string" where "gvk_Group g = fst g"
definition gvk_Kind :: "gvk \<Rightarrow> string" where "gvk_Kind g = snd (snd g)"

record 'w ResourceOwnerHierarchyReconciler =
  hr_GetProject :: "string \<Rightarrow> string \<Rightarrow> 'w \<Rightarrow> K8sObject result"
  hr_ObjectKinds :: "K8sObject \<Rightarrow> gvk list result"
  hr_Get :: "gvk \<Rightarrow> string \<Rightarrow> string \<Rightarrow> 'w \<Rightarrow> K8sObject result"
  hr_Update :: "K8sObject \<Rightarrow> 'w \<Rightarrow> (K8sObject, 'w) call"
  hr_List :: "'w \<Rightarrow> ProtectedResource list result"
  hr_FGAClient :: "'w OpenFGAServiceClient"
  hr_FGAStoreID :: string
  hr_Finalizers :: "'w finalizers"
  hr_Locks :: "'w ObjectLocks"
  hr_validProjectParentGVKs :: "gvk list"
  hr_FromAPIVersionAndKind :: "string \<Rightarrow> string \<Rightarrow> gvk"
  hr_GVKForObject :: "K8sObject \<Rightarrow> (string \<times> string) result"
  hr_Util :: FinalizerUtil

definition RelationName :: string where "RelationName = ''parent''"

definition projectParentGVKs :: "gvk list" where
  "projectParentGVKs = [(''resourcemanager.miloapis.com'', ''v1alpha1'', organizationKind)]"

definition hr_finalizerLogic :: "('w, 'z) ResourceOwnerHierarchyReconciler_scheme \<Rightarrow> 'w FinalizerLogic" where
  "hr_finalizerLogic r =
     \<lparr>fl_List = hr_List r, fl_Update = hr_Update r, fl_FGAClient = hr_FGAClient r, fl_FGAStoreID = hr_FGAStoreID r,
      fl_GVKForObject = hr_GVKForObject r\<rparr>"

subsection \<open>Parent tuples\<close>

definition parentUser :: "('w, 'z) ResourceOwnerHierarchyReconciler_scheme \<Rightarrow> OwnerReference \<Rightarrow> string" where
  "parentUser r ref =
     (let gvk = hr_FromAPIVersionAndKind r (owner_APIVersion ref) (owner_Kind ref)
      in ObjectName (gvk_Group gvk) (gvk_Kind gvk) (owner_Name ref))"

definition buildChildFGAIdentifierForResource :: "K8sObject \<Rightarrow> gvk \<Rightarrow> string \<Rightarrow> string" where
  "buildChildFGAIdentifierForResource resource gvk serviceNameForResource =
     (serviceNameForResource @ ''/'' @ gvk_Kind gvk) @ '':'' @ obj_Name resource"

text \<open>The map from users to tuples is an association list; a user that comes again is overwritten.\<close>

definition determineDesiredParentTuplesForResource ::
    "('w, 'z) ResourceOwnerHierarchyReconciler_scheme \<Rightarrow> K8sObject \<Rightarrow> gvk list \<Rightarrow> string \<Rightarrow> string \<Rightarrow> (string \<times> TupleKey) list" where
  "determineDesiredParentTuplesForResource r resource validParentGVKsForChild childFGAObjectStr relationName =
     fold (\<lambda>ownerRef desired.
        let ownerGVK = hr_FromAPIVersionAndKind r (owner_APIVersion ownerRef) (owner_Kind ownerRef);
            allowed = (if length validParentGVKsForChild = 0 then False else ownerGVK \<in> set validParentGVKsForChild)
        in if allowed
           then let userStr = parentUser r ownerRef
                in AList.update userStr \<lparr>tk_User = userStr, tk_Relation = relationName, tk_Object = childFGAObjectStr, tk_Condition = None\<rparr> desired
           else desired)
       (obj_OwnerReferences resource) []"

definition computeTupleDifferences ::
    "(string \<times> TupleKey) list \<Rightarrow> TupleKey list \<Rightarrow> TupleKey list \<times> TupleKeyWithoutCondition list" where
  "computeTupleDifferences desiredParentTuples existingFGAParentTupleKeys =
     (let existingParentUsers = fold (\<lambda>tk m. AList.update (tk_User tk) tk m) existingFGAParentTupleKeys [];
          writes = map snd (filter (\<lambda>(userStr, _). userStr \<notin> set (map fst existingParentUsers)) desiredParentTuples);
          deletes = map (\<lambda>(_, t). \<lparr>tkd_User = tk_User t, tkd_Relation = tk_Relation t, tkd_Object = tk_Object t\<rparr>)
                      (filter (\<lambda>(userStr, _). userStr \<notin> set (map fst desiredParentTuples)) existingParentUsers)
      in (writes, deletes))"

definition applyOpenFGATupleChanges ::
    "('w, 'z) OpenFGAServiceClient_scheme \<Rightarrow> string \<Rightarrow> TupleKey list \<Rightarrow> TupleKeyWithoutCondition list \<Rightarrow> 'w \<Rightarrow> (unit, 'w) call" where
  "applyOpenFGATupleChanges fgaClient storeID writes deletes w =
     (if length deletes = 0 \<and> length writes = 0 then (Inr (), w)
      else Write fgaClient
        \<lparr>wr_StoreId = storeID, wr_AuthorizationModelId = [],
         wr_Writes = (if length writes > 0 then Some \<lparr>writes_TupleKeys = writes, writes_OnDuplicate = []\<rparr> else None),
         wr_Deletes = (if length deletes > 0 then Some \<lparr>deletes_TupleKeys = deletes, deletes_OnMissing = []\<rparr> else None)\<rparr> w)"

definition applyParentChanges ::
    "('w, 'z) ResourceOwnerHierarchyReconciler_scheme \<Rightarrow> TupleKey list \<Rightarrow> TupleKeyWithoutCondition list \<Rightarrow> 'w \<Rightarrow> (unit, 'w) call" where
  "applyParentChanges r writes deletes w =
     (if length deletes = 0 \<and> length writes = 0 then (Inr (), w)
      else applyOpenFGATupleChanges (hr_FGAClient r) (hr_FGAStoreID r) writes deletes w)"

definition tuplesOfUser :: "TupleKey list \<Rightarrow> string \<Rightarrow> TupleKey list" where
  "tuplesOfUser tuples user = filter (\<lambda>t. tk_User t = user) tuples"

subsection \<open>Synchronisation\<close>

definition ownerHold ::
    "('w, 'z) ResourceOwnerHierarchyReconciler_scheme \<Rightarrow> string \<Rightarrow> OwnerReference \<Rightarrow> 'w \<Rightarrow> (hold, 'w) call" where
  "ownerHold r namespace ref w =
     (case hr_Get r (hr_FromAPIVersionAndKind r (owner_APIVersion ref) (owner_Kind ref)) namespace (owner_Name ref) w of
        Inl err \<Rightarrow> if IsNotFound err then (Inr holdMissing, w) else (Inl err, w)
      | Inr owner \<Rightarrow> holdTarget (hr_Util r) (hr_Update r) owner (owner_UID ref) w)"

definition syncParent ::
    "('w, 'z) ResourceOwnerHierarchyReconciler_scheme \<Rightarrow> string \<Rightarrow> OwnerReference \<Rightarrow> TupleKey \<Rightarrow> TupleKey list \<Rightarrow> 'w \<Rightarrow> (unit, 'w) comp" where
  "syncParent r namespace ref tuple existing =
     with_lock (hr_Locks r) (tk_User tuple)
       (\<lambda>w. go_try (Some (ownerHold r namespace ref w)) (\<lambda>e. e)
         (\<lambda>h w. if h = holdDeleting then Some (Inr (), w)
           else
             let desired = (if h = holdHeld then [(tk_User tuple, tuple)] else []);
                 (writes, deletes) = computeTupleDifferences desired (tuplesOfUser existing (tk_User tuple))
             in Some (applyParentChanges r writes deletes w)))"

fun sync_loop ::
    "('w, 'z) ResourceOwnerHierarchyReconciler_scheme \<Rightarrow> string \<Rightarrow> (string \<times> TupleKey) list \<Rightarrow> TupleKey list \<Rightarrow> OwnerReference list \<Rightarrow> 'w \<Rightarrow>
     (unit, 'w) comp" where
  "sync_loop r namespace desired existing [] w = Some (Inr (), w)"
| "sync_loop r namespace desired existing (ref # refs) w =
     (case map_of desired (parentUser r ref) of
        None \<Rightarrow> sync_loop r namespace desired existing refs w
      | Some tuple \<Rightarrow> go_try (syncParent r namespace ref tuple existing w) (\<lambda>e. e)
                       (\<lambda>_ w. sync_loop r namespace desired existing refs w))"

text \<open>The result of a reconcile is \<open>Requeue\<close>.\<close>

definition synchronizeFGAHierarchy ::
    "('w, 'z) ResourceOwnerHierarchyReconciler_scheme \<Rightarrow> K8sObject \<Rightarrow> gvk \<Rightarrow> string \<Rightarrow> gvk list \<Rightarrow> 'w \<Rightarrow> (bool, 'w) comp" where
  "synchronizeFGAHierarchy r resource gvk serviceNameForChildResource validParentGVKsForChild w =
     (let childFGAObjectStr = buildChildFGAIdentifierForResource resource gvk serviceNameForChildResource in
      go_try (reading (fetchOpenFGATuples (hr_FGAClient r) (hr_FGAStoreID r)
          \<lparr>rk_User = [], rk_Relation = RelationName, rk_Object = childFGAObjectStr\<rparr> w) w) (\<lambda>e. e)
        (\<lambda>existing w.
           let desired = determineDesiredParentTuplesForResource r resource validParentGVKsForChild childFGAObjectStr RelationName;
               staleParentTuples = snd (computeTupleDifferences desired existing)
           in go_try (Some (applyParentChanges r [] staleParentTuples w)) (\<lambda>e. e)
                (\<lambda>_ w. go_try (sync_loop r (obj_Namespace resource) desired existing (obj_OwnerReferences resource) w) (\<lambda>e. e)
                   (\<lambda>_ w. Some (Inr False, w)))))"

subsection \<open>Projects\<close>

definition handleProjectDeletion ::
    "('w, 'z) ResourceOwnerHierarchyReconciler_scheme \<Rightarrow> K8sObject \<Rightarrow> 'w \<Rightarrow> (bool, 'w) comp" where
  "handleProjectDeletion r project w =
     (if \<not> drained (hr_Util r) project then Some (Inr False, w)
      else go_try (finalizeWhenClear (hr_Locks r) (hr_finalizerLogic r) (hr_Finalizers r) project w) (\<lambda>e. e)
        (\<lambda>project w. Some (Inr (ContainsFinalizer (hr_Util r) project resourceOwnerHierarchyFinalizer), w)))"

definition ensureProjectFinalizer ::
    "('w, 'z) ResourceOwnerHierarchyReconciler_scheme \<Rightarrow> K8sObject \<Rightarrow> 'w \<Rightarrow> (bool, 'w) call" where
  "ensureProjectFinalizer r project w =
     (if \<not> ContainsFinalizer (hr_Util r) project resourceOwnerHierarchyFinalizer
      then try_call (hr_Update r (AddFinalizer (hr_Util r) project resourceOwnerHierarchyFinalizer) w) (\<lambda>e. e) (\<lambda>_ w. (Inr True, w))
      else (Inr False, w))"

definition reconcileProject ::
    "('w, 'z) ResourceOwnerHierarchyReconciler_scheme \<Rightarrow> K8sObject \<Rightarrow> gvk \<Rightarrow> 'w \<Rightarrow> (bool, 'w) comp" where
  "reconcileProject r project gvk w =
     (let serviceNameForChildResource = gvk_Group gvk; validParentGVKs = hr_validProjectParentGVKs r in
      if obj_Deleting project then handleProjectDeletion r project w
      else go_try (Some (ensureProjectFinalizer r project w)) (\<lambda>e. e)
        (\<lambda>requeueNeeded w. if requeueNeeded then Some (Inr True, w)
           else synchronizeFGAHierarchy r project gvk serviceNameForChildResource validParentGVKs w))"

definition Hierarchy_Reconcile ::
    "('w, 'z) ResourceOwnerHierarchyReconciler_scheme \<Rightarrow> string \<Rightarrow> string \<Rightarrow> 'w \<Rightarrow> (bool, 'w) comp" where
  "Hierarchy_Reconcile r namespace name w =
     (case hr_GetProject r namespace name w of
        Inl err \<Rightarrow> if IsNotFound err then Some (Inr False, w) else Some (Inl err, w)
      | Inr project \<Rightarrow>
          (case hr_ObjectKinds r project of
             Inl err \<Rightarrow> Some (Inl (WrapError (''failed to get GVK for project '' @ namespace @ ''/'' @ name) err), w)
           | Inr gvks \<Rightarrow>
               if length gvks = 0
               then Some (Inl (ErrorString (''failed to get GVK for project '' @ namespace @ ''/'' @ name @ '': %!w(<nil>)'')), w)
               else reconcileProject r project (gvks ! 0) w))"

subsection \<open>Which Project events matter\<close>

definition equalFinalizers :: "string list \<Rightarrow> string list \<Rightarrow> bool" where
  "equalFinalizers a b = (if length a \<noteq> length b then False else list_all (\<lambda>x. x \<in> set a) b)"

definition equalOwnerReferences :: "OwnerReference list \<Rightarrow> OwnerReference list \<Rightarrow> bool" where
  "equalOwnerReferences a b =
     (if length a \<noteq> length b then False
      else let aMap = map_of (rev (map (\<lambda>ref. (owner_UID ref, ref)) a)) in
        list_all (\<lambda>refB. case aMap (owner_UID refB) of
            None \<Rightarrow> False
          | Some refA \<Rightarrow> owner_APIVersion refA = owner_APIVersion refB \<and> owner_Kind refA = owner_Kind refB \<and> owner_Name refA = owner_Name refB) b)"

definition projectUpdateMatters :: "K8sObject option \<Rightarrow> K8sObject option \<Rightarrow> bool" where
  "projectUpdateMatters ObjectOld ObjectNew =
     (case (ObjectOld, ObjectNew) of
        (Some objOld, Some objNew) \<Rightarrow>
          obj_Generation objNew \<noteq> obj_Generation objOld \<or>
          \<not> equalOwnerReferences (obj_OwnerReferences objNew) (obj_OwnerReferences objOld) \<or>
          \<not> equalFinalizers (obj_Finalizers objNew) (obj_Finalizers objOld) \<or>
          obj_Deleting objNew \<and> \<not> obj_Deleting objOld \<or> \<not> obj_Deleting objNew \<and> obj_Deleting objOld
      | _ \<Rightarrow> False)"

definition projectDeleteMatters :: "FinalizerUtil \<Rightarrow> K8sObject option \<Rightarrow> bool \<Rightarrow> bool" where
  "projectDeleteMatters u obj DeleteStateUnknown =
     (case obj of None \<Rightarrow> False
      | Some obj \<Rightarrow> ContainsFinalizer u obj resourceOwnerHierarchyFinalizer \<or> DeleteStateUnknown)"

subsection \<open>Organizations\<close>

record 'w OrganizationReconciler =
  org_Get :: "string \<Rightarrow> string \<Rightarrow> 'w \<Rightarrow> K8sObject result"
  org_Update :: "K8sObject \<Rightarrow> 'w \<Rightarrow> (K8sObject, 'w) call"
  org_List :: "'w \<Rightarrow> ProtectedResource list result"
  org_FGAClient :: "'w OpenFGAServiceClient"
  org_FGAStoreID :: string
  org_Locks :: "'w ObjectLocks"
  org_finalizers :: "'w finalizers"
  org_GVKForObject :: "K8sObject \<Rightarrow> (string \<times> string) result"
  org_Util :: FinalizerUtil

definition org_finalizerLogic :: "('w, 'z) OrganizationReconciler_scheme \<Rightarrow> 'w FinalizerLogic" where
  "org_finalizerLogic r =
     \<lparr>fl_List = org_List r, fl_Update = org_Update r, fl_FGAClient = org_FGAClient r, fl_FGAStoreID = org_FGAStoreID r,
      fl_GVKForObject = org_GVKForObject r\<rparr>"

definition Organization_Reconcile ::
    "('w, 'z) OrganizationReconciler_scheme \<Rightarrow> string \<Rightarrow> string \<Rightarrow> 'w \<Rightarrow> (unit, 'w) comp" where
  "Organization_Reconcile r namespace name w =
     (case org_Get r namespace name w of
        Inl err \<Rightarrow> if IsNotFound err then Some (Inr (), w) else Some (Inl err, w)
      | Inr org \<Rightarrow>
          if obj_Deleting org
          then (if \<not> drained (org_Util r) org then Some (Inr (), w)
                else go_try (finalizeWhenClear (org_Locks r) (org_finalizerLogic r) (org_finalizers r) org w)
                       (WrapError (''failed to finalize Organization '' @ obj_Name org)) (\<lambda>_ w. Some (Inr (), w)))
          else go_try (org_finalizers r (fl_Finalize (org_finalizerLogic r)) org w)
                 (WrapError (''failed to finalize Organization '' @ obj_Name org))
                 (\<lambda>(Updated, org) w. if Updated then go_try (Some (org_Update r org w)) (\<lambda>e. e) (\<lambda>_ w. Some (Inr (), w))
                    else Some (Inr (), w)))"

section \<open>Synchronising the parents of a Project\<close>

definition parent_tuple :: "string \<Rightarrow> string \<Rightarrow> TupleKey" where
  "parent_tuple user child = \<lparr>tk_User = user, tk_Relation = RelationName, tk_Object = child, tk_Condition = None\<rparr>"

definition valid_owner :: "('w, 'z) ResourceOwnerHierarchyReconciler_scheme \<Rightarrow> gvk list \<Rightarrow> OwnerReference \<Rightarrow> bool" where
  "valid_owner r valid ref \<longleftrightarrow> hr_FromAPIVersionAndKind r (owner_APIVersion ref) (owner_Kind ref) \<in> set valid"

lemma map_of_desired:
  "map_of (determineDesiredParentTuplesForResource r resource valid child RelationName) u =
     (if \<exists>ref \<in> set (obj_OwnerReferences resource). valid_owner r valid ref \<and> parentUser r ref = u then Some (parent_tuple u child) else None)"
proof -
  let ?step = "\<lambda>ref m. if valid_owner r valid ref then AList.update (parentUser r ref) (parent_tuple (parentUser r ref) child) m else m"
  have "map_of (fold ?step refs m) u =
      (if \<exists>ref \<in> set refs. valid_owner r valid ref \<and> parentUser r ref = u then Some (parent_tuple u child) else map_of m u)" for refs m
    by (induction refs arbitrary: m) (auto simp: update_conv')
  moreover have "determineDesiredParentTuplesForResource r resource valid child RelationName = fold ?step (obj_OwnerReferences resource) []"
    unfolding determineDesiredParentTuplesForResource_def
    by (rule fold_cong) (auto simp: valid_owner_def parent_tuple_def Let_def)
  ultimately show ?thesis by simp
qed

lemma distinct_desired: "distinct (map fst (determineDesiredParentTuplesForResource r resource valid child relation))"
proof -
  have "distinct (map fst (fold (\<lambda>ref m. if P ref then AList.update (f ref) (g ref) m else m) refs m))"
    if "distinct (map fst m)" for P :: "OwnerReference \<Rightarrow> bool" and f :: "OwnerReference \<Rightarrow> string" and g :: "OwnerReference \<Rightarrow> TupleKey" and refs m
    using that by (induction refs arbitrary: m) (simp_all add: distinct_update)
  moreover have "determineDesiredParentTuplesForResource r resource valid child relation =
      fold (\<lambda>ref m. if valid_owner r valid ref
         then AList.update (parentUser r ref) \<lparr>tk_User = parentUser r ref, tk_Relation = relation, tk_Object = child, tk_Condition = None\<rparr> m
         else m) (obj_OwnerReferences resource) []"
    unfolding determineDesiredParentTuplesForResource_def by (rule fold_cong) (auto simp: valid_owner_def Let_def)
  ultimately show ?thesis by simp
qed

lemma existing_users:
  "map_of (fold (\<lambda>tk m. AList.update (tk_User tk) tk m) ts m) u = (if \<exists>t \<in> set ts. tk_User t = u then Some (last (filter (\<lambda>t. tk_User t = u) ts)) else map_of m u)"
  by (induction ts arbitrary: m) (auto simp: update_conv' last_ConsR filter_empty_conv)

lemma distinct_existing_users:
  "distinct (map fst m) \<Longrightarrow> distinct (map fst (fold (\<lambda>tk m. AList.update (tk_User tk) tk m) ts m))"
  by (induction ts arbitrary: m) (simp_all add: distinct_update)

text \<open>What a diff asks for when the existing tuples are parent tuples of one child, and hence determined by their users.\<close>

lemma computeTupleDifferences_parents:
  assumes ex: "\<And>t. t \<in> set existing \<Longrightarrow> t = parent_tuple (tk_User t) child"
    and de: "\<And>u t. (u, t) \<in> set desired \<Longrightarrow> t = parent_tuple u child"
  shows "set (fst (computeTupleDifferences desired existing)) = (\<lambda>u. parent_tuple u child) ` (fst ` set desired - tk_User ` set existing)"
    and "set (snd (computeTupleDifferences desired existing)) = tuple_key ` {t \<in> set existing. tk_User t \<notin> fst ` set desired}"
proof -
  let ?m = "fold (\<lambda>tk m. AList.update (tk_User tk) tk m) existing []"
  have keys: "fst ` set ?m = tk_User ` set existing"
    using existing_users[of existing "[]"] by (auto simp: dom_map_of_conv_image_fst[symmetric] split: if_splits)
  have entries: "(u, t) \<in> set ?m \<longleftrightarrow> u \<in> tk_User ` set existing \<and> t = parent_tuple u child" for u t
  proof -
    have "distinct (map fst ?m)" by (rule distinct_existing_users) simp
    then have "(u, t) \<in> set ?m \<longleftrightarrow> map_of ?m u = Some t" by (simp add: map_of_eq_Some_iff)
    moreover have "last (filter (\<lambda>t. tk_User t = u) existing) = parent_tuple u child" if "\<exists>t \<in> set existing. tk_User t = u"
    proof -
      have "filter (\<lambda>t. tk_User t = u) existing \<noteq> []" using that by (auto simp: filter_empty_conv)
      then have "last (filter (\<lambda>t. tk_User t = u) existing) \<in> set (filter (\<lambda>t. tk_User t = u) existing)" by (rule last_in_set)
      then show ?thesis using ex by fastforce
    qed
    ultimately show ?thesis by (auto simp: existing_users)
  qed
  show "set (fst (computeTupleDifferences desired existing)) = (\<lambda>u. parent_tuple u child) ` (fst ` set desired - tk_User ` set existing)"
    using de unfolding computeTupleDifferences_def Let_def fst_conv set_map keys by force
  have "set (snd (computeTupleDifferences desired existing)) = tuple_key ` {t. \<exists>u. (u, t) \<in> set ?m \<and> u \<notin> fst ` set desired}"
    unfolding computeTupleDifferences_def Let_def snd_conv set_map by (force simp: tuple_key_def)
  also have "{t. \<exists>u. (u, t) \<in> set ?m \<and> u \<notin> fst ` set desired} = {t \<in> set existing. tk_User t \<notin> fst ` set desired}"
    unfolding entries using ex by (auto simp: parent_tuple_def)
  finally show "set (snd (computeTupleDifferences desired existing)) = tuple_key ` {t \<in> set existing. tk_User t \<notin> fst ` set desired}" .
qed

lemma applyParentChanges_effect:
  assumes "atomic_writes (hr_FGAClient r) stored" and "applyParentChanges r writes deletes w = (Inr (), w')"
  shows "stored w' = {t \<in> stored w. tuple_key t \<notin> set deletes} \<union> set writes"
proof (cases "deletes = [] \<and> writes = []")
  case True
  with assms(2) show ?thesis by (simp add: applyParentChanges_def)
next
  case False
  then obtain rq where "Write (hr_FGAClient r) rq w = (Inr (), w')" "write_keys rq = writes" "delete_keys rq = deletes"
    using assms(2) by (auto simp: applyParentChanges_def applyOpenFGATupleChanges_def write_keys_def delete_keys_def split: if_splits)
  with atomic_writesD(1)[OF assms(1)] show ?thesis by (simp add: write_effect_def)
qed

text \<open>
  During one pass the owners keep the state of their hold: looking an owner up, and
  putting the finalizer on it where it is missing, leaves the tuples alone and, when it
  succeeds, finds the hold \<open>H\<close>. Locks leave the tuples alone too.
\<close>

definition owners_stable ::
    "('w, 'z) ResourceOwnerHierarchyReconciler_scheme \<Rightarrow> string \<Rightarrow> ('w \<Rightarrow> TupleKey set) \<Rightarrow> (OwnerReference \<Rightarrow> hold) \<Rightarrow> bool" where
  "owners_stable r namespace stored H \<longleftrightarrow>
     (\<forall>ref w res w'. ownerHold r namespace ref w = (res, w') \<longrightarrow> stored w' = stored w \<and> (\<forall>h. res = Inr h \<longrightarrow> h = H ref)) \<and>
     (\<forall>k w. stored (LockKey (hr_Locks r) k w) = stored w \<and> stored (UnlockKey (hr_Locks r) k w) = stored w)"

lemma syncParent_effect:
  assumes "atomic_writes (hr_FGAClient r) stored" and stable: "owners_stable r ns stored H"
    and ex: "\<And>t. t \<in> set existing \<Longrightarrow> t = parent_tuple (tk_User t) child"
    and run: "syncParent r ns ref (parent_tuple u child) existing w = Some (Inr (), w')"
  shows "stored w' =
    (if H ref = holdDeleting then stored w
     else if H ref = holdHeld then stored w \<union> (if u \<in> tk_User ` set existing then {} else {parent_tuple u child})
     else if u \<in> tk_User ` set existing then {t \<in> stored w. tuple_key t \<noteq> tuple_key (parent_tuple u child)} else stored w)"
proof -
  let ?k = "tk_User (parent_tuple u child)" and ?mine = "tuplesOfUser existing u"
  have u: "?k = u" by (simp add: parent_tuple_def)
  from run obtain h w1 w2 where hold: "ownerHold r ns ref (LockKey (hr_Locks r) u w) = (Inr h, w1)"
    and body: "if h = holdDeleting then w2 = w1 else
      applyParentChanges r (fst (computeTupleDifferences (if h = holdHeld then [(u, parent_tuple u child)] else []) ?mine))
        (snd (computeTupleDifferences (if h = holdHeld then [(u, parent_tuple u child)] else []) ?mine)) w1 = (Inr (), w2)"
    and w': "w' = UnlockKey (hr_Locks r) u w2"
    by (auto simp: syncParent_def with_lock_def go_calls u Let_def case_prod_beta split: if_splits)
  have h: "h = H ref" and w1: "stored w1 = stored w" and w2: "stored w' = stored w2"
    using stable hold unfolding owners_stable_def w' by metis+
  have mine: "set ?mine = (if u \<in> tk_User ` set existing then {parent_tuple u child} else {})"
  proof -
    have "t = parent_tuple u child" if "t \<in> set existing" "tk_User t = u" for t using ex[OF that(1)] unfolding that(2) .
    then have "set ?mine \<subseteq> {parent_tuple u child}" unfolding tuplesOfUser_def set_filter by blast
    then have "tuplesOfUser existing u \<noteq> [] \<Longrightarrow> set ?mine = {parent_tuple u child}" by (simp add: subset_singleton_iff)
    moreover have "tuplesOfUser existing u = [] \<longleftrightarrow> u \<notin> tk_User ` set existing" by (auto simp: tuplesOfUser_def filter_empty_conv)
    ultimately show ?thesis by simp
  qed
  have mine_ex: "\<And>t. t \<in> set ?mine \<Longrightarrow> t = parent_tuple (tk_User t) child" using ex unfolding tuplesOfUser_def set_filter by blast
  have mine_users: "tk_User ` set ?mine = (if u \<in> tk_User ` set existing then {u} else {})"
    unfolding mine by (simp add: parent_tuple_def)
  show ?thesis
  proof (cases "h = holdDeleting")
    case True
    with body h w1 w2 show ?thesis by simp
  next
    case False
    let ?desired = "if h = holdHeld then [(u, parent_tuple u child)] else []"
    have de: "\<And>v t. (v, t) \<in> set ?desired \<Longrightarrow> t = parent_tuple v child" by (simp split: if_splits)
    have app: "applyParentChanges r (fst (computeTupleDifferences ?desired ?mine)) (snd (computeTupleDifferences ?desired ?mine)) w1 = (Inr (), w2)"
      using body False by (simp only: if_False)
    have "stored w2 = {t \<in> stored w. tuple_key t \<notin> set (snd (computeTupleDifferences ?desired ?mine))} \<union>
        set (fst (computeTupleDifferences ?desired ?mine))"
      using applyParentChanges_effect[OF assms(1) app] unfolding w1 .
    also have "\<dots> = {t \<in> stored w. tuple_key t \<notin> tuple_key ` {t \<in> set ?mine. tk_User t \<notin> fst ` set ?desired}} \<union>
        (\<lambda>v. parent_tuple v child) ` (fst ` set ?desired - tk_User ` set ?mine)"
      by (simp only: computeTupleDifferences_parents[OF mine_ex de])
    finally show ?thesis using False h w2 unfolding mine_users unfolding mine by (auto simp: parent_tuple_def)
  qed
qed

lemma sync_loop_effect:
  assumes writes: "atomic_writes (hr_FGAClient r) stored" and stable: "owners_stable r ns stored H"
    and ex: "\<And>t. t \<in> set existing \<Longrightarrow> t = parent_tuple (tk_User t) child"
    and de: "\<And>u t. map_of desired u = Some t \<Longrightarrow> t = parent_tuple u child"
    and "distinct (map (parentUser r) refs)"
    and "sync_loop r ns desired existing refs w = Some (Inr (), w')"
  shows "(\<forall>t. t \<notin> (\<lambda>ref. parent_tuple (parentUser r ref) child) ` {ref \<in> set refs. map_of desired (parentUser r ref) \<noteq> None} \<longrightarrow>
      tk_Condition t = None \<longrightarrow> (t \<in> stored w' \<longleftrightarrow> t \<in> stored w)) \<and>
    (\<forall>ref \<in> set refs. map_of desired (parentUser r ref) \<noteq> None \<longrightarrow>
      (parent_tuple (parentUser r ref) child \<in> stored w \<longleftrightarrow> parentUser r ref \<in> tk_User ` set existing) \<longrightarrow>
      (parent_tuple (parentUser r ref) child \<in> stored w' \<longleftrightarrow>
         H ref = holdHeld \<or> H ref = holdDeleting \<and> parentUser r ref \<in> tk_User ` set existing))"
  using assms(5,6)
proof (induction refs arbitrary: w)
  case (Cons ref refs)
  let ?u = "parentUser r ref"
  show ?case
  proof (cases "map_of desired ?u")
    case None
    have "{s \<in> set (ref # refs). map_of desired (parentUser r s) \<noteq> None} = {s \<in> set refs. map_of desired (parentUser r s) \<noteq> None}"
      using None by auto
    moreover have "sync_loop r ns desired existing refs w = Some (Inr (), w')" using Cons.prems(2) None by simp
    ultimately show ?thesis using Cons.IH[of w] Cons.prems(1) None by simp
  next
    case (Some tuple)
    then have tuple: "tuple = parent_tuple ?u child" by (rule de)
    from Cons.prems(2) Some tuple obtain w1 where step: "syncParent r ns ref (parent_tuple ?u child) existing w = Some (Inr (), w1)"
      and rest: "sync_loop r ns desired existing refs w1 = Some (Inr (), w')"
      by (auto simp: go_calls)
    from Cons.prems(1) have dist: "distinct (map (parentUser r) refs)" and new: "?u \<notin> parentUser r ` set refs" by auto
    let ?mine = "(\<lambda>ref. parent_tuple (parentUser r ref) child) ` {ref \<in> set refs. map_of desired (parentUser r ref) \<noteq> None}"
    note IH = Cons.IH[OF dist rest]
    have inj: "parent_tuple u child = parent_tuple v child \<longleftrightarrow> u = v" for u v by (simp add: parent_tuple_def)
    have cond: "tk_Condition (parent_tuple u child) = None" for u by (simp add: parent_tuple_def)
    have key: "tuple_key t = tuple_key (parent_tuple ?u child) \<longleftrightarrow> t = parent_tuple ?u child" if "tk_Condition t = None" for t
      using that by (cases t) (auto simp: tuple_key_def parent_tuple_def)
    note eff = syncParent_effect[OF writes stable ex step]
    have other: "t \<in> stored w1 \<longleftrightarrow> t \<in> stored w" if "t \<noteq> parent_tuple ?u child" "tk_Condition t = None" for t
      using that eff key[OF that(2)] by (auto split: if_splits)
    have mine: "parent_tuple ?u child \<in> stored w1 \<longleftrightarrow> H ref = holdHeld \<or> H ref = holdDeleting \<and> ?u \<in> tk_User ` set existing"
      if "parent_tuple ?u child \<in> stored w \<longleftrightarrow> ?u \<in> tk_User ` set existing"
      using eff that by (auto split: if_splits)
    show ?thesis
    proof (intro conjI allI ballI impI)
      fix t assume t: "t \<notin> (\<lambda>ref. parent_tuple (parentUser r ref) child) ` {s \<in> set (ref # refs). map_of desired (parentUser r s) \<noteq> None}"
        "tk_Condition t = None"
      then have "t \<noteq> parent_tuple ?u child" "t \<notin> ?mine" using Some by auto
      then show "t \<in> stored w' \<longleftrightarrow> t \<in> stored w" using other IH t(2) by blast
    next
      fix s assume s: "s \<in> set (ref # refs)" "map_of desired (parentUser r s) \<noteq> None"
        "parent_tuple (parentUser r s) child \<in> stored w \<longleftrightarrow> parentUser r s \<in> tk_User ` set existing"
      show "parent_tuple (parentUser r s) child \<in> stored w' \<longleftrightarrow>
          H s = holdHeld \<or> H s = holdDeleting \<and> parentUser r s \<in> tk_User ` set existing"
      proof (cases "s \<in> set refs")
        case True
        then have "parentUser r s \<noteq> ?u" using new by (metis imageI)
        then have "parent_tuple (parentUser r s) child \<in> stored w1 \<longleftrightarrow> parentUser r s \<in> tk_User ` set existing"
          using other[of "parent_tuple (parentUser r s) child"] s(3) cond inj by metis
        with IH True s(2) show ?thesis by blast
      next
        case False
        then have "s = ref" using s(1) by simp
        moreover have "parent_tuple ?u child \<notin> ?mine" using new inj by auto
        then have "parent_tuple ?u child \<in> stored w' \<longleftrightarrow> parent_tuple ?u child \<in> stored w1" using IH cond by blast
        ultimately show ?thesis using mine s(3) by simp
      qed
    qed
  qed
qed simp

lemma object_matches_named: "n \<noteq> [] \<Longrightarrow> object_matches (p @ '':'' @ n) object \<longleftrightarrow> object = p @ '':'' @ n"
  by (auto simp: object_matches_def type_filter_def butlast_append)

text \<open>
  C20. When the parents of a named Project are synchronised without error, with distinct
  owners whose hold does not change meanwhile and a store without conditions, then
  afterwards the Project has exactly these parent tuples: one for each owner reference of
  a valid kind whose owner the finalizer holds, and the one it had for an owner that is
  being deleted, which is left to that owner's finalizer. No other tuple changes.
\<close>

theorem synchronizeFGAHierarchy_exact:
  assumes reads: "paged_reads (hr_FGAClient r) stored listing position" "reads_found (hr_FGAClient r)"
    and writes: "atomic_writes (hr_FGAClient r) stored" and stable: "owners_stable r (obj_Namespace project) stored H"
    and plain: "\<forall>t \<in> stored w. tk_Condition t = None" and "obj_Name project \<noteq> []"
    and dist: "distinct (map (parentUser r) (obj_OwnerReferences project))"
    and run: "synchronizeFGAHierarchy r project gvk service valid w = Some (Inr requeue, w')"
  defines "child \<equiv> buildChildFGAIdentifierForResource project gvk service"
  shows "(\<forall>u. parent_tuple u child \<in> stored w' \<longleftrightarrow>
      (\<exists>ref \<in> set (obj_OwnerReferences project). valid_owner r valid ref \<and> parentUser r ref = u \<and>
         (H ref = holdHeld \<or> H ref = holdDeleting \<and> parent_tuple u child \<in> stored w))) \<and>
    (\<forall>t :: TupleKey. tk_Condition t = None \<longrightarrow> \<not> (tk_Relation t = RelationName \<and> tk_Object t = child) \<longrightarrow> (t \<in> stored w' \<longleftrightarrow> t \<in> stored w))"
proof -
  let ?k = "\<lparr>rk_User = [], rk_Relation = RelationName, rk_Object = child\<rparr>"
  let ?desired = "determineDesiredParentTuplesForResource r project valid child RelationName"
  let ?refs = "obj_OwnerReferences project"
  obtain res where res: "fetchOpenFGATuples (hr_FGAClient r) (hr_FGAStoreID r) ?k w = Some res"
    and found: "\<And>ts. res = Inr ts \<Longrightarrow> set ts = matching (stored w) ?k"
    using fetchOpenFGATuples_listing[OF reads] by blast
  from run res obtain existing w1 where "res = Inr existing"
    and stale: "applyParentChanges r [] (snd (computeTupleDifferences ?desired existing)) w = (Inr (), w1)"
    and loop: "sync_loop r (obj_Namespace project) ?desired existing ?refs w1 = Some (Inr (), w')"
    by (auto simp: synchronizeFGAHierarchy_def Let_def go_calls reading_def child_def)
  then have ex_set: "set existing = {t \<in> stored w. tk_Relation t = RelationName \<and> tk_Object t = child}"
    using found[of existing] object_matches_named[OF \<open>obj_Name project \<noteq> []\<close>, of "service @ ''/'' @ gvk_Kind gvk"]
    by (auto simp: matching_def child_def buildChildFGAIdentifierForResource_def RelationName_def)
  then have ex: "t = parent_tuple (tk_User t) child" if "t \<in> set existing" for t
    using plain that by (cases t) (auto simp: parent_tuple_def)
  have ex_users: "u \<in> tk_User ` set existing \<longleftrightarrow> parent_tuple u child \<in> stored w" for u
    using ex ex_set by (auto simp: parent_tuple_def image_iff)
  have de: "map_of ?desired u = Some t \<Longrightarrow> t = parent_tuple u child" for u t by (simp add: map_of_desired split: if_splits)
  have dom: "fst ` set ?desired = parentUser r ` {ref \<in> set ?refs. valid_owner r valid ref}"
    using map_of_desired[of r project valid child] by (auto simp: dom_map_of_conv_image_fst[symmetric] split: if_splits)
  have de_set: "(u, t) \<in> set ?desired \<Longrightarrow> t = parent_tuple u child" for u t
    using de map_of_is_SomeI[OF distinct_desired] by metis
  have w1: "stored w1 = {t \<in> stored w. tuple_key t \<notin> tuple_key ` {t \<in> set existing. tk_User t \<notin> fst ` set ?desired}}"
    using applyParentChanges_effect[OF writes stale] computeTupleDifferences_parents(2)[OF ex de_set] by simp
  have valid: "map_of ?desired (parentUser r ref) \<noteq> None \<longleftrightarrow> valid_owner r valid ref" if "ref \<in> set ?refs" for ref
    using that dist by (auto simp: map_of_desired distinct_map inj_on_def)
  have w1_keep: "t \<in> stored w1 \<longleftrightarrow> t \<in> stored w \<and> \<not> (t \<in> set existing \<and> tk_User t \<notin> fst ` set ?desired)" if "tk_Condition t = None" for t
  proof -
    have "tuple_key t = tuple_key s \<longleftrightarrow> t = s" if "s \<in> set existing" for s
      using ex[OF that] \<open>tk_Condition t = None\<close> by (cases t; cases s) (auto simp: tuple_key_def parent_tuple_def)
    then show ?thesis unfolding w1 by blast
  qed
  note eff = sync_loop_effect[OF writes stable ex de dist loop]
  have cond: "tk_Condition (parent_tuple u child) = None" for u by (simp add: parent_tuple_def)
  have start: "parent_tuple (parentUser r ref) child \<in> stored w1 \<longleftrightarrow> parentUser r ref \<in> tk_User ` set existing"
    if "ref \<in> set ?refs" "valid_owner r valid ref" for ref
    using w1_keep[OF cond] ex_users dom that by (auto simp: parent_tuple_def)
  show ?thesis
  proof (intro conjI allI impI)
    fix u
    show "parent_tuple u child \<in> stored w' \<longleftrightarrow> (\<exists>ref \<in> set ?refs. valid_owner r valid ref \<and> parentUser r ref = u \<and>
         (H ref = holdHeld \<or> H ref = holdDeleting \<and> parent_tuple u child \<in> stored w))"
    proof (cases "\<exists>ref \<in> set ?refs. valid_owner r valid ref \<and> parentUser r ref = u")
      case True
      then obtain ref where ref: "ref \<in> set ?refs" "valid_owner r valid ref" "parentUser r ref = u" by blast
      then have uniq: "s \<in> set ?refs \<Longrightarrow> parentUser r s = u \<Longrightarrow> s = ref" for s using dist by (auto simp: distinct_map inj_on_def)
      have "parent_tuple u child \<in> stored w' \<longleftrightarrow> H ref = holdHeld \<or> H ref = holdDeleting \<and> u \<in> tk_User ` set existing"
        using eff ref valid[OF ref(1)] start[OF ref(1,2)] by auto
      with ref uniq ex_users show ?thesis by blast
    next
      case False
      then have "u \<notin> fst ` set ?desired" unfolding dom by blast
      then have "parent_tuple u child \<notin> stored w1" using w1_keep[OF cond] ex_users ex_set by (auto simp: parent_tuple_def)
      moreover have "parent_tuple u child \<notin> (\<lambda>ref. parent_tuple (parentUser r ref) child) ` {ref \<in> set ?refs. map_of ?desired (parentUser r ref) \<noteq> None}"
        using False valid by (auto simp: parent_tuple_def)
      ultimately show ?thesis using eff cond False by blast
    qed
  next
    fix t :: TupleKey assume t: "tk_Condition t = None" "\<not> (tk_Relation t = RelationName \<and> tk_Object t = child)"
    have "t \<notin> (\<lambda>ref. parent_tuple (parentUser r ref) child) ` {ref \<in> set ?refs. map_of ?desired (parentUser r ref) \<noteq> None}"
      using t(2) by (auto simp: parent_tuple_def)
    then have "t \<in> stored w' \<longleftrightarrow> t \<in> stored w1" using eff t(1) by blast
    with w1_keep[OF t(1)] t(2) ex_set show "t \<in> stored w' \<longleftrightarrow> t \<in> stored w" by blast
  qed
qed

section \<open>Evaluations\<close>

definition example_ref :: "string \<Rightarrow> string \<Rightarrow> OwnerReference" where
  "example_ref name uid = \<lparr>owner_APIVersion = ''rm.io'', owner_Kind = ''Org'', owner_Name = name, owner_UID = uid\<rparr>"

definition example_project :: K8sObject where
  "example_project =
     \<lparr>obj_Group = ''rm.io'', obj_Kind = ''Project'', obj_Namespace = [], obj_Name = ''p'', obj_UID = ''7'', obj_Deleting = False,
      obj_Generation = 1, obj_Finalizers = [resourceOwnerHierarchyFinalizer],
      obj_OwnerReferences = [example_ref ''acme'' ''1'', example_ref ''gone'' ''2'']\<rparr>"

definition example_hr :: "mem_world ResourceOwnerHierarchyReconciler" where
  "example_hr =
     \<lparr>hr_GetProject = (\<lambda>_ _ _. Inr example_project), hr_ObjectKinds = (\<lambda>_. Inr [(''rm.io'', ''v1'', ''Project'')]),
      hr_Get = (\<lambda>_ _ name _. if name = ''acme'' then Inr (example_org\<lparr>obj_Deleting := False\<rparr>)
         else Inl (ExternalError (Some 5) True False ''not found'')),
      hr_Update = (\<lambda>obj w. (Inr obj, w)), hr_List = (\<lambda>_. Inr []), hr_FGAClient = mem_client, hr_FGAStoreID = ''s'',
      hr_Finalizers = one_finalizer, hr_Locks = free_locks, hr_validProjectParentGVKs = [(''rm.io'', ''v1'', ''Org'')],
      hr_FromAPIVersionAndKind = (\<lambda>v k. (v, ''v1'', k)), hr_GVKForObject = (\<lambda>obj. Inr (obj_Group obj, obj_Kind obj)), hr_Util = list_util\<rparr>"

text \<open>Organization \<open>acme\<close> is held, \<open>gone\<close> does not exist and \<open>old\<close> is no longer an owner.\<close>

definition project_world :: mem_world where
  "project_world =
     \<lparr>mem_tuples = [grant ''rm.io/Org:gone'' ''parent'' ''rm.io/Project:p'', grant ''rm.io/Org:old'' ''parent'' ''rm.io/Project:p'',
        grant ''u:a'' ''r1'' ''rm.io/Project:p''], mem_models = [], mem_timeouts = 0, mem_model_id = []\<rparr>"

definition example_hold :: "OwnerReference \<Rightarrow> hold" where
  "example_hold ref = (if owner_Name ref = ''acme'' then if owner_UID ref = ''1'' then holdHeld else holdReplaced else holdMissing)"

lemma example_hr_service:
  "paged_reads (hr_FGAClient example_hr) mem_stored mem_listing length" "reads_found (hr_FGAClient example_hr)"
  "atomic_writes (hr_FGAClient example_hr) mem_stored"
  by (simp_all add: example_hr_def mem_paged_reads mem_reads_found mem_atomic_writes)

lemma example_owners_stable: "owners_stable example_hr [] mem_stored example_hold"
  by (auto simp: owners_stable_def ownerHold_def example_hr_def free_locks_def holdTarget_def holdOf_def list_util_def
      example_org_def example_hold_def split: if_splits)

theorem synchronizeFGAHierarchy_exact_witness:
  "\<exists>w'. synchronizeFGAHierarchy example_hr example_project (''rm.io'', ''v1'', ''Project'') ''rm.io'' [(''rm.io'', ''v1'', ''Org'')] project_world =
       Some (Inr False, w') \<and>
     parent_tuple ''rm.io/Org:acme'' ''rm.io/Project:p'' \<in> mem_stored w' \<and>
     parent_tuple ''rm.io/Org:gone'' ''rm.io/Project:p'' \<notin> mem_stored w'"
proof -
  let ?run = "synchronizeFGAHierarchy example_hr example_project (''rm.io'', ''v1'', ''Project'') ''rm.io'' [(''rm.io'', ''v1'', ''Org'')] project_world"
  define w' where "w' = snd (the ?run)"
  have run: "?run = Some (Inr False, w')" unfolding w'_def by code_simp
  have child: "buildChildFGAIdentifierForResource example_project (''rm.io'', ''v1'', ''Project'') ''rm.io'' = ''rm.io/Project:p''" by code_simp
  have plain: "\<forall>t \<in> mem_stored project_world. tk_Condition t = None" "obj_Name example_project \<noteq> []"
    "distinct (map (parentUser example_hr) (obj_OwnerReferences example_project))"
    by (auto simp: mem_stored_def project_world_def grant_def example_project_def example_ref_def example_hr_def parentUser_def
        ObjectName_def gvk_Group_def gvk_Kind_def)
  have ns: "owners_stable example_hr (obj_Namespace example_project) mem_stored example_hold"
    using example_owners_stable by (simp add: example_project_def)
  note exact = synchronizeFGAHierarchy_exact[OF example_hr_service ns plain run, unfolded child]
  have "\<exists>ref \<in> set (obj_OwnerReferences example_project). valid_owner example_hr [(''rm.io'', ''v1'', ''Org'')] ref \<and>
      parentUser example_hr ref = ''rm.io/Org:acme'' \<and> example_hold ref = holdHeld"
    by code_simp
  moreover have "\<not> (\<exists>ref \<in> set (obj_OwnerReferences example_project). parentUser example_hr ref = ''rm.io/Org:gone'' \<and>
      (example_hold ref = holdHeld \<or> example_hold ref = holdDeleting))"
    by code_simp
  ultimately show ?thesis using run exact by blast
qed

end
