(* ===== verification/Hold_Protocol.thy ===== *)
theory Hold_Protocol
  imports Hierarchy
begin

text \<open>
  How the writers of tuples and the finalizers of the objects they name work together.
  \<open>target_hold.go\<close> puts every ``check the hold, then write'' and every ``read again,
  release'' of an object under one lock; here these run as threads against an API server
  that other clients use too. One step of the relation is one call to the API server or
  the authorization service, or one operation on a lock.

  A write of a tuple is the body of \<open>reconcilePolicyLocked\<close> or \<open>syncParent\<close>: it takes
  the lock of the object that guards the tuple, reads that object live, adds the finalizer
  where it is missing, and writes only when the object is held. The guard of a parent
  tuple is the parent, which is its user; the guard of any other tuple is its object. A
  finalizer is \<open>finalizeWhenClear\<close>: it clears without the lock, then takes the lock,
  reads the tuples on the object, then those of each child type that have it as their
  user, and updates the object without the finalizer when it found none. Locks are hashed,
  so that names may share one. An update carries the version that was read and fails when
  the object has changed since.
\<close>

section \<open>Model\<close>

definition guarding :: "TupleKey \<Rightarrow> string" where
  "guarding t = (if tk_Relation t = RelationName then tk_User t else tk_Object t)"

datatype thread =
    Idle
  | Wants TupleKey string
  | Checking TupleKey string
  | Adding TupleKey string K8sObject
  | Writing TupleKey string
  | Clearing string K8sObject
  | Reading string K8sObject "string list option"
  | Unlocking string

text \<open>
  The objects of the kinds the finalizer holds, by their OpenFGA name; the stored tuples
  that such an object guards, each with the UID its writer meant; the locks and the threads.
\<close>

record hold_state =
  hs_objects :: "string \<Rightarrow> K8sObject option"
  hs_grants :: "(TupleKey \<times> string) set"
  hs_locks :: "nat \<Rightarrow> nat option"
  hs_threads :: "nat \<Rightarrow> thread"

definition becomes :: "hold_state \<Rightarrow> nat \<Rightarrow> thread \<Rightarrow> hold_state" where
  "becomes s i p = s\<lparr>hs_threads := (hs_threads s)(i := p)\<rparr>"

definition store_object :: "hold_state \<Rightarrow> string \<Rightarrow> K8sObject \<Rightarrow> hold_state" where
  "store_object s n obj =
     s\<lparr>hs_objects := (hs_objects s)(n := if obj_Deleting obj \<and> obj_Finalizers obj = [] then None else Some obj)\<rparr>"

inductive hold_step :: "FinalizerUtil \<Rightarrow> (string \<Rightarrow> nat) \<Rightarrow> (string \<Rightarrow> string list) \<Rightarrow> hold_state \<Rightarrow> hold_state \<Rightarrow> bool"
  for u :: FinalizerUtil and slot :: "string \<Rightarrow> nat" and children :: "string \<Rightarrow> string list" where
  want: "hs_threads s i = Idle \<Longrightarrow> hold_step u slot children s (becomes s i (Wants t uid))"
| lock_write: "hs_threads s i = Wants t uid \<Longrightarrow> hs_locks s (slot (guarding t)) = None \<Longrightarrow>
    hold_step u slot children s (becomes (s\<lparr>hs_locks := (hs_locks s)(slot (guarding t) := Some i)\<rparr>) i (Checking t uid))"
| check_held: "hs_threads s i = Checking t uid \<Longrightarrow> hs_objects s (guarding t) = Some obj \<Longrightarrow> holdOf u obj uid = holdHeld \<Longrightarrow>
    hold_step u slot children s (becomes s i (Writing t uid))"
| check_not_yet: "hs_threads s i = Checking t uid \<Longrightarrow> hs_objects s (guarding t) = Some obj \<Longrightarrow> holdOf u obj uid = holdNotYet \<Longrightarrow>
    hold_step u slot children s (becomes s i (Adding t uid obj))"
| check_fails: "hs_threads s i = Checking t uid \<Longrightarrow> hold_step u slot children s (becomes s i (Unlocking (guarding t)))"
| add_finalizer: "hs_threads s i = Adding t uid obj \<Longrightarrow> hs_objects s (guarding t) = Some obj \<Longrightarrow>
    holdOf u (AddFinalizer u obj resourceOwnerHierarchyFinalizer) uid = holdHeld \<Longrightarrow>
    hold_step u slot children s (becomes (store_object s (guarding t) (AddFinalizer u obj resourceOwnerHierarchyFinalizer)) i (Writing t uid))"
| add_fails: "hs_threads s i = Adding t uid obj \<Longrightarrow> hold_step u slot children s (becomes s i (Unlocking (guarding t)))"
| write_tuple: "hs_threads s i = Writing t uid \<Longrightarrow> names_object (set (children (guarding t))) (guarding t) t \<Longrightarrow>
    hold_step u slot children s (becomes (s\<lparr>hs_grants := insert (t, uid) (hs_grants s)\<rparr>) i (Unlocking (guarding t)))"
| write_fails: "hs_threads s i = Writing t uid \<Longrightarrow> hold_step u slot children s (becomes s i (Unlocking (guarding t)))"
| unlock: "hs_threads s i = Unlocking n \<Longrightarrow>
    hold_step u slot children s (becomes (s\<lparr>hs_locks := (hs_locks s)(slot n := None)\<rparr>) i Idle)"
| finalize: "hs_threads s i = Idle \<Longrightarrow> obj_Deleting obj \<Longrightarrow> drained u obj \<Longrightarrow> hold_step u slot children s (becomes s i (Clearing n obj))"
| clear_tuples: "hs_threads s i = Clearing n obj \<Longrightarrow> grants \<subseteq> hs_grants s \<Longrightarrow> hold_step u slot children s (s\<lparr>hs_grants := grants\<rparr>)"
| lock_release: "hs_threads s i = Clearing n obj \<Longrightarrow> hs_locks s (slot n) = None \<Longrightarrow>
    hold_step u slot children s (becomes (s\<lparr>hs_locks := (hs_locks s)(slot n := Some i)\<rparr>) i (Reading n obj None))"
| read_own: "hs_threads s i = Reading n obj None \<Longrightarrow> \<forall>(t, uid) \<in> hs_grants s. \<not> object_matches n (tk_Object t) \<Longrightarrow>
    hold_step u slot children s (becomes s i (Reading n obj (Some (children n))))"
| read_child: "hs_threads s i = Reading n obj (Some (c # cs)) \<Longrightarrow>
    \<forall>(t, uid) \<in> hs_grants s. \<not> (tk_User t = n \<and> object_matches (c @ '':'') (tk_Object t)) \<Longrightarrow>
    hold_step u slot children s (becomes s i (Reading n obj (Some cs)))"
| release: "hs_threads s i = Reading n obj (Some []) \<Longrightarrow> hs_objects s n = Some obj \<Longrightarrow>
    obj' = obj\<lparr>obj_Finalizers := removeAll resourceOwnerHierarchyFinalizer (obj_Finalizers obj)\<rparr> \<Longrightarrow>
    hold_step u slot children s (becomes (store_object s n obj') i (Unlocking n))"
| release_fails: "hs_threads s i = Reading n obj todo \<Longrightarrow> hold_step u slot children s (becomes s i (Unlocking n))"
| created: "hs_objects s n = None \<Longrightarrow> \<not> obj_Deleting obj \<Longrightarrow> hold_step u slot children s (store_object s n obj)"
| updated: "hs_objects s n = Some obj \<Longrightarrow> obj_UID obj' = obj_UID obj \<Longrightarrow> obj_Deleting obj \<longrightarrow> obj_Deleting obj' \<Longrightarrow>
    resourceOwnerHierarchyFinalizer \<in> set (obj_Finalizers obj) \<longrightarrow> resourceOwnerHierarchyFinalizer \<in> set (obj_Finalizers obj') \<Longrightarrow>
    hold_step u slot children s (store_object s n obj')"
| revoked: "grants \<subseteq> hs_grants s \<Longrightarrow> hold_step u slot children s (s\<lparr>hs_grants := grants\<rparr>)"

definition hold_start :: "hold_state \<Rightarrow> bool" where
  "hold_start s \<longleftrightarrow> hs_grants s = {} \<and> (\<forall>k. hs_locks s k = None) \<and> (\<forall>i. hs_threads s i = Idle)"

definition hold_reachable :: "FinalizerUtil \<Rightarrow> (string \<Rightarrow> nat) \<Rightarrow> (string \<Rightarrow> string list) \<Rightarrow> hold_state \<Rightarrow> bool" where
  "hold_reachable u slot children s \<longleftrightarrow> (\<exists>s0. hold_start s0 \<and> (hold_step u slot children)\<^sup>*\<^sup>* s0 s)"

text \<open>The documented behaviour of the finalizer helpers.\<close>

definition finalizer_laws :: "FinalizerUtil \<Rightarrow> bool" where
  "finalizer_laws u \<longleftrightarrow> (\<forall>obj f. (ContainsFinalizer u obj f \<longleftrightarrow> f \<in> set (obj_Finalizers obj)) \<and>
     AddFinalizer u obj f = (if f \<in> set (obj_Finalizers obj) then obj else obj\<lparr>obj_Finalizers := obj_Finalizers obj @ [f]\<rparr>))"

section \<open>The invariant\<close>

definition protected :: "hold_state \<Rightarrow> string \<Rightarrow> string \<Rightarrow> bool" where
  "protected s n uid \<longleftrightarrow> (\<exists>obj. hs_objects s n = Some obj \<and> obj_UID obj = uid \<and> resourceOwnerHierarchyFinalizer \<in> set (obj_Finalizers obj))"

definition grants_ok :: "(string \<Rightarrow> string list) \<Rightarrow> hold_state \<Rightarrow> bool" where
  "grants_ok children s \<longleftrightarrow>
     (\<forall>(t, uid) \<in> hs_grants s. protected s (guarding t) uid \<and> names_object (set (children (guarding t))) (guarding t) t)"

text \<open>What has been read and found empty: the own tuples, and those of the child types that are not left to do.\<close>

definition unread :: "(string \<Rightarrow> string list) \<Rightarrow> hold_state \<Rightarrow> string \<Rightarrow> string list \<Rightarrow> bool" where
  "unread children s n todo \<longleftrightarrow> (\<forall>(t, uid) \<in> hs_grants s. guarding t = n \<longrightarrow> \<not> object_matches n (tk_Object t) \<and>
     (tk_User t = n \<longrightarrow> (\<forall>c \<in> set (children n) - set todo. \<not> object_matches (c @ '':'') (tk_Object t))))"

fun thread_ok :: "(string \<Rightarrow> nat) \<Rightarrow> (string \<Rightarrow> string list) \<Rightarrow> hold_state \<Rightarrow> nat \<Rightarrow> thread \<Rightarrow> bool" where
  "thread_ok slot children s i (Checking t uid) \<longleftrightarrow> hs_locks s (slot (guarding t)) = Some i"
| "thread_ok slot children s i (Adding t uid obj) \<longleftrightarrow> hs_locks s (slot (guarding t)) = Some i"
| "thread_ok slot children s i (Writing t uid) \<longleftrightarrow> hs_locks s (slot (guarding t)) = Some i \<and> protected s (guarding t) uid"
| "thread_ok slot children s i (Reading n obj None) \<longleftrightarrow> hs_locks s (slot n) = Some i"
| "thread_ok slot children s i (Reading n obj (Some todo)) \<longleftrightarrow> hs_locks s (slot n) = Some i \<and> unread children s n todo"
| "thread_ok slot children s i (Unlocking n) \<longleftrightarrow> hs_locks s (slot n) = Some i"
| "thread_ok slot children s i p \<longleftrightarrow> True"

definition hold_inv :: "(string \<Rightarrow> nat) \<Rightarrow> (string \<Rightarrow> string list) \<Rightarrow> hold_state \<Rightarrow> bool" where
  "hold_inv slot children s \<longleftrightarrow> grants_ok children s \<and> (\<forall>i. thread_ok slot children s i (hs_threads s i))"

lemma becomes_simps [simp]:
  "hs_objects (becomes s i p) = hs_objects s" "hs_grants (becomes s i p) = hs_grants s" "hs_locks (becomes s i p) = hs_locks s"
  "hs_threads (becomes s i p) = (hs_threads s)(i := p)"
  by (simp_all add: becomes_def)

lemma store_object_simps [simp]:
  "hs_grants (store_object s n obj) = hs_grants s" "hs_locks (store_object s n obj) = hs_locks s" "hs_threads (store_object s n obj) = hs_threads s"
  "hs_objects (store_object s n obj) = (hs_objects s)(n := if obj_Deleting obj \<and> obj_Finalizers obj = [] then None else Some obj)"
  by (simp_all add: store_object_def)

lemma protected_store:
  "protected (store_object s n obj) m uid \<longleftrightarrow>
     (if m = n then obj_UID obj = uid \<and> resourceOwnerHierarchyFinalizer \<in> set (obj_Finalizers obj) else protected s m uid)"
  by (auto simp: protected_def)

lemma protected_cong: "hs_objects s' = hs_objects s \<Longrightarrow> protected s' n uid \<longleftrightarrow> protected s n uid"
  by (simp add: protected_def)

lemma unread_mono: "{g \<in> hs_grants s'. guarding (fst g) = n} \<subseteq> hs_grants s \<Longrightarrow> unread children s n todo \<Longrightarrow> unread children s' n todo"
  unfolding unread_def by fastforce

text \<open>
  A thread stays in order when it keeps its locks, and for the names it has locked no
  grant is added and no protection is lost.
\<close>

lemma thread_ok_frame:
  assumes "thread_ok slot children s j p" and "\<And>k. hs_locks s k = Some j \<Longrightarrow> hs_locks s' k = Some j"
    and "\<And>n uid. hs_locks s (slot n) = Some j \<Longrightarrow> protected s n uid \<Longrightarrow> protected s' n uid"
    and "\<And>n. hs_locks s (slot n) = Some j \<Longrightarrow> {g \<in> hs_grants s'. guarding (fst g) = n} \<subseteq> hs_grants s"
  shows "thread_ok slot children s' j p"
  using assms(1)
proof (cases p)
  case (Reading n obj todo)
  then show ?thesis using assms unread_mono[OF assms(4)] by (cases todo) auto
qed (use assms in auto)

lemma grants_ok_frame:
  assumes "grants_ok children s" and "hs_grants s' \<subseteq> hs_grants s"
    and "\<And>t uid. (t, uid) \<in> hs_grants s' \<Longrightarrow> protected s (guarding t) uid \<Longrightarrow> protected s' (guarding t) uid"
  shows "grants_ok children s'"
  using assms unfolding grants_ok_def by fast

lemma hold_invI:
  assumes "grants_ok children s'" and "thread_ok slot children s' i (hs_threads s' i)" and "\<And>j. j \<noteq> i \<Longrightarrow> thread_ok slot children s' j (hs_threads s' j)"
  shows "hold_inv slot children s'"
  using assms unfolding hold_inv_def by metis

text \<open>Steps that change no object and no lock of another thread, and add no grant.\<close>

lemma hold_inv_quiet:
  assumes inv: "hold_inv slot children s" and "hs_objects s' = hs_objects s" and "hs_grants s' \<subseteq> hs_grants s"
    and "\<And>j. j \<noteq> i \<Longrightarrow> hs_threads s' j = hs_threads s j" and "\<And>j k. j \<noteq> i \<Longrightarrow> hs_locks s k = Some j \<Longrightarrow> hs_locks s' k = Some j"
    and "thread_ok slot children s' i (hs_threads s' i)"
  shows "hold_inv slot children s'"
proof (rule hold_invI[OF _ assms(6)])
  have prot: "protected s' n uid \<longleftrightarrow> protected s n uid" for n uid by (rule protected_cong) (rule assms(2))
  from inv show "grants_ok children s'" unfolding hold_inv_def by (intro grants_ok_frame[OF _ assms(3)]) (simp_all add: prot)
  fix j assume j: "j \<noteq> i"
  from inv have "thread_ok slot children s j (hs_threads s j)" by (simp add: hold_inv_def)
  then show "thread_ok slot children s' j (hs_threads s' j)"
    unfolding assms(4)[OF j] by (rule thread_ok_frame) (use assms(3) assms(5)[OF j] prot in auto)
qed

text \<open>Steps that only change objects, and lose no protection of a grant or of a locked name.\<close>

lemma hold_inv_object:
  assumes inv: "hold_inv slot children s" and "hs_grants s' = hs_grants s" and "hs_locks s' = hs_locks s"
    and "\<And>j. j \<noteq> i \<Longrightarrow> hs_threads s' j = hs_threads s j" and "thread_ok slot children s' i (hs_threads s' i)"
    and grants: "\<And>t uid. (t, uid) \<in> hs_grants s \<Longrightarrow> protected s (guarding t) uid \<Longrightarrow> protected s' (guarding t) uid"
    and locked: "\<And>j n uid. j \<noteq> i \<Longrightarrow> hs_locks s (slot n) = Some j \<Longrightarrow> protected s n uid \<Longrightarrow> protected s' n uid"
  shows "hold_inv slot children s'"
proof (rule hold_invI[OF _ assms(5)])
  from inv have "grants_ok children s" by (simp add: hold_inv_def)
  then show "grants_ok children s'" by (rule grants_ok_frame) (simp_all only: assms(2) grants order_refl)
  fix j assume j: "j \<noteq> i"
  from inv have "thread_ok slot children s j (hs_threads s j)" by (simp add: hold_inv_def)
  then show "thread_ok slot children s' j (hs_threads s' j)"
    unfolding assms(4)[OF j] by (rule thread_ok_frame) (use assms(2,3) locked[OF j] in auto)
qed

text \<open>A change of an object by another client that loses no protection.\<close>

lemma hold_inv_env:
  assumes inv: "hold_inv slot children s" and keep: "\<And>m uid. protected s m uid \<Longrightarrow> protected (store_object s n obj) m uid"
  shows "hold_inv slot children (store_object s n obj)"
proof (rule hold_inv_object[where i = 0, OF inv])
  from inv have "thread_ok slot children s 0 (hs_threads s 0)" by (simp add: hold_inv_def)
  then show "thread_ok slot children (store_object s n obj) 0 (hs_threads (store_object s n obj) 0)"
    unfolding store_object_simps(3) by (rule thread_ok_frame) (auto intro: keep)
qed (simp_all add: keep)

lemma thread_okD: "hold_inv slot children s \<Longrightarrow> hs_threads s i = p \<Longrightarrow> thread_ok slot children s i p"
  unfolding hold_inv_def by metis

lemma holdOf_held_protected:
  assumes "finalizer_laws u" and "holdOf u obj uid = holdHeld"
  shows "obj_UID obj = uid \<and> \<not> obj_Deleting obj \<and> resourceOwnerHierarchyFinalizer \<in> set (obj_Finalizers obj)"
  using assms by (auto simp: holdOf_def finalizer_laws_def split: if_splits)

text \<open>Once every read of a finalizer has come back empty, its object guards nothing.\<close>

lemma unread_all:
  assumes "grants_ok children s" and "unread children s n []" and "(t, uid) \<in> hs_grants s"
  shows "guarding t \<noteq> n"
  using assms unfolding grants_ok_def unread_def names_object_def by fastforce

lemma hold_inv_step:
  assumes laws: "finalizer_laws u"
  shows "hold_step u slot children s s' \<Longrightarrow> hold_inv slot children s \<Longrightarrow> hold_inv slot children s'"
proof (induction rule: hold_step.induct)
  case (want s i t uid)
  then show ?case by (intro hold_inv_quiet[where i = i, OF want(2)]) auto
next
  case (lock_write s i t uid)
  then show ?case by (intro hold_inv_quiet[where i = i, OF lock_write(3)]) auto
next
  case (check_held s i t uid obj)
  from thread_okD[OF check_held(4,1)] holdOf_held_protected[OF laws check_held(3)] check_held show ?case
    by (intro hold_inv_quiet[where i = i, OF check_held(4)]) (auto simp: protected_def)
next
  case (check_not_yet s i t uid obj)
  from thread_okD[OF check_not_yet(4,1)] check_not_yet show ?case by (intro hold_inv_quiet[where i = i, OF check_not_yet(4)]) auto
next
  case (check_fails s i t uid)
  from thread_okD[OF check_fails(2,1)] check_fails show ?case by (intro hold_inv_quiet[where i = i, OF check_fails(2)]) auto
next
  case (add_finalizer s i t uid obj)
  let ?obj = "AddFinalizer u obj resourceOwnerHierarchyFinalizer"
  note held = holdOf_held_protected[OF laws add_finalizer(3)]
  have "obj_UID ?obj = obj_UID obj" using laws by (simp add: finalizer_laws_def)
  then have keep: "protected s n uid' \<Longrightarrow> protected (becomes (store_object s (guarding t) ?obj) i (Writing t uid)) n uid'" for n uid'
    using held add_finalizer(2) by (auto simp: protected_def)
  from thread_okD[OF add_finalizer(4,1)] held show ?case
    by (intro hold_inv_object[where i = i, OF add_finalizer(4)] keep) (auto simp: protected_def)
next
  case (add_fails s i t uid obj)
  from thread_okD[OF add_fails(2,1)] add_fails show ?case by (intro hold_inv_quiet[where i = i, OF add_fails(2)]) auto
next
  case (write_tuple s i t uid)
  let ?s = "becomes (s\<lparr>hs_grants := insert (t, uid) (hs_grants s)\<rparr>) i (Unlocking (guarding t))"
  from thread_okD[OF write_tuple(3,1)] have mine: "hs_locks s (slot (guarding t)) = Some i" "protected s (guarding t) uid" by simp_all
  have prot: "protected ?s n uid' \<longleftrightarrow> protected s n uid'" for n uid' by (rule protected_cong) simp
  show ?case
  proof (rule hold_invI[where i = i])
    show "grants_ok children ?s" using write_tuple(2,3) mine(2) by (auto simp: hold_inv_def grants_ok_def prot)
    show "thread_ok slot children ?s i (hs_threads ?s i)" using mine(1) by simp
    fix j assume j: "j \<noteq> i"
    from write_tuple(3) have "thread_ok slot children s j (hs_threads s j)" by (simp add: hold_inv_def)
    then have "thread_ok slot children ?s j (hs_threads s j)"
      by (rule thread_ok_frame) (use mine(1) j in \<open>auto simp: prot\<close>)
    then show "thread_ok slot children ?s j (hs_threads ?s j)" using j by simp
  qed
next
  case (write_fails s i t uid)
  from thread_okD[OF write_fails(2,1)] write_fails show ?case by (intro hold_inv_quiet[where i = i, OF write_fails(2)]) auto
next
  case (unlock s i n)
  from thread_okD[OF unlock(2,1)] unlock show ?case by (intro hold_inv_quiet[where i = i, OF unlock(2)]) auto
next
  case (finalize s i obj n)
  then show ?case by (intro hold_inv_quiet[where i = i, OF finalize(4)]) auto
next
  case (clear_tuples s i n obj grants)
  then show ?case by (intro hold_inv_quiet[where i = i, OF clear_tuples(3)]) auto
next
  case (lock_release s i n obj)
  then show ?case by (intro hold_inv_quiet[where i = i, OF lock_release(3)]) auto
next
  case (read_own s i n obj)
  from thread_okD[OF read_own(3,1)] read_own show ?case by (intro hold_inv_quiet[where i = i, OF read_own(3)]) (auto simp: unread_def)
next
  case (read_child s i n obj c cs)
  from thread_okD[OF read_child(3,1)] read_child(2) have "unread children (becomes s i (Reading n obj (Some cs))) n cs"
    by (fastforce simp: unread_def)
  with thread_okD[OF read_child(3,1)] read_child(1,3) show ?case by (intro hold_inv_quiet[where i = i, OF read_child(3)]) auto
next
  case (release s i n obj obj')
  from thread_okD[OF release(4,1)] have mine: "hs_locks s (slot n) = Some i" "unread children s n []" by simp_all
  from release(4) have "grants_ok children s" by (simp add: hold_inv_def)
  note none = unread_all[OF this mine(2)]
  have other: "m \<noteq> n \<Longrightarrow> protected (becomes (store_object s n obj') i (Unlocking n)) m uid \<longleftrightarrow> protected s m uid" for m uid
    by (simp add: protected_def)
  show ?case
  proof (rule hold_inv_object[where i = i, OF release(4)])
    show "thread_ok slot children (becomes (store_object s n obj') i (Unlocking n)) i (hs_threads (becomes (store_object s n obj') i (Unlocking n)) i)"
      using mine(1) by simp
    show "protected (becomes (store_object s n obj') i (Unlocking n)) (guarding t) uid"
      if "(t, uid) \<in> hs_grants s" "protected s (guarding t) uid" for t uid using that none other by blast
    show "protected (becomes (store_object s n obj') i (Unlocking n)) m uid"
      if "j \<noteq> i" "hs_locks s (slot m) = Some j" "protected s m uid" for j m uid
    proof -
      have "m \<noteq> n" using that(1,2) mine(1) by auto
      with that(3) other show ?thesis by blast
    qed
  qed simp_all
next
  case (release_fails s i n obj todo)
  have "hs_locks s (slot n) = Some i" using thread_okD[OF release_fails(2,1)] by (cases todo) simp_all
  with release_fails show ?case by (intro hold_inv_quiet[where i = i, OF release_fails(2)]) auto
next
  case (created s n obj)
  have "protected s m uid \<Longrightarrow> protected (store_object s n obj) m uid" for m uid
    using created(1) by (auto simp: protected_store) (simp_all add: protected_def)
  then show ?case by (rule hold_inv_env[OF created(3)])
next
  case (updated s n obj obj')
  have "protected s m uid \<Longrightarrow> protected (store_object s n obj') m uid" for m uid
    using updated(1,2,4) by (auto simp: protected_store) (simp_all add: protected_def)
  then show ?case by (rule hold_inv_env[OF updated(5)])
next
  case (revoked grants s)
  have "thread_ok slot children (s\<lparr>hs_grants := grants\<rparr>) 0 (hs_threads s 0)"
    by (rule thread_ok_frame[of slot children s]) (use revoked in \<open>auto simp: hold_inv_def protected_def\<close>)
  with revoked show ?case by (intro hold_inv_quiet[where i = 0, OF revoked(2)]) auto
qed


lemma hold_inv_start: "hold_start s \<Longrightarrow> hold_inv slot children s"
  by (simp add: hold_start_def hold_inv_def grants_ok_def)

lemma hold_inv_reachable:
  assumes "finalizer_laws u" and "hold_reachable u slot children s"
  shows "hold_inv slot children s"
proof -
  from assms(2) obtain s0 where "hold_start s0" and "(hold_step u slot children)\<^sup>*\<^sup>* s0 s" by (auto simp: hold_reachable_def)
  from this(2,1) show ?thesis
    by (induction rule: rtranclp_induct) (auto intro: hold_inv_start hold_inv_step[OF assms(1)])
qed

text \<open>
  C5. No tuple outlives the object it was written for: however writers, finalizers and
  other clients of the API server interleave, every stored tuple that a held object
  guards was written for the object that now has this name, with its UID, and this object
  carries the finalizer. A new object of a name that is free starts without tuples. (The
  child types of a kind are fixed during a run, writers store only tuples that name the
  guarding object, and other clients leave the finalizer alone.)
\<close>

theorem held_grants_protected:
  assumes "finalizer_laws u" and "hold_reachable u slot children s" and "(t, uid) \<in> hs_grants s"
  shows "\<exists>obj. hs_objects s (guarding t) = Some obj \<and> obj_UID obj = uid \<and> ContainsFinalizer u obj resourceOwnerHierarchyFinalizer"
  using hold_inv_reachable[OF assms(1,2)] assms(1,3) by (fastforce simp: hold_inv_def grants_ok_def protected_def finalizer_laws_def)

section \<open>Evaluations\<close>

lemma list_util_laws: "finalizer_laws list_util"
  by (simp add: finalizer_laws_def list_util_def)

text \<open>A binding on an Organization that lacks the finalizer is written; all names share one lock.\<close>

definition fresh_org :: K8sObject where
  "fresh_org = example_org\<lparr>obj_Deleting := False, obj_Finalizers := []\<rparr>"

definition org_grant :: TupleKey where
  "org_grant = grant ''u:a'' ''r1'' ''rm.io/Org:acme''"

definition run_0 :: hold_state where
  "run_0 = \<lparr>hs_objects = (\<lambda>_. None)(''rm.io/Org:acme'' \<mapsto> fresh_org), hs_grants = {}, hs_locks = (\<lambda>_. None), hs_threads = (\<lambda>_. Idle)\<rparr>"

definition run_1 :: hold_state where "run_1 = becomes run_0 0 (Wants org_grant ''1'')"
definition run_2 :: hold_state where "run_2 = becomes (run_1\<lparr>hs_locks := (hs_locks run_1)(0 := Some 0)\<rparr>) 0 (Checking org_grant ''1'')"
definition run_3 :: hold_state where "run_3 = becomes run_2 0 (Adding org_grant ''1'' fresh_org)"
definition run_4 :: hold_state where
  "run_4 = becomes (store_object run_3 ''rm.io/Org:acme'' (AddFinalizer list_util fresh_org resourceOwnerHierarchyFinalizer)) 0 (Writing org_grant ''1'')"
definition run_5 :: hold_state where
  "run_5 = becomes (run_4\<lparr>hs_grants := insert (org_grant, ''1'') (hs_grants run_4)\<rparr>) 0 (Unlocking ''rm.io/Org:acme'')"

lemma run_reachable: "hold_reachable list_util (\<lambda>_. 0) (\<lambda>_. []) run_5"
proof -
  let ?step = "hold_step list_util (\<lambda>_. 0) (\<lambda>_. [])"
  have org [simp]: "guarding org_grant = ''rm.io/Org:acme''" by (simp add: guarding_def org_grant_def grant_def RelationName_def)
  have "?step run_0 run_1" unfolding run_1_def by (rule hold_step.want) (simp add: run_0_def)
  moreover have "?step run_1 run_2"
    unfolding run_2_def by (rule hold_step.lock_write[where t = org_grant, unfolded org]) (simp_all add: run_1_def run_0_def)
  moreover have "?step run_2 run_3"
    unfolding run_3_def by (rule hold_step.check_not_yet)
      (simp_all add: run_2_def run_1_def run_0_def holdOf_def fresh_org_def example_org_def list_util_def)
  moreover have "?step run_3 run_4"
    unfolding run_4_def by (rule hold_step.add_finalizer[where t = org_grant, unfolded org])
      (simp_all add: run_3_def run_2_def run_1_def run_0_def holdOf_def fresh_org_def example_org_def list_util_def)
  moreover have "?step run_4 run_5"
    unfolding run_5_def by (rule hold_step.write_tuple[where t = org_grant, unfolded org])
      (simp_all add: run_4_def names_object_def org_grant_def grant_def)
  ultimately have "?step\<^sup>*\<^sup>* run_0 run_5" by (meson converse_rtranclp_into_rtranclp r_into_rtranclp)
  moreover have "hold_start run_0" by (simp add: hold_start_def run_0_def)
  ultimately show ?thesis unfolding hold_reachable_def by blast
qed

theorem held_grants_protected_witness:
  "\<exists>obj. hs_objects run_5 (guarding org_grant) = Some obj \<and> obj_UID obj = ''1'' \<and> ContainsFinalizer list_util obj resourceOwnerHierarchyFinalizer"
  by (rule held_grants_protected[OF list_util_laws run_reachable]) (simp add: run_5_def)

end
