(* ===== verification/Model_Facts.thy ===== *)
theory Model_Facts
  imports Model_Builder
begin

text \<open>
  What the authorization model built by \<open>createExpectedAuthorizationModel\<close> contains:
  its list of types, the relations of each type definition, and its independence of the
  order of the registrations.
\<close>

section \<open>Single type definitions\<close>

lemma set_relation_simps [simp]:
  "td_Type (set_relation r u md td) = td_Type td"
  "map_of (td_Relations (set_relation r u md td)) = (map_of (td_Relations td))(r \<mapsto> u)"
  "map_of (md_Relations (td_Metadata (set_relation r u md td))) = (map_of (md_Relations (td_Metadata td)))(r \<mapsto> md)"
  by (simp_all add: set_relation_def update_conv')

lemma empty_type_definition_simps [simp]:
  "td_Type (empty_type_definition t mn) = t"
  "td_Relations (empty_type_definition t mn) = []"
  "md_Relations (td_Metadata (empty_type_definition t mn)) = []"
  by (simp_all add: empty_type_definition_def)

lemma fold_set_relation:
  fixes us :: "string \<Rightarrow> Userset"
  defines "F \<equiv> foldl (\<lambda>td p. set_relation (hashPermission p) (us (hashPermission p)) permission_metadata td)"
  shows "td_Type (F td ps) = td_Type td"
    and "map_of (td_Relations (F td ps)) r =
      (if r \<in> hashPermission ` set ps then Some (us r) else map_of (td_Relations td) r)"
    and "map_of (md_Relations (td_Metadata (F td ps))) r =
      (if r \<in> hashPermission ` set ps then Some permission_metadata else map_of (md_Relations (td_Metadata td)) r)"
  unfolding F_def by (induction ps arbitrary: td) auto

lemma getResourceTypeDefinition_simps:
  "td_Type (getResourceTypeDefinition ps n) = ResourceType n"
  "map_of (td_Relations (getResourceTypeDefinition ps n)) (hashPermission p) =
     (if hashPermission p \<in> hashPermission ` set ps then Some (permission_userset n (hashPermission p)) else None)"
  "map_of (md_Relations (td_Metadata (getResourceTypeDefinition ps n))) (hashPermission p) =
     (if hashPermission p \<in> hashPermission ` set ps then Some permission_metadata else None)"
  by (simp_all add: getResourceTypeDefinition_def Let_def fold_set_relation)

text \<open>All relations of a resource type: its hashed permissions and, with parents, the relation \<open>parent\<close>.\<close>

lemma getResourceTypeDefinition_relations:
  "map_of (td_Relations (getResourceTypeDefinition ps n)) r =
     (if r \<in> hashPermission ` set ps then Some (permission_userset n r)
      else if r = RelationParent \<and> ParentResources n \<noteq> [] then Some (Userset_This None) else None)"
  "map_of (md_Relations (td_Metadata (getResourceTypeDefinition ps n))) r =
     (if r \<in> hashPermission ` set ps then Some permission_metadata
      else if r = RelationParent \<and> ParentResources n \<noteq> []
      then Some \<lparr>rm_DirectlyRelatedUserTypes = getResourceParentRelatedTypes (ParentResources n)\<rparr> else None)"
  by (simp_all add: getResourceTypeDefinition_def Let_def fold_set_relation)

lemma distinct_relations:
  "distinct (map fst (td_Relations td)) \<Longrightarrow> distinct (map fst (td_Relations (set_relation r u md td)))"
  by (simp add: set_relation_def distinct_update)

lemma distinct_fold_relations:
  "distinct (map fst (td_Relations td)) \<Longrightarrow>
   distinct (map fst (td_Relations (foldl (\<lambda>td p. set_relation (f p) (us p) (md p) td) td ps)))"
  by (induction ps arbitrary: td) (simp_all add: distinct_relations)

lemma distinct_type_definition:
  "distinct (map fst (td_Relations (getResourceTypeDefinition ps n)))"
  "distinct (map fst (td_Relations (getRootTypeDefinition ps)))"
  by (simp_all add: getResourceTypeDefinition_def getRootTypeDefinition_def Let_def distinct_fold_relations distinct_relations)

lemma getRootTypeDefinition_simps:
  "td_Type (getRootTypeDefinition ps) = TypeRoot"
  "map_of (td_Relations (getRootTypeDefinition ps)) r =
     (if r \<in> hashPermission ` set ps then Some (Userset_This (Some ())) else None)"
  "map_of (md_Relations (td_Metadata (getRootTypeDefinition ps))) r =
     (if r \<in> hashPermission ` set ps then Some permission_metadata else None)"
  using fold_set_relation[of "\<lambda>_. Userset_This (Some ())" "empty_type_definition TypeRoot Module" ps]
  by (simp_all add: getRootTypeDefinition_def)

section \<open>The map of type definitions\<close>

lemma dom_copy_types: "fst ` set (copy_types m k) = fst ` set m \<union> fst ` set k"
  unfolding copy_types_def by (induction k arbitrary: m) (simp_all add: case_prod_beta dom_update)

lemma distinct_copy_types: "distinct (map fst m) \<Longrightarrow> distinct (map fst (copy_types m k))"
  unfolding copy_types_def by (induction k arbitrary: m) (auto simp: distinct_update)

lemma copy_types_sound: "(t, v) \<in> set (copy_types m k) \<Longrightarrow> distinct (map fst m) \<Longrightarrow> (t, v) \<in> set m \<or> (t, v) \<in> set k"
  unfolding copy_types_def
proof (induction k arbitrary: m)
  case (Cons kv k)
  obtain a b where kv: "kv = (a, b)" by fastforce
  from Cons.prems have "(t, v) \<in> set (AList.update a b m) \<or> (t, v) \<in> set k"
    using Cons.IH[of "AList.update a b m"] by (simp add: kv distinct_update)
  moreover have "(t, v) = (a, b) \<or> (t, v) \<in> set m" if "(t, v) \<in> set (AList.update a b m)"
    using that Cons.prems(2) update_Some_unfold[of a b m t v] by (auto simp: distinct_update)
  ultimately show ?case by (auto simp: kv)
qed simp

lemma dom_fold_copy_types: "fst ` set (foldl copy_types m ks) = fst ` set m \<union> (\<Union>k \<in> set ks. fst ` set k)"
  by (induction ks arbitrary: m) (auto simp: dom_copy_types)

lemma distinct_fold_copy_types: "distinct (map fst m) \<Longrightarrow> distinct (map fst (foldl copy_types m ks))"
  by (induction ks arbitrary: m) (auto simp: distinct_copy_types)

lemma fold_copy_types_sound:
  "(t, v) \<in> set (foldl copy_types m ks) \<Longrightarrow> distinct (map fst m) \<Longrightarrow> (t, v) \<in> set m \<or> (\<exists>k \<in> set ks. (t, v) \<in> set k)"
proof (induction ks arbitrary: m)
  case (Cons k ks)
  then show ?case using copy_types_sound[of t v m k] Cons.IH[of "copy_types m k"] by (auto simp: distinct_copy_types)
qed simp

abbreviation "type_map \<equiv> getResourceTypeDefinitionsWithHierarchicalPermissions"

lemma distinct_type_map: "distinct (map fst (type_map hp n))"
  by (cases n) (auto simp: Let_def intro: distinct_fold_copy_types)

lemma dom_type_map: "fst ` set (type_map hp n) = ResourceType ` set (nodes n) - {TypeRoot}"
proof (induction hp n rule: getResourceTypeDefinitionsWithHierarchicalPermissions.induct)
  case (1 hp t direct parents children)
  then have "(\<Union>c \<in> set children. fst ` set (type_map hp c)) = (\<Union>c \<in> set children. ResourceType ` set (nodes c)) - {TypeRoot}"
    by auto
  then show ?case by (auto simp: Let_def dom_fold_copy_types)
qed

lemma type_map_sound:
  "(t, td) \<in> set (type_map hp n) \<Longrightarrow>
   \<exists>k \<in> set (nodes n). ResourceType k = t \<and>
     td = getResourceTypeDefinition (case map_of hp t of None \<Rightarrow> [] | Some ps \<Rightarrow> ps) k"
proof (induction hp n arbitrary: t td rule: getResourceTypeDefinitionsWithHierarchicalPermissions.induct)
  case (1 hp u direct parents children)
  from fold_copy_types_sound[OF "1.prems"[unfolded getResourceTypeDefinitionsWithHierarchicalPermissions.simps Let_def]]
  consider "u \<noteq> TypeRoot" "t = u" "td = getResourceTypeDefinition (case map_of hp u of None \<Rightarrow> [] | Some ps \<Rightarrow> ps)
        (ResourceGraphNode u direct parents children)"
    | c where "c \<in> set children" "(t, td) \<in> set (type_map hp c)"
    by (cases "u = TypeRoot") auto
  then show ?case
  proof cases
    case 2
    with "1.IH" show ?thesis by fastforce
  qed simp
qed

lemma map_sorted_type_map:
  "sort (map fst (type_map hp n)) = sorted_list_of_set (ResourceType ` set (nodes n) - {TypeRoot})"
  by (rule sorted_distinct_set_unique) (simp_all add: distinct_type_map dom_type_map[of hp, symmetric])


section \<open>The whole model\<close>

lemma distinct_calculate:
  "distinct (map fst m) \<Longrightarrow> distinct (map fst (snd (calculatePermissionsForNode n m)))"
  "distinct (map fst m) \<Longrightarrow> distinct (map fst (snd (calculatePermissionsForChildren ns m)))"
proof (induction n m and ns m rule: calculatePermissionsForNode_calculatePermissionsForChildren.induct)
  case (3 child children m)
  then show ?case by (simp add: case_prod_beta) (metis prod.collapse)
qed (auto simp: Let_def case_prod_beta distinct_update split: option.splits)

lemma distinct_hierarchical: "distinct (map fst (calculateHierarchicalPermissions g))"
  by (simp add: calculateHierarchicalPermissions_def distinct_calculate)

lemma set_sort_protected_resources [simp]: "set (sort_protected_resources prs) = set prs"
  by (simp add: sort_protected_resources_def)

lemma sort_protected_resources_Nil [simp]: "sort_protected_resources prs = [] \<longleftrightarrow> prs = []"
  by (metis set_empty set_sort_protected_resources)

lemma hierarchy_set_cong:
  "set prs = set prs' \<Longrightarrow> reachable_types prs = reachable_types prs'"
  by (simp add: reachable_types_def child_rel_def parentless_def)

text \<open>The permissions the model offers on a type.\<close>

definition model_permissions :: "ProtectedResource list \<Rightarrow> bool \<Rightarrow> string \<Rightarrow> string set" where
  "model_permissions prs en t =
     (let reg = registered (sort_protected_resources prs)
      in if t = TypeRoot then \<Union>u \<in> reachable_types prs - {TypeRoot}. permissions_of reg en u
         else \<Union>u \<in> (child_rel prs)\<^sup>* `` {t}. permissions_of reg en u)"

lemma createExpectedAuthorizationModel_graph:
  assumes "createExpectedAuthorizationModel en prs = Inr m" and "prs \<noteq> []"
  obtains g where "getResourceGraph (sort_protected_resources prs) en = Inr g"
    and "am_TypeDefinitions m = [getUserTypeDefinition, getUserGroupTypeDefinition] @
      map (\<lambda>t. the (map_of (type_map (calculateHierarchicalPermissions g) g) t)) (sorted_list_of_set (reachable_types prs - {TypeRoot})) @
      [getRootTypeDefinition (sort (remdups (concat (map snd (calculateHierarchicalPermissions g)))))]"
proof -
  from assms obtain g where g: "getResourceGraph (sort_protected_resources prs) en = Inr g"
    by (auto simp: createExpectedAuthorizationModel_def go_calls)
  have "ResourceType ` set (nodes g) - {TypeRoot} = reachable_types prs - {TypeRoot}"
    using graph_types[OF g] hierarchy_set_cong[of "sort_protected_resources prs" prs] by auto
  then have "sort (map fst (type_map (calculateHierarchicalPermissions g) g)) = sorted_list_of_set (reachable_types prs - {TypeRoot})"
    by (simp add: map_sorted_type_map)
  with assms g show thesis by (intro that[OF g]) (auto simp: createExpectedAuthorizationModel_def Let_def)
qed

lemma finite_reachable: "finite (reachable_types prs)"
proof -
  have "reachable_types prs \<subseteq> dom (registered prs)"
    unfolding reachable_types_def using parentless_registered child_registered by (metis ImageE rtranclE subsetI)
  then show ?thesis by (rule finite_subset) (simp add: registered_def finite_dom_map_of)
qed

lemma type_map_type:
  assumes "t \<in> fst ` set (type_map hp n)"
  shows "td_Type (the (map_of (type_map hp n) t)) = t"
proof -
  from assms obtain td where "map_of (type_map hp n) t = Some td"
    by (metis map_of_eq_None_iff not_Some_eq)
  moreover from type_map_sound[OF map_of_SomeD[OF this]] have "td_Type td = t"
    by (auto simp: getResourceTypeDefinition_simps)
  ultimately show ?thesis by simp
qed

lemma created_types:
  assumes "createExpectedAuthorizationModel en prs = Inr m" and "prs \<noteq> []"
  shows "map td_Type (am_TypeDefinitions m) =
    [TypeInternalUser, TypeInternalUserGroup] @ sorted_list_of_set (reachable_types prs - {TypeRoot}) @ [TypeRoot]"
proof -
  from assms obtain g where g: "getResourceGraph (sort_protected_resources prs) en = Inr g"
    and m: "am_TypeDefinitions m = [getUserTypeDefinition, getUserGroupTypeDefinition] @
      map (\<lambda>t. the (map_of (type_map (calculateHierarchicalPermissions g) g) t)) (sorted_list_of_set (reachable_types prs - {TypeRoot})) @
      [getRootTypeDefinition (sort (remdups (concat (map snd (calculateHierarchicalPermissions g)))))]"
    by (rule createExpectedAuthorizationModel_graph)
  have "reachable_types prs - {TypeRoot} = fst ` set (type_map (calculateHierarchicalPermissions g) g)"
    using graph_types[OF g] hierarchy_set_cong[of "sort_protected_resources prs" prs] by (auto simp: dom_type_map)
  then have "td_Type (the (map_of (type_map (calculateHierarchicalPermissions g) g) t)) = t"
    if "t \<in> reachable_types prs - {TypeRoot}" for t
    using that type_map_type by blast
  then have "map (\<lambda>t. td_Type (the (map_of (type_map (calculateHierarchicalPermissions g) g) t)))
      (sorted_list_of_set (reachable_types prs - {TypeRoot})) = sorted_list_of_set (reachable_types prs - {TypeRoot})"
    by (intro map_idI) (simp add: finite_reachable)
  then show ?thesis
    by (simp add: m getUserTypeDefinition_def getUserGroupTypeDefinition_def getRootTypeDefinition_simps comp_def)
qed

text \<open>
  The model lists the two subject types, then every type reachable from a
  parentless registration, once and in order, then the Root type; nothing else.
\<close>

theorem createExpectedAuthorizationModel_types:
  assumes "createExpectedAuthorizationModel en prs = Inr m" and "prs \<noteq> []"
  shows "map td_Type (am_TypeDefinitions m) =
    [TypeInternalUser, TypeInternalUserGroup] @ sorted_list_of_set (reachable_types prs - {TypeRoot}) @ [TypeRoot]"
  using assms by (rule created_types)


text \<open>Whether a type's permissions are also inherited from the objects named by its \<open>parent\<close> relation.\<close>

definition has_parents :: "ProtectedResource list \<Rightarrow> string \<Rightarrow> bool" where
  "has_parents prs t \<longleftrightarrow> t \<noteq> TypeRoot \<and>
     (case registered (sort_protected_resources prs) t of None \<Rightarrow> False | Some spec \<Rightarrow> fqParentResources spec \<noteq> [])"

lemma child_rel_set_cong: "set prs = set prs' \<Longrightarrow> child_rel prs = child_rel prs'"
  by (simp add: child_rel_def)

lemma graph_node_parents:
  assumes "getResourceGraph prs en = Inr g" and "n \<in> set (nodes g)" and "ResourceType n \<noteq> TypeRoot"
  shows "\<exists>spec. registered prs (ResourceType n) = Some spec \<and> ParentResources n = sort (fqParentResources spec)"
proof -
  from assms(1) obtain ns where g: "g = ResourceGraphNode TypeRoot [] [] ns" by (rule getResourceGraph_describes)
  with assms(2,3) obtain k where "k \<in> set (ChildResources g)" "n \<in> set (nodes k)" by auto
  then show ?thesis using graph_nodes[OF assms(1)] by blast
qed

lemma hierarchical_all_permissions:
  assumes "getResourceGraph prs en = Inr g"
  shows "set (concat (map snd (calculateHierarchicalPermissions g))) =
    (\<Union>u \<in> reachable_types prs - {TypeRoot}. permissions_of (registered prs) en u)"
  (is "?l = ?r")
proof
  let ?hp = "calculateHierarchicalPermissions g"
  have fin: "finite (inherited (registered prs) (child_rel prs) en t)" if "t \<in> reachable_types prs" for t
  proof -
    have "(child_rel prs)\<^sup>* `` {t} \<subseteq> reachable_types prs"
      using that by (auto simp: reachable_types_def intro: rtrancl_trans)
    then have "finite ((child_rel prs)\<^sup>* `` {t})" by (rule finite_subset) (rule finite_reachable)
    then show ?thesis by (simp add: inherited_def)
  qed
  show "?l \<subseteq> ?r"
  proof
    fix p assume "p \<in> ?l"
    then obtain t ps where tp: "(t, ps) \<in> set ?hp" "p \<in> set ps" by auto
    have "distinct (map fst ?hp)" by (rule distinct_hierarchical)
    with tp(1) have "map_of ?hp t = Some ps" by simp
    then have t: "t \<in> reachable_types prs - {TypeRoot}"
      and "ps = sorted_list_of_set (inherited (registered prs) (child_rel prs) en t)"
      using hierarchical_map_of[OF assms, of t] by (auto split: if_splits)
    with tp(2) fin obtain u where u: "(t, u) \<in> (child_rel prs)\<^sup>*" "p \<in> permissions_of (registered prs) en u"
      by (auto simp: inherited_def)
    from t obtain r where r: "r \<in> parentless prs" "(r, t) \<in> (child_rel prs)\<^sup>*" by (auto simp: reachable_types_def)
    then have "(t, TypeRoot) \<notin> (child_rel prs)\<^sup>*"
      using root_above_parentless[OF assms r(1)] t by (auto simp: root_above_def)
    with u(1) have "u \<noteq> TypeRoot" by auto
    moreover have "u \<in> reachable_types prs" using r u(1) by (auto simp: reachable_types_def intro: rtrancl_trans)
    ultimately show "p \<in> ?r" using u(2) by blast
  qed
  show "?r \<subseteq> ?l"
  proof
    fix p assume "p \<in> ?r"
    then obtain u where u: "u \<in> reachable_types prs - {TypeRoot}" "p \<in> permissions_of (registered prs) en u" by blast
    then have "p \<in> set (sorted_list_of_set (inherited (registered prs) (child_rel prs) en u))"
      using fin by (auto simp: inherited_def)
    moreover have "(u, sorted_list_of_set (inherited (registered prs) (child_rel prs) en u)) \<in> set ?hp"
      using hierarchical_map_of[OF assms, of u] u(1) by (intro map_of_SomeD) simp
    ultimately show "p \<in> ?l" by force
  qed
qed


lemma resource_type_relations:
  assumes g: "getResourceGraph (sort_protected_resources prs) en = Inr g"
    and t: "t \<in> reachable_types prs - {TypeRoot}"
    and td: "td = the (map_of (type_map (calculateHierarchicalPermissions g) g) t)"
  obtains n where "td = getResourceTypeDefinition (sorted_list_of_set (model_permissions prs en t)) n"
    and "ResourceType n = t" and "ParentResources n \<noteq> [] \<longleftrightarrow> has_parents prs t"
    and "\<exists>spec. registered (sort_protected_resources prs) t = Some spec \<and> ParentResources n = sort (fqParentResources spec)"
proof -
  let ?prs = "sort_protected_resources prs" and ?hp = "calculateHierarchicalPermissions g"
  have cong: "reachable_types ?prs = reachable_types prs" "child_rel ?prs = child_rel prs"
    by (simp_all add: hierarchy_set_cong[of ?prs prs] child_rel_set_cong[of ?prs prs])
  have "t \<in> fst ` set (type_map ?hp g)" using t graph_types[OF g] by (auto simp: dom_type_map cong)
  with td have "(t, td) \<in> set (type_map ?hp g)" by (metis map_of_SomeD map_of_eq_None_iff option.collapse)
  then obtain n where n: "n \<in> set (nodes g)" "ResourceType n = t"
      "td = getResourceTypeDefinition (case map_of ?hp t of None \<Rightarrow> [] | Some ps \<Rightarrow> ps) n"
    using type_map_sound by blast
  moreover have "map_of ?hp t = Some (sorted_list_of_set (model_permissions prs en t))"
    using hierarchical_map_of[OF g, of t] t by (simp add: cong model_permissions_def inherited_def)
  moreover from n t obtain spec where spec: "registered ?prs t = Some spec" "ParentResources n = sort (fqParentResources spec)"
    using graph_node_parents[OF g, of n] by auto
  then have "ParentResources n \<noteq> [] \<longleftrightarrow> has_parents prs t"
    using t by (simp add: has_parents_def flip: set_empty)
  ultimately show thesis using that[of n] spec by simp
qed

lemma finite_model_permissions: "t \<in> reachable_types prs \<Longrightarrow> finite (model_permissions prs en t)"
proof -
  assume "t \<in> reachable_types prs"
  then have "(child_rel prs)\<^sup>* `` {t} \<subseteq> reachable_types prs"
    by (auto simp: reachable_types_def intro: rtrancl_trans)
  then have "finite ((child_rel prs)\<^sup>* `` {t})" by (rule finite_subset) (rule finite_reachable)
  then show ?thesis using finite_reachable[of prs] by (simp add: model_permissions_def Let_def)
qed

lemma created_relations:
  assumes "createExpectedAuthorizationModel en prs = Inr m" and "prs \<noteq> []"
    and "td \<in> set (am_TypeDefinitions m)" and "td_Type td \<notin> {TypeInternalUser, TypeInternalUserGroup}"
  shows "map_of (td_Relations td) (hashPermission p) =
      (if hashPermission p \<in> hashPermission ` model_permissions prs en (td_Type td)
       then Some (if has_parents prs (td_Type td)
                  then Userset_Union [Userset_This (Some ()), Userset_TupleToUserset RelationParent (hashPermission p)]
                  else Userset_This (Some ()))
       else None) \<and>
    map_of (md_Relations (td_Metadata td)) (hashPermission p) =
      (if hashPermission p \<in> hashPermission ` model_permissions prs en (td_Type td)
       then Some permission_metadata else None)"
proof -
  let ?prs = "sort_protected_resources prs"
  from assms(1,2) obtain g where g: "getResourceGraph ?prs en = Inr g"
    and m: "am_TypeDefinitions m = [getUserTypeDefinition, getUserGroupTypeDefinition] @
      map (\<lambda>t. the (map_of (type_map (calculateHierarchicalPermissions g) g) t)) (sorted_list_of_set (reachable_types prs - {TypeRoot})) @
      [getRootTypeDefinition (sort (remdups (concat (map snd (calculateHierarchicalPermissions g)))))]"
    by (rule createExpectedAuthorizationModel_graph)
  from assms(3,4) consider
      (root) "td = getRootTypeDefinition (sort (remdups (concat (map snd (calculateHierarchicalPermissions g)))))"
    | (resource) t where "t \<in> reachable_types prs - {TypeRoot}"
        "td = the (map_of (type_map (calculateHierarchicalPermissions g) g) t)"
    by (auto simp: m getUserTypeDefinition_def getUserGroupTypeDefinition_def finite_reachable)
  then show ?thesis
  proof cases
    case root
    have "model_permissions prs en TypeRoot = set (concat (map snd (calculateHierarchicalPermissions g)))"
      using hierarchical_all_permissions[OF g] by (simp add: model_permissions_def Let_def hierarchy_set_cong[of ?prs prs])
    then show ?thesis by (simp add: root getRootTypeDefinition_simps has_parents_def)
  next
    case resource
    with g obtain n where "td = getResourceTypeDefinition (sorted_list_of_set (model_permissions prs en t)) n"
      and "ResourceType n = t" and "ParentResources n \<noteq> [] \<longleftrightarrow> has_parents prs t"
      by (rule resource_type_relations)
    with resource(1) show ?thesis
      by (auto simp: getResourceTypeDefinition_simps permission_userset_def finite_model_permissions)
  qed
qed

text \<open>
  C14. On every resource type of the model, and on the Root type, exactly the
  permissions of the type and of everything below it (on Root: of every type) are
  relations. Each can be granted to a user or to the members of a group, and on a type
  with declared parents it also follows from the same relation on the parent object.
\<close>

theorem createExpectedAuthorizationModel_relations:
  assumes "createExpectedAuthorizationModel en prs = Inr m" and "prs \<noteq> []"
    and "td \<in> set (am_TypeDefinitions m)" and "td_Type td \<notin> {TypeInternalUser, TypeInternalUserGroup}"
  shows "map_of (td_Relations td) (hashPermission p) =
      (if hashPermission p \<in> hashPermission ` model_permissions prs en (td_Type td)
       then Some (if has_parents prs (td_Type td)
                  then Userset_Union [Userset_This (Some ()), Userset_TupleToUserset RelationParent (hashPermission p)]
                  else Userset_This (Some ()))
       else None) \<and>
    map_of (md_Relations (td_Metadata td)) (hashPermission p) =
      (if hashPermission p \<in> hashPermission ` model_permissions prs en (td_Type td)
       then Some permission_metadata else None)"
  using created_relations[OF assms] .


lemma sort_protected_resources_perm:
  assumes "mset prs = mset prs'" and "distinct (map pr_Name prs)"
  shows "sort_protected_resources prs = sort_protected_resources prs'"
  unfolding sort_protected_resources_def
proof (rule properties_for_sort_key)
  show "mset (sort_key (\<lambda>pr. (fqType (pr_Spec pr), pr_Name pr)) prs') = mset prs" using assms(1) by simp
next
  fix k assume "k \<in> set (sort_key (\<lambda>pr. (fqType (pr_Spec pr), pr_Name pr)) prs')"
  then have "k \<in> set prs" using assms(1) by (metis mset_sort set_mset_mset)
  have inj: "inj_on pr_Name (set prs)" using assms(2) by (simp add: distinct_map)
  let ?f = "\<lambda>pr. (fqType (pr_Spec pr), pr_Name pr)"
  have same: "filter (\<lambda>x. ?f k = ?f x) xs = filter ((=) k) xs" if "set xs = set prs" for xs
    using that inj \<open>k \<in> set prs\<close> by (intro filter_cong) (auto dest: inj_onD)
  have "filter ((=) k) (sort_key ?f prs') = filter ((=) k) prs"
  proof -
    have "filter ((=) k) xs = replicate (count (mset xs) k) k" for xs by (induction xs) auto
    then show ?thesis using assms(1) by simp
  qed
  moreover have "set (sort_key ?f prs') = set prs" using assms(1) by (metis mset_sort set_mset_mset)
  ultimately show "filter (\<lambda>x. ?f k = ?f x) (sort_key ?f prs') = filter (\<lambda>x. ?f k = ?f x) prs"
    using same[of prs] same[of "sort_key ?f prs'"] by simp
qed simp

text \<open>
  The expected model does not depend on the order in which the API server lists
  the registrations: two listings of the same objects, whose names are distinct, give
  the same model or fail with the same error.
\<close>

theorem createExpectedAuthorizationModel_order:
  assumes "mset prs = mset prs'" and "distinct (map pr_Name prs)"
  shows "createExpectedAuthorizationModel en prs = createExpectedAuthorizationModel en prs'"
proof -
  have "prs = [] \<longleftrightarrow> prs' = []" using assms(1) by auto
  then show ?thesis using sort_protected_resources_perm[OF assms] by (simp add: createExpectedAuthorizationModel_def)
qed

section \<open>An example\<close>

definition example_model :: AuthorizationModel where
  "example_model = projr (createExpectedAuthorizationModel False example_prs)"

lemma example_sorted_graph: "getResourceGraph (sort_protected_resources example_prs) False = Inr example_graph"
  by code_simp

lemma example_prs_nonempty: "example_prs \<noteq> []"
  by (simp add: example_prs_def)

lemma example_model_ok: "createExpectedAuthorizationModel False example_prs = Inr example_model"
  by (simp add: example_model_def createExpectedAuthorizationModel_def example_sorted_graph example_prs_nonempty Let_def)

lemma example_reachable: "reachable_types example_prs - {TypeRoot} = set [''c.io/VM'', ''rm.io/Org'', ''rm.io/Project'']"
proof -
  have "insert TypeRoot (reachable_types example_prs) = {TypeRoot, ''rm.io/Org'', ''rm.io/Project'', ''c.io/VM''}"
    unfolding graph_types[OF example_graph_ok, symmetric] by code_simp
  then have "reachable_types example_prs - {TypeRoot} = {TypeRoot, ''rm.io/Org'', ''rm.io/Project'', ''c.io/VM''} - {TypeRoot}"
    by auto
  then show ?thesis by (auto simp: TypeRoot_def)
qed

lemma example_permissions:
  assumes "map_of (calculateHierarchicalPermissions example_graph) t = Some ps"
  shows "t \<in> reachable_types example_prs - {TypeRoot}" and "model_permissions example_prs False t = set ps"
proof -
  let ?prs = "sort_protected_resources example_prs"
  have t: "t \<in> reachable_types ?prs - {TypeRoot}"
    and ps: "ps = sorted_list_of_set (inherited (registered ?prs) (child_rel ?prs) False t)"
    using hierarchical_map_of[OF example_sorted_graph, of t] assms by (auto split: if_splits)
  then show reach: "t \<in> reachable_types example_prs - {TypeRoot}" using hierarchy_set_cong[of ?prs example_prs] by simp
  then have "inherited (registered ?prs) (child_rel ?prs) False t = model_permissions example_prs False t"
    by (simp add: inherited_def model_permissions_def child_rel_set_cong[of ?prs example_prs])
  with ps reach finite_model_permissions[of t example_prs False] show "model_permissions example_prs False t = set ps" by simp
qed

theorem createExpectedAuthorizationModel_types_witness:
  "createExpectedAuthorizationModel False example_prs = Inr example_model \<and>
   map td_Type (am_TypeDefinitions example_model) =
     [TypeInternalUser, TypeInternalUserGroup, ''c.io/VM'', ''rm.io/Org'', ''rm.io/Project'', TypeRoot]"
proof -
  have "sorted_list_of_set (reachable_types example_prs - {TypeRoot}) = [''c.io/VM'', ''rm.io/Org'', ''rm.io/Project'']"
    unfolding example_reachable by code_simp
  then show ?thesis
    using createExpectedAuthorizationModel_types[OF example_model_ok example_prs_nonempty] example_model_ok by simp
qed

text \<open>In the example, listing virtual machines can be granted on an organization.\<close>

theorem createExpectedAuthorizationModel_relations_witness:
  "\<exists>td \<in> set (am_TypeDefinitions example_model). td_Type td = ''rm.io/Org'' \<and>
     map_of (td_Relations td) (hashPermission ''c.io/vms.list'') = Some (Userset_This (Some ()))"
proof -
  have "''rm.io/Org'' \<in> set (map td_Type (am_TypeDefinitions example_model))"
    unfolding created_types[OF example_model_ok example_prs_nonempty] using example_reachable finite_reachable[of example_prs]
    by simp
  then obtain td where td: "td \<in> set (am_TypeDefinitions example_model)" "td_Type td = ''rm.io/Org''" by auto
  have users: "td_Type td \<notin> {TypeInternalUser, TypeInternalUserGroup}" unfolding td(2) by code_simp
  have "map_of (calculateHierarchicalPermissions example_graph) ''rm.io/Org'' =
      Some [''c.io/vms.list'', ''rm.io/orgs.get'', ''rm.io/projects.get'']" by code_simp
  from example_permissions(2)[OF this] have "''c.io/vms.list'' \<in> model_permissions example_prs False ''rm.io/Org''" by simp
  moreover have "\<not> has_parents example_prs ''rm.io/Org''" by code_simp
  ultimately show ?thesis
    using createExpectedAuthorizationModel_relations[OF example_model_ok example_prs_nonempty td(1) users, of "''c.io/vms.list''"] td
    by auto
qed

theorem calculateHierarchicalPermissions_inherited_witness:
  "getResourceGraph example_prs False = Inr example_graph \<and>
   (if ''rm.io/Org'' \<in> reachable_types example_prs - {TypeRoot}
    then Some (sorted_list_of_set (\<Union>u \<in> (child_rel example_prs)\<^sup>* `` {''rm.io/Org''}.
           permissions_of (registered example_prs) False u)) else None) =
   Some [''c.io/vms.list'', ''rm.io/orgs.get'', ''rm.io/projects.get'']"
proof -
  have "map_of (calculateHierarchicalPermissions example_graph) ''rm.io/Org'' =
      Some [''c.io/vms.list'', ''rm.io/orgs.get'', ''rm.io/projects.get'']" by code_simp
  then show ?thesis
    using calculateHierarchicalPermissions_inherited[OF example_graph_ok, of "''rm.io/Org''"] example_graph_ok by simp
qed

theorem createExpectedAuthorizationModel_order_witness:
  "rev example_prs \<noteq> example_prs \<and>
   createExpectedAuthorizationModel False (rev example_prs) = createExpectedAuthorizationModel False example_prs"
proof -
  have "distinct (map pr_Name (rev example_prs))" "rev example_prs \<noteq> example_prs" by code_simp+
  then show ?thesis using createExpectedAuthorizationModel_order[of "rev example_prs" example_prs False] by simp
qed

end
