(* ===== verification/Model_Reconciler.thy ===== *)
theory Model_Reconciler
  imports Model_Facts Memory_Store
begin

text \<open>
  The effectful part of \<open>internal/openfga/authorization_model_reconciler.go\<close>:
  merging the expected model into the stored one, writing it when it changed, and
  publishing its ID in a ConfigMap. The model comparison (\<open>cmp.Equal\<close> with
  \<open>protocmp\<close>) and \<open>controllerutil.CreateOrUpdate\<close> are library code and
  parameters here.
\<close>

section \<open>Model\<close>

definition AuthorizationModelIDKey :: string where "AuthorizationModelIDKey = ''model-id''"
definition AuthorizationModelConfigMapName :: string where "AuthorizationModelConfigMapName = ''openfga-authorization-model''"

text \<open>\<open>CreateOrUpdate\<close> of a ConfigMap: namespace, name, and the mutation of its data.\<close>

type_synonym config_data = "(string \<times> string) list"

record 'w AuthorizationModelReconciler =
  amr_EnableSubresourceAuthorization :: bool
  amr_StoreID :: string
  amr_OpenFGA :: "'w OpenFGAServiceClient"
  amr_K8sClient :: "(string \<Rightarrow> string \<Rightarrow> (config_data \<Rightarrow> config_data) \<Rightarrow> 'w \<Rightarrow> (unit, 'w) call) option"
  amr_Namespace :: string
  amr_ConfigMapName :: string
  amr_cmp_Equal :: "AuthorizationModel \<Rightarrow> AuthorizationModel \<Rightarrow> bool"

text \<open>\<open>cmp.Equal\<close> with the comparison options is the parameter \<open>amr_cmp_Equal\<close>; a nil model is \<open>None\<close>.\<close>

definition authorizationModelsEqual ::
    "(AuthorizationModel \<Rightarrow> AuthorizationModel \<Rightarrow> bool) \<Rightarrow> AuthorizationModel option \<Rightarrow> AuthorizationModel option \<Rightarrow> bool" where
  "authorizationModelsEqual cmp_Equal current merged =
     (case (current, merged) of
        (None, None) \<Rightarrow> True
      | (Some c, Some m) \<Rightarrow> cmp_Equal c m
      | _ \<Rightarrow> False)"

definition empty_model :: AuthorizationModel where
  "empty_model = \<lparr>am_Id = [], am_SchemaVersion = [], am_TypeDefinitions = [], am_Conditions = []\<rparr>"

definition getCurrentAuthorizationModel :: "('w, 'z) AuthorizationModelReconciler_scheme \<Rightarrow> 'w \<Rightarrow> AuthorizationModel result" where
  "getCurrentAuthorizationModel r w =
     try_pure (latestAuthorizationModel (amr_OpenFGA r) (amr_StoreID r) w) (\<lambda>e. e)
       (\<lambda>model. Inr (case model of None \<Rightarrow> empty_model | Some m \<Rightarrow> m))"

definition writeModelIDToConfigMap ::
    "('w, 'z) AuthorizationModelReconciler_scheme \<Rightarrow>
     (string \<Rightarrow> string \<Rightarrow> (config_data \<Rightarrow> config_data) \<Rightarrow> 'w \<Rightarrow> (unit, 'w) call) \<Rightarrow> string \<Rightarrow> 'w \<Rightarrow> (unit, 'w) call" where
  "writeModelIDToConfigMap r CreateOrUpdate modelID w =
     try_call (CreateOrUpdate (amr_Namespace r) (amr_ConfigMapName r) (AList.update AuthorizationModelIDKey modelID) w)
       (WrapError ''failed to create/update authorization model ConfigMap'') (\<lambda>_ w. (Inr (), w))"

text \<open>The guarded call of it that both branches of the reconciler make.\<close>

definition publish_model_id :: "('w, 'z) AuthorizationModelReconciler_scheme \<Rightarrow> string \<Rightarrow> 'w \<Rightarrow> (unit, 'w) call" where
  "publish_model_id r modelID w =
     (case amr_K8sClient r of
        None \<Rightarrow> (Inr (), w)
      | Some CreateOrUpdate \<Rightarrow>
          if amr_Namespace r \<noteq> [] \<and> modelID \<noteq> []
          then try_call (writeModelIDToConfigMap r CreateOrUpdate modelID w)
                 (WrapError ''failed to publish authorization model ID'') (\<lambda>_ w. (Inr (), w))
          else (Inr (), w))"

definition iamSystemTypes :: "string set" where
  "iamSystemTypes = {TypeInternalUser, TypeInternalUserGroup, TypeRoot}"

definition kept_type :: "TypeDefinition \<Rightarrow> bool" where
  "kept_type td \<longleftrightarrow> td_Type td \<notin> iamSystemTypes \<and> length (Split (td_Type td) (CHR ''/'')) = 1"

fun add_new_types :: "TypeDefinition list \<Rightarrow> string set \<Rightarrow> TypeDefinition list" where
  "add_new_types [] existingTypes = []"
| "add_new_types (td # tds) existingTypes =
     (if td_Type td \<notin> existingTypes then td # add_new_types tds (insert (td_Type td) existingTypes)
      else add_new_types tds existingTypes)"

definition mergeAuthorizationModel :: "AuthorizationModel \<Rightarrow> AuthorizationModel \<Rightarrow> AuthorizationModel" where
  "mergeAuthorizationModel current new =
     (let kept = filter kept_type (am_TypeDefinitions current)
      in \<lparr>am_Id = [], am_SchemaVersion = am_SchemaVersion new,
          am_TypeDefinitions = kept @ add_new_types (am_TypeDefinitions new) (td_Type ` set kept),
          am_Conditions = am_Conditions current\<rparr>)"

definition ReconcileAuthorizationModel ::
    "('w, 'z) AuthorizationModelReconciler_scheme \<Rightarrow> ProtectedResource list \<Rightarrow> 'w \<Rightarrow> (unit, 'w) call" where
  "ReconcileAuthorizationModel r protectedResources w =
     try_call (getCurrentAuthorizationModel r w, w) (WrapError ''failed to get current authorization model'')
     (\<lambda>current w.
       try_call (createExpectedAuthorizationModel (amr_EnableSubresourceAuthorization r) protectedResources, w)
         (WrapError ''failed to create new authorization model'')
       (\<lambda>new w.
         let merged = mergeAuthorizationModel current new
         in if authorizationModelsEqual (amr_cmp_Equal r) (Some current) (Some merged)
            then publish_model_id r (am_Id current) w
            else try_call (WriteAuthorizationModel (amr_OpenFGA r)
                    \<lparr>wm_StoreId = amr_StoreID r, wm_SchemaVersion = am_SchemaVersion merged,
                     wm_TypeDefinitions = am_TypeDefinitions merged, wm_Conditions = am_Conditions merged\<rparr> w)
                  (WrapError ''failed to reconcile authorization model'')
                  (\<lambda>modelID w. publish_model_id r modelID w)))"

section \<open>What the reconciler relies on\<close>

text \<open>
  \<open>model_store\<close>: models are listed newest first, can be read by ID, and a written
  model becomes the newest under a fresh non-empty ID. \<open>ignores_id\<close>: the
  comparison is reflexive and does not look at the ID, as its options say.
  \<open>config_maps\<close>: a successful \<open>CreateOrUpdate\<close> applies the mutation to the
  ConfigMap's data (empty when it did not exist) and leaves the models alone.
\<close>

definition model_store :: "('w, 'z) OpenFGAServiceClient_scheme \<Rightarrow> string \<Rightarrow> ('w \<Rightarrow> AuthorizationModel option) \<Rightarrow> bool" where
  "model_store client sid latest \<longleftrightarrow>
     (\<forall>w ms. ReadAuthorizationModels client sid 1 w = Inr ms \<longrightarrow>
        (case latest w of None \<Rightarrow> ms = [] | Some m \<Rightarrow> ms \<noteq> [] \<and> am_Id (ms ! 0) = am_Id m)) \<and>
     (\<forall>w m r. latest w = Some m \<longrightarrow> ReadAuthorizationModel client sid (am_Id m) w = Inr r \<longrightarrow> r = Some m) \<and>
     (\<forall>rq w i w'. WriteAuthorizationModel client rq w = (Inr i, w') \<longrightarrow> i \<noteq> [] \<and>
        latest w' = Some \<lparr>am_Id = i, am_SchemaVersion = wm_SchemaVersion rq,
          am_TypeDefinitions = wm_TypeDefinitions rq, am_Conditions = wm_Conditions rq\<rparr>)"

definition ignores_id :: "(AuthorizationModel \<Rightarrow> AuthorizationModel \<Rightarrow> bool) \<Rightarrow> bool" where
  "ignores_id eq \<longleftrightarrow> (\<forall>m i. eq (m\<lparr>am_Id := i\<rparr>) m)"

definition config_maps ::
    "(string \<Rightarrow> string \<Rightarrow> (config_data \<Rightarrow> config_data) \<Rightarrow> 'w \<Rightarrow> (unit, 'w) call) option \<Rightarrow>
     ('w \<Rightarrow> AuthorizationModel option) \<Rightarrow> ('w \<Rightarrow> string \<Rightarrow> string \<Rightarrow> config_data option) \<Rightarrow> bool" where
  "config_maps k8s latest config \<longleftrightarrow>
     (case k8s of None \<Rightarrow> True
      | Some CreateOrUpdate \<Rightarrow> (\<forall>ns n f w r w'. CreateOrUpdate ns n f w = (r, w') \<longrightarrow> latest w' = latest w \<and>
          (r = Inr () \<longrightarrow> config w' ns n = Some (f (case config w ns n of None \<Rightarrow> [] | Some d \<Rightarrow> d)))))"


section \<open>The merge\<close>

lemma kept_type_iff: "kept_type td \<longleftrightarrow> CHR ''/'' \<notin> set (td_Type td)"
proof -
  have "CHR ''/'' \<in> set t" if "t \<in> iamSystemTypes" for t
    using that by (auto simp: iamSystemTypes_def TypeInternalUser_def TypeInternalUserGroup_def TypeRoot_def)
  then show ?thesis by (auto simp: kept_type_def length_Split count_list_0_iff)
qed

text \<open>The first definition of each type.\<close>

fun first_of_each_type :: "TypeDefinition list \<Rightarrow> TypeDefinition list" where
  "first_of_each_type [] = []"
| "first_of_each_type (td # tds) = td # filter (\<lambda>d. td_Type d \<noteq> td_Type td) (first_of_each_type tds)"

lemma add_new_types_eq: "add_new_types tds E = filter (\<lambda>d. td_Type d \<notin> E) (first_of_each_type tds)"
  by (induction tds E rule: add_new_types.induct) (auto intro: filter_cong)

lemma set_first_of_each_type: "set (first_of_each_type tds) \<subseteq> set tds"
  by (induction tds) auto

lemma distinct_first_of_each_type: "distinct (map td_Type (first_of_each_type tds))"
  by (induction tds) (auto simp: distinct_map inj_on_def)

definition slashed :: "AuthorizationModel \<Rightarrow> bool" where
  "slashed m \<longleftrightarrow> (\<forall>td \<in> set (am_TypeDefinitions m). CHR ''/'' \<in> set (td_Type td))"

lemma merged_types:
  assumes "slashed new"
  shows "am_TypeDefinitions (mergeAuthorizationModel current new) =
    filter (\<lambda>td. CHR ''/'' \<notin> set (td_Type td)) (am_TypeDefinitions current) @ first_of_each_type (am_TypeDefinitions new)"
proof -
  have "filter (\<lambda>d. td_Type d \<notin> td_Type ` set (filter kept_type cs)) (first_of_each_type (am_TypeDefinitions new)) =
      first_of_each_type (am_TypeDefinitions new)" for cs
    using assms set_first_of_each_type[of "am_TypeDefinitions new"]
    by (intro filter_True) (auto simp: slashed_def kept_type_iff, metis subsetD)
  moreover have "kept_type = (\<lambda>td. CHR ''/'' \<notin> set (td_Type td))" by (simp add: fun_eq_iff kept_type_iff)
  ultimately show ?thesis by (simp add: mergeAuthorizationModel_def Let_def add_new_types_eq)
qed

lemma merge_fixpoint:
  assumes "slashed new"
  shows "mergeAuthorizationModel (mergeAuthorizationModel current new\<lparr>am_Id := i\<rparr>) new = mergeAuthorizationModel current new"
proof -
  let ?m = "mergeAuthorizationModel current new"
  have new: "filter (\<lambda>td. CHR ''/'' \<notin> set (td_Type td)) (first_of_each_type (am_TypeDefinitions new)) = []"
    using assms set_first_of_each_type[of "am_TypeDefinitions new"] by (auto simp: slashed_def filter_empty_conv)
  have "am_TypeDefinitions (mergeAuthorizationModel (?m\<lparr>am_Id := i\<rparr>) new) = am_TypeDefinitions ?m"
    by (simp add: merged_types[OF assms] new)
  then show ?thesis by (simp add: mergeAuthorizationModel_def Let_def)
qed

lemma created_slashed:
  assumes "createExpectedAuthorizationModel en prs = Inr m"
  shows "slashed m"
proof (cases "prs = []")
  case True
  with assms show ?thesis
    by (auto simp: createExpectedAuthorizationModel_def getMinimalAuthorizationModel_def slashed_def
        getUserTypeDefinition_def getUserGroupTypeDefinition_def TypeInternalUser_def TypeInternalUserGroup_def)
next
  case False
  from assms False obtain g where g: "getResourceGraph (sort_protected_resources prs) en = Inr g"
    by (rule createExpectedAuthorizationModel_graph)
  have "CHR ''/'' \<in> set t" if "t \<in> reachable_types prs" for t
  proof -
    have "one_slash t"
      using that g graph_ok_iff[of "sort_protected_resources prs" en] hierarchy_set_cong[of "sort_protected_resources prs" prs] by auto
    then show ?thesis using count_list_0_iff[of t "CHR ''/''"] by (auto simp: one_slash_def length_Split)
  qed
  moreover have "td_Type ` set (am_TypeDefinitions m) \<subseteq> {TypeInternalUser, TypeInternalUserGroup, TypeRoot} \<union> reachable_types prs"
    using arg_cong[OF created_types[OF assms False], of set] finite_reachable[of prs] by auto
  ultimately show ?thesis
    unfolding slashed_def by (force simp: TypeInternalUser_def TypeInternalUserGroup_def TypeRoot_def)
qed

text \<open>
  Merging keeps every type that was not derived from a registration (those without
  a slash) unchanged and in order, drops every registration-derived type that is no
  longer expected, and adds the expected types, each once.
\<close>

theorem mergeAuthorizationModel_types:
  assumes "createExpectedAuthorizationModel en prs = Inr new"
  shows "filter (\<lambda>td. CHR ''/'' \<notin> set (td_Type td)) (am_TypeDefinitions (mergeAuthorizationModel current new)) =
      filter (\<lambda>td. CHR ''/'' \<notin> set (td_Type td)) (am_TypeDefinitions current) \<and>
    filter (\<lambda>td. CHR ''/'' \<in> set (td_Type td)) (am_TypeDefinitions (mergeAuthorizationModel current new)) =
      first_of_each_type (am_TypeDefinitions new) \<and>
    am_Conditions (mergeAuthorizationModel current new) = am_Conditions current"
proof -
  have "slashed new" using assms by (rule created_slashed)
  moreover from this have "\<forall>td \<in> set (first_of_each_type (am_TypeDefinitions new)). CHR ''/'' \<in> set (td_Type td)"
    using set_first_of_each_type[of "am_TypeDefinitions new"] by (auto simp: slashed_def)
  ultimately show ?thesis
    by (simp add: merged_types filter_empty_conv filter_True) (simp add: mergeAuthorizationModel_def Let_def)
qed


section \<open>The reconciler\<close>

lemma model_storeD:
  assumes "model_store client sid latest"
  shows "ReadAuthorizationModels client sid 1 w = Inr ms \<Longrightarrow>
      case latest w of None \<Rightarrow> ms = [] | Some m \<Rightarrow> ms \<noteq> [] \<and> am_Id (ms ! 0) = am_Id m"
    and "latest w = Some m \<Longrightarrow> ReadAuthorizationModel client sid (am_Id m) w = Inr l \<Longrightarrow> l = Some m"
    and "WriteAuthorizationModel client rq w = (Inr i, w') \<Longrightarrow> i \<noteq> []"
    and "WriteAuthorizationModel client rq w = (Inr i, w') \<Longrightarrow>
      latest w' = Some \<lparr>am_Id = i, am_SchemaVersion = wm_SchemaVersion rq,
          am_TypeDefinitions = wm_TypeDefinitions rq, am_Conditions = wm_Conditions rq\<rparr>"
  using assms unfolding model_store_def by blast+

lemma current_model:
  assumes "model_store (amr_OpenFGA r) (amr_StoreID r) latest" and "getCurrentAuthorizationModel r w = Inr c"
  shows "c = (case latest w of None \<Rightarrow> empty_model | Some m \<Rightarrow> m)"
proof -
  from assms(2) obtain l where l: "latestAuthorizationModel (amr_OpenFGA r) (amr_StoreID r) w = Inr l"
    and c: "c = (case l of None \<Rightarrow> empty_model | Some m \<Rightarrow> m)"
    by (auto simp: getCurrentAuthorizationModel_def go_calls)
  then obtain ms where ms: "ReadAuthorizationModels (amr_OpenFGA r) (amr_StoreID r) 1 w = Inr ms"
    and one: "ms = [] \<Longrightarrow> l = None"
    and some: "ms \<noteq> [] \<Longrightarrow> ReadAuthorizationModel (amr_OpenFGA r) (amr_StoreID r) (am_Id (ms ! 0)) w = Inr l"
    by (auto simp: latestAuthorizationModel_def go_calls split: if_splits)
  have law: "case latest w of None \<Rightarrow> ms = [] | Some m \<Rightarrow> ms \<noteq> [] \<and> am_Id (ms ! 0) = am_Id m"
    using ms by (rule model_storeD(1)[OF assms(1)])
  have "l = latest w"
  proof (cases "latest w")
    case None
    then show ?thesis using law one by simp
  next
    case (Some m)
    then have "ms \<noteq> []" "am_Id (ms ! 0) = am_Id m" using law by simp_all
    with some have "ReadAuthorizationModel (amr_OpenFGA r) (amr_StoreID r) (am_Id m) w = Inr l" by simp
    with Some have "l = Some m" by (rule model_storeD(2)[OF assms(1)])
    then show ?thesis using Some by simp
  qed
  then show ?thesis using c by simp
qed

lemma publish_model_id_effect:
  assumes "config_maps (amr_K8sClient r) latest config" and "publish_model_id r i w = (res, w')"
  shows "latest w' = latest w"
    and "res = Inr () \<Longrightarrow> amr_K8sClient r \<noteq> None \<Longrightarrow> amr_Namespace r \<noteq> [] \<Longrightarrow> i \<noteq> [] \<Longrightarrow>
      \<exists>d. config w' (amr_Namespace r) (amr_ConfigMapName r) = Some d \<and> map_of d AuthorizationModelIDKey = Some i"
  using assms
  by (fastforce simp: publish_model_id_def writeModelIDToConfigMap_def config_maps_def try_call_def update_conv'
      split: option.splits if_splits prod.splits sum.splits)+

text \<open>The model the store should hold after a reconciliation.\<close>

definition target_model :: "('w \<Rightarrow> AuthorizationModel option) \<Rightarrow> 'w \<Rightarrow> AuthorizationModel \<Rightarrow> AuthorizationModel" where
  "target_model latest w new = mergeAuthorizationModel (case latest w of None \<Rightarrow> empty_model | Some m \<Rightarrow> m) new"

lemma reconcile_cases:
  assumes ms: "model_store (amr_OpenFGA r) (amr_StoreID r) latest"
    and "config_maps (amr_K8sClient r) latest config"
    and "ReconcileAuthorizationModel r prs w = (Inr (), w')"
  obtains new where "createExpectedAuthorizationModel (amr_EnableSubresourceAuthorization r) prs = Inr new"
    and "(latest w' = latest w \<and>
           amr_cmp_Equal r (case latest w of None \<Rightarrow> empty_model | Some m \<Rightarrow> m) (target_model latest w new)) \<or>
         (\<exists>i. i \<noteq> [] \<and> latest w' = Some (target_model latest w new\<lparr>am_Id := i\<rparr>))"
    and "\<And>m. latest w' = Some m \<Longrightarrow> amr_K8sClient r \<noteq> None \<Longrightarrow> amr_Namespace r \<noteq> [] \<Longrightarrow> am_Id m \<noteq> [] \<Longrightarrow>
      \<exists>d. config w' (amr_Namespace r) (amr_ConfigMapName r) = Some d \<and> map_of d AuthorizationModelIDKey = Some (am_Id m)"
proof -
  let ?c = "case latest w of None \<Rightarrow> empty_model | Some m \<Rightarrow> m"
  from assms(3) have cur: "getCurrentAuthorizationModel r w = Inr ?c"
    using current_model[OF ms] by (auto simp: ReconcileAuthorizationModel_def go_calls)
  from assms(3) obtain new where new: "createExpectedAuthorizationModel (amr_EnableSubresourceAuthorization r) prs = Inr new"
    by (auto simp: ReconcileAuthorizationModel_def go_calls)
  let ?t = "target_model latest w new"
  show thesis
  proof (cases "amr_cmp_Equal r ?c ?t")
    case True
    with assms(3) cur new have pub: "publish_model_id r (am_Id ?c) w = (Inr (), w')"
      by (simp add: ReconcileAuthorizationModel_def authorizationModelsEqual_def Let_def target_model_def)
    note eff = publish_model_id_effect[OF assms(2) pub]
    show thesis
    proof (rule that[OF new])
      show "(latest w' = latest w \<and> amr_cmp_Equal r ?c ?t) \<or> (\<exists>i. i \<noteq> [] \<and> latest w' = Some (?t\<lparr>am_Id := i\<rparr>))"
        using eff(1) True by simp
    qed (use eff in auto)
  next
    case False
    with assms(3) cur new obtain i w1 where
      wr: "WriteAuthorizationModel (amr_OpenFGA r) \<lparr>wm_StoreId = amr_StoreID r, wm_SchemaVersion = am_SchemaVersion ?t,
          wm_TypeDefinitions = am_TypeDefinitions ?t, wm_Conditions = am_Conditions ?t\<rparr> w = (Inr i, w1)"
      and pub: "publish_model_id r i w1 = (Inr (), w')"
      by (auto simp: ReconcileAuthorizationModel_def authorizationModelsEqual_def Let_def target_model_def go_calls)
    have i: "i \<noteq> []" "latest w1 = Some (?t\<lparr>am_Id := i\<rparr>)"
      using model_storeD(3,4)[OF ms wr] by (simp_all add: target_model_def mergeAuthorizationModel_def Let_def)
    note eff = publish_model_id_effect[OF assms(2) pub]
    show thesis
    proof (rule that[OF new])
      show "(latest w' = latest w \<and> amr_cmp_Equal r ?c ?t) \<or> (\<exists>i. i \<noteq> [] \<and> latest w' = Some (?t\<lparr>am_Id := i\<rparr>))"
        using eff(1) i by auto
    qed (use eff i in auto)
  qed
qed


lemma target_model_again:
  assumes "createExpectedAuthorizationModel en prs = Inr new" and "latest w' = Some (target_model latest w new\<lparr>am_Id := i\<rparr>)"
  shows "target_model latest w' new = target_model latest w new"
  using assms(2) merge_fixpoint[OF created_slashed[OF assms(1)]] by (simp add: target_model_def)

lemma target_model_cong: "latest w' = latest w \<Longrightarrow> target_model latest w' new = target_model latest w new"
  by (simp add: target_model_def)

lemma reconcile_converges:
  assumes "model_store (amr_OpenFGA r) (amr_StoreID r) latest"
    and "config_maps (amr_K8sClient r) latest config" and "ignores_id (amr_cmp_Equal r)"
    and "ReconcileAuthorizationModel r prs w = (Inr (), w')"
  shows "\<exists>new. createExpectedAuthorizationModel (amr_EnableSubresourceAuthorization r) prs = Inr new \<and>
      amr_cmp_Equal r (case latest w' of None \<Rightarrow> empty_model | Some m \<Rightarrow> m) (target_model latest w new)"
    and "latest w' = Some m \<Longrightarrow> amr_K8sClient r \<noteq> None \<Longrightarrow> amr_Namespace r \<noteq> [] \<Longrightarrow> am_Id m \<noteq> [] \<Longrightarrow>
      \<exists>d. config w' (amr_Namespace r) (amr_ConfigMapName r) = Some d \<and> map_of d AuthorizationModelIDKey = Some (am_Id m)"
    and "ReconcileAuthorizationModel r prs w' = (Inr (), w'') \<Longrightarrow> latest w'' = latest w'"
proof -
  from assms(1,2,4) obtain new where new: "createExpectedAuthorizationModel (amr_EnableSubresourceAuthorization r) prs = Inr new"
    and step: "(latest w' = latest w \<and>
           amr_cmp_Equal r (case latest w of None \<Rightarrow> empty_model | Some m \<Rightarrow> m) (target_model latest w new)) \<or>
         (\<exists>i. i \<noteq> [] \<and> latest w' = Some (target_model latest w new\<lparr>am_Id := i\<rparr>))"
    and pub: "\<And>m. latest w' = Some m \<Longrightarrow> amr_K8sClient r \<noteq> None \<Longrightarrow> amr_Namespace r \<noteq> [] \<Longrightarrow> am_Id m \<noteq> [] \<Longrightarrow>
      \<exists>d. config w' (amr_Namespace r) (amr_ConfigMapName r) = Some d \<and> map_of d AuthorizationModelIDKey = Some (am_Id m)"
    by (rule reconcile_cases) blast+
  have eq: "amr_cmp_Equal r (case latest w' of None \<Rightarrow> empty_model | Some m \<Rightarrow> m) (target_model latest w new)"
    using step assms(3) by (auto simp: ignores_id_def)
  with new show "\<exists>new. createExpectedAuthorizationModel (amr_EnableSubresourceAuthorization r) prs = Inr new \<and>
      amr_cmp_Equal r (case latest w' of None \<Rightarrow> empty_model | Some m \<Rightarrow> m) (target_model latest w new)" by blast
  show "latest w' = Some m \<Longrightarrow> amr_K8sClient r \<noteq> None \<Longrightarrow> amr_Namespace r \<noteq> [] \<Longrightarrow> am_Id m \<noteq> [] \<Longrightarrow>
      \<exists>d. config w' (amr_Namespace r) (amr_ConfigMapName r) = Some d \<and> map_of d AuthorizationModelIDKey = Some (am_Id m)"
    by (rule pub)
  have same: "target_model latest w' new = target_model latest w new"
    using step target_model_again[OF new] target_model_cong[of latest w' w] by metis
  show "latest w'' = latest w'" if again: "ReconcileAuthorizationModel r prs w' = (Inr (), w'')"
  proof -
    let ?c = "case latest w' of None \<Rightarrow> empty_model | Some m \<Rightarrow> m"
    have "getCurrentAuthorizationModel r w' = Inr ?c"
      using again current_model[OF assms(1)] by (auto simp: ReconcileAuthorizationModel_def go_calls)
    with again new eq same have "publish_model_id r (am_Id ?c) w' = (Inr (), w'')"
      by (simp add: ReconcileAuthorizationModel_def authorizationModelsEqual_def Let_def target_model_def)
    then show ?thesis by (rule publish_model_id_effect(1)[OF assms(2)])
  qed
qed

text \<open>
  C23. A successful reconciliation leaves the store with a newest model that compares
  equal to the merge of what was there and what is expected, its ID is the one the
  ConfigMap publishes, and repeating the reconciliation writes no further model.
\<close>

theorem ReconcileAuthorizationModel_converges:
  assumes "model_store (amr_OpenFGA r) (amr_StoreID r) latest"
    and "config_maps (amr_K8sClient r) latest config" and "ignores_id (amr_cmp_Equal r)"
    and "ReconcileAuthorizationModel r prs w = (Inr (), w')"
  shows "(\<exists>new. createExpectedAuthorizationModel (amr_EnableSubresourceAuthorization r) prs = Inr new \<and>
      amr_cmp_Equal r (case latest w' of None \<Rightarrow> empty_model | Some m \<Rightarrow> m) (target_model latest w new)) \<and>
    (\<forall>m. latest w' = Some m \<longrightarrow> amr_K8sClient r \<noteq> None \<longrightarrow> amr_Namespace r \<noteq> [] \<longrightarrow> am_Id m \<noteq> [] \<longrightarrow>
      (\<exists>d. config w' (amr_Namespace r) (amr_ConfigMapName r) = Some d \<and> map_of d AuthorizationModelIDKey = Some (am_Id m))) \<and>
    (\<forall>w''. ReconcileAuthorizationModel r prs w' = (Inr (), w'') \<longrightarrow> latest w'' = latest w')"
  using reconcile_converges[OF assms] by blast

section \<open>An example\<close>

record config_world = mem_world +
  mem_configs :: "((string \<times> string) \<times> config_data) list"

definition mem_CreateOrUpdate ::
    "string \<Rightarrow> string \<Rightarrow> (config_data \<Rightarrow> config_data) \<Rightarrow> 'z config_world_scheme \<Rightarrow> (unit, 'z config_world_scheme) call" where
  "mem_CreateOrUpdate ns n f w =
     (Inr (), w\<lparr>mem_configs := AList.update (ns, n) (f (case map_of (mem_configs w) (ns, n) of None \<Rightarrow> [] | Some d \<Rightarrow> d)) (mem_configs w)\<rparr>)"

definition mem_latest :: "'z config_world_scheme \<Rightarrow> AuthorizationModel option" where
  "mem_latest w = (case mem_models w of [] \<Rightarrow> None | m # _ \<Rightarrow> Some m)"

definition same_content :: "AuthorizationModel \<Rightarrow> AuthorizationModel \<Rightarrow> bool" where
  "same_content a b \<longleftrightarrow> am_SchemaVersion a = am_SchemaVersion b \<and> am_TypeDefinitions a = am_TypeDefinitions b \<and>
     am_Conditions a = am_Conditions b"

definition example_reconciler :: "config_world AuthorizationModelReconciler" where
  "example_reconciler =
     \<lparr>amr_EnableSubresourceAuthorization = False, amr_StoreID = ''s'', amr_OpenFGA = mem_client,
      amr_K8sClient = Some mem_CreateOrUpdate, amr_Namespace = ''sys'', amr_ConfigMapName = AuthorizationModelConfigMapName,
      amr_cmp_Equal = same_content\<rparr>"

definition empty_world :: config_world where
  "empty_world = \<lparr>mem_tuples = [], mem_models = [], mem_timeouts = 0, mem_model_id = [], mem_configs = []\<rparr>"

lemma mem_model_store: "model_store mem_client sid mem_latest"
  by (auto simp: model_store_def mem_latest_def mem_ReadAuthorizationModels_def mem_ReadAuthorizationModel_def
      mem_WriteAuthorizationModel_def Let_def split: list.splits)

lemma mem_config_maps: "config_maps (Some mem_CreateOrUpdate) mem_latest (\<lambda>w ns n. map_of (mem_configs w) (ns, n))"
  by (simp add: config_maps_def mem_CreateOrUpdate_def mem_latest_def update_conv')

lemma created_schema: "createExpectedAuthorizationModel en prs = Inr m \<Longrightarrow> am_SchemaVersion m = ''1.2''"
  by (auto simp: createExpectedAuthorizationModel_def getMinimalAuthorizationModel_def go_calls Let_def split: if_splits)

theorem ReconcileAuthorizationModel_converges_witness:
  "\<exists>w' m d. ReconcileAuthorizationModel example_reconciler example_prs empty_world = (Inr (), w') \<and>
     mem_latest w' = Some m \<and> same_content m (mergeAuthorizationModel empty_model example_model) \<and>
     map_of (mem_configs w') (''sys'', AuthorizationModelConfigMapName) = Some d \<and>
     map_of d AuthorizationModelIDKey = Some (am_Id m)"
proof -
  let ?t = "mergeAuthorizationModel empty_model example_model"
  let ?m = "?t\<lparr>am_Id := ''m''\<rparr>"
  have cur: "getCurrentAuthorizationModel example_reconciler empty_world = Inr empty_model"
    by (simp add: getCurrentAuthorizationModel_def latestAuthorizationModel_def example_reconciler_def
        mem_ReadAuthorizationModels_def empty_world_def)
  have "\<not> same_content empty_model ?t"
    using created_schema[OF example_model_ok] by (simp add: same_content_def empty_model_def mergeAuthorizationModel_def Let_def)
  then obtain w' where run: "ReconcileAuthorizationModel example_reconciler example_prs empty_world = (Inr (), w')"
    and latest: "mem_latest w' = Some ?m"
    using cur example_model_ok
    by (simp add: ReconcileAuthorizationModel_def authorizationModelsEqual_def Let_def publish_model_id_def
        writeModelIDToConfigMap_def example_reconciler_def mem_WriteAuthorizationModel_def mem_CreateOrUpdate_def mem_latest_def
        empty_world_def mergeAuthorizationModel_def)
  have hyps: "model_store (amr_OpenFGA example_reconciler) (amr_StoreID example_reconciler) mem_latest"
    "config_maps (amr_K8sClient example_reconciler) mem_latest (\<lambda>w ns n. map_of (mem_configs w) (ns, n))"
    "ignores_id (amr_cmp_Equal example_reconciler)"
    by (simp_all add: example_reconciler_def mem_model_store mem_config_maps ignores_id_def same_content_def)
  from ReconcileAuthorizationModel_converges[OF hyps run] latest
  obtain d where "map_of (mem_configs w') (''sys'', AuthorizationModelConfigMapName) = Some d"
    "map_of d AuthorizationModelIDKey = Some ''m''"
    by (auto simp: example_reconciler_def)
  then show ?thesis using run latest by (auto simp: same_content_def)
qed

theorem mergeAuthorizationModel_types_witness:
  "createExpectedAuthorizationModel False example_prs = Inr example_model \<and>
   filter (\<lambda>td. CHR ''/'' \<in> set (td_Type td))
     (am_TypeDefinitions (mergeAuthorizationModel
        \<lparr>am_Id = ''0'', am_SchemaVersion = ''1.2'',
         am_TypeDefinitions = [empty_type_definition ''team'' [], empty_type_definition ''old.io/Gone'' []], am_Conditions = []\<rparr>
        example_model)) = first_of_each_type (am_TypeDefinitions example_model)"
  using mergeAuthorizationModel_types[OF example_model_ok] example_model_ok by blast

end
