(* ===== verification/Conditions.thy ===== *)
theory Conditions
  imports Prelude
begin

text \<open>
  Status conditions, as the Role, GroupMembership and PolicyBinding controllers set them,
  and the finalizer registry they run first. \<open>meta.SetStatusCondition\<close> is a parameter of
  their models; \<open>condition_setter\<close> is its documented contract: it replaces or adds the
  condition of its type and leaves the others. The registry (\<open>finalizer.Finalizers\<close> of the
  controller runtime) is a parameter too; \<open>adds_finalizer\<close> is its documented contract for
  objects that are not being deleted.
\<close>

record Condition =
  cond_Type :: string
  cond_Status :: string
  cond_Reason :: string
  cond_Message :: string
  cond_ObservedGeneration :: int

type_synonym SetStatusCondition = "Condition list \<Rightarrow> Condition \<Rightarrow> Condition list"

definition ReasonValidationSuccessful :: string where "ReasonValidationSuccessful = ''ValidationSuccessful''"
definition ReasonValidationFailed :: string where "ReasonValidationFailed = ''ValidationFailed''"

definition condition_of :: "Condition list \<Rightarrow> string \<Rightarrow> Condition option" where
  "condition_of cs t = find (\<lambda>c. cond_Type c = t) cs"

definition condition_setter :: "SetStatusCondition \<Rightarrow> bool" where
  "condition_setter f \<longleftrightarrow> (\<forall>cs c t. condition_of (f cs c) t = (if t = cond_Type c then Some c else condition_of cs t))"

lemma condition_of_set: "condition_setter f \<Longrightarrow> condition_of (f cs c) t = (if t = cond_Type c then Some c else condition_of cs t)"
  by (simp add: condition_setter_def)

text \<open>A setter for evaluations: the new condition in front.\<close>

definition put_condition :: "Condition list \<Rightarrow> Condition \<Rightarrow> Condition list" where
  "put_condition cs c = c # filter (\<lambda>d. cond_Type d \<noteq> cond_Type c) cs"

lemma put_condition_setter: "condition_setter put_condition"
proof -
  have "condition_of (filter (\<lambda>d. cond_Type d \<noteq> u) cs) t = (if t = u then None else condition_of cs t)" for u cs t
    by (induction cs) (auto simp: condition_of_def)
  then show ?thesis unfolding condition_setter_def put_condition_def by (auto simp: condition_of_def)
qed

section \<open>The finalizer registry\<close>

text \<open>
  Run on an object that is not being deleted, the registry with one finalizer registered
  under \<open>key\<close> calls no finalizer: it adds the key and reports \<open>Updated\<close> when the
  object lacks it, and reports nothing to do otherwise. Neither touches the cluster.
  \<open>ret\<close> is the form of the result: \<open>Some\<close> for operations that may not return,
  the identity for others.
\<close>

definition registry_result :: "string \<Rightarrow> ('a \<Rightarrow> string list) \<Rightarrow> ((string list \<Rightarrow> string list) \<Rightarrow> 'a \<Rightarrow> 'a) \<Rightarrow> 'a \<Rightarrow> bool \<times> 'a" where
  "registry_result key finalizers update x =
     (if key \<in> set (finalizers x) then (False, x) else (True, update (\<lambda>_. finalizers x @ [key]) x))"

definition adds_finalizer ::
    "((bool \<times> 'a) result \<times> 'w \<Rightarrow> 'r) \<Rightarrow> string \<Rightarrow> ('a \<Rightarrow> bool) \<Rightarrow> ('a \<Rightarrow> string list) \<Rightarrow> ((string list \<Rightarrow> string list) \<Rightarrow> 'a \<Rightarrow> 'a) \<Rightarrow>
     ('f \<Rightarrow> 'a \<Rightarrow> 'w \<Rightarrow> 'r) \<Rightarrow> bool" where
  "adds_finalizer ret key deleting finalizers update run \<longleftrightarrow>
     (\<forall>f x w. \<not> deleting x \<longrightarrow> run f x w = ret (Inr (registry_result key finalizers update x), w))"

lemma adds_finalizer_run:
  "adds_finalizer ret key deleting finalizers update run \<Longrightarrow> \<not> deleting x \<Longrightarrow>
   run f x w = ret (Inr (if key \<in> set (finalizers x) then (False, x) else (True, update (\<lambda>_. finalizers x @ [key]) x)), w)"
  by (simp add: adds_finalizer_def registry_result_def)

end
