(* ===== verification/Model_Controller.thy ===== *)
theory Model_Controller
  imports Model_Reconciler Conditions
begin

text \<open>
  The controller of the authorization model (\<open>authorizationmodel_controller.go\<close>): it
  rebuilds the model from the registered ProtectedResources, at start-up and for every
  resource whose current generation it has not handled yet, records that in the status,
  and rebuilds the model without a resource before that resource may go. The API server,
  the finalizer registry of the controller runtime, \<open>controllerutil.ContainsFinalizer\<close>
  and \<open>meta.SetStatusCondition\<close> are parameters. Log output is left out.
\<close>

section \<open>Model\<close>

text \<open>A ProtectedResource with the parts of its metadata and status the controller handles.\<close>

record ProtectedResourceObject = ProtectedResource +
  pr_Generation :: int
  pr_Finalizers :: "string list"
  pr_ObservedGeneration :: int
  pr_Conditions :: "Condition list"

definition protectedResourceFinalizerKey :: string where
  "protectedResourceFinalizerKey = ''iam.miloapis.com/protectedresource''"

text \<open>
  \<open>amc_Update\<close> returns the object as the API server stored it, which the client
  writes back into its argument.
\<close>

record 'w AuthorizationModelController =
  amc_EnableSubresourceAuthorization :: bool
  amc_Get :: "string \<Rightarrow> string \<Rightarrow> 'w \<Rightarrow> ProtectedResourceObject result"
  amc_List :: "'w \<Rightarrow> ProtectedResourceObject list result"
  amc_Update :: "ProtectedResourceObject \<Rightarrow> 'w \<Rightarrow> (ProtectedResourceObject, 'w) call"
  amc_StatusUpdate :: "ProtectedResourceObject \<Rightarrow> 'w \<Rightarrow> (unit, 'w) call"
  amc_Client :: "string \<Rightarrow> string \<Rightarrow> (config_data \<Rightarrow> config_data) \<Rightarrow> 'w \<Rightarrow> (unit, 'w) call"
  amc_FGAClient :: "'w OpenFGAServiceClient option"
  amc_FGAStoreID :: string
  amc_ConfigMapNamespace :: string
  amc_ConfigMapName :: string
  amc_ConfigMapClient :: "(string \<Rightarrow> string \<Rightarrow> (config_data \<Rightarrow> config_data) \<Rightarrow> 'w \<Rightarrow> (unit, 'w) call) option"
  amc_cmp_Equal :: "AuthorizationModel \<Rightarrow> AuthorizationModel \<Rightarrow> bool"
  amc_Finalizers :: "(ProtectedResourceObject \<Rightarrow> 'w \<Rightarrow> (unit, 'w) call) \<Rightarrow> ProtectedResourceObject \<Rightarrow> 'w \<Rightarrow>
     (bool \<times> ProtectedResourceObject, 'w) call"
  amc_SetStatusCondition :: SetStatusCondition

text \<open>The checks of \<open>SetupWithManager\<close> and the model builder it installs; the wiring of the manager is left out.\<close>

definition SetupWithManager :: "('w, 'z) AuthorizationModelController_scheme \<Rightarrow> 'w AuthorizationModelReconciler result" where
  "SetupWithManager r =
     (case amc_FGAClient r of
        None \<Rightarrow> Inl (ErrorString ''FGAClient is not set on AuthorizationModelReconciler'')
      | Some client \<Rightarrow>
          if amc_FGAStoreID r = [] then Inl (ErrorString ''FGAStoreID is not set on AuthorizationModelReconciler'')
          else let cmClient = (case amc_ConfigMapClient r of None \<Rightarrow> amc_Client r | Some c \<Rightarrow> c) in
            Inr \<lparr>amr_EnableSubresourceAuthorization = amc_EnableSubresourceAuthorization r, amr_StoreID = amc_FGAStoreID r,
                 amr_OpenFGA = client, amr_K8sClient = Some cmClient, amr_Namespace = amc_ConfigMapNamespace r,
                 amr_ConfigMapName = amc_ConfigMapName r, amr_cmp_Equal = amc_cmp_Equal r\<rparr>)"

text \<open>
  The two selections: a rebuild leaves out every resource that is being deleted, the
  finalizer only the resource it runs for.
\<close>

definition active_resources :: "ProtectedResourceObject list \<Rightarrow> ProtectedResource list" where
  "active_resources prs = map ProtectedResource.truncate (filter (\<lambda>pr. \<not> pr_DeletionTimestamp pr) prs)"

definition remaining_resources :: "ProtectedResourceObject \<Rightarrow> ProtectedResourceObject list \<Rightarrow> ProtectedResource list" where
  "remaining_resources pr prs = map ProtectedResource.truncate (filter (\<lambda>item. pr_UID item \<noteq> pr_UID pr) prs)"

definition rebuildAuthorizationModel ::
    "('w, 'z) AuthorizationModelController_scheme \<Rightarrow> 'w AuthorizationModelReconciler \<Rightarrow> 'w \<Rightarrow> (unit, 'w) call" where
  "rebuildAuthorizationModel r modelBuilder w =
     try_call (amc_List r w, w) (WrapError ''failed to list ProtectedResources'')
     (\<lambda>prList w. try_call (ReconcileAuthorizationModel modelBuilder (active_resources prList) w)
        (WrapError ''failed to reconcile IAM authorization model'') (\<lambda>_ w. (Inr (), w)))"

definition ProtectedResource_Finalize ::
    "('w, 'z) AuthorizationModelController_scheme \<Rightarrow> 'w AuthorizationModelReconciler \<Rightarrow> ProtectedResourceObject \<Rightarrow> 'w \<Rightarrow> (unit, 'w) call" where
  "ProtectedResource_Finalize r modelBuilder pr w =
     try_call (amc_List r w, w) (WrapError ''failed to list ProtectedResources during finalization'')
     (\<lambda>currentPRs w. try_call (ReconcileAuthorizationModel modelBuilder (remaining_resources pr currentPRs) w)
        (WrapError ''failed to reconcile FGA model during finalization'') (\<lambda>_ w. (Inr (), w)))"

type_synonym pr_status = "int \<times> Condition list"

definition pr_status :: "ProtectedResourceObject \<Rightarrow> pr_status" where
  "pr_status pr = (pr_ObservedGeneration pr, pr_Conditions pr)"

text \<open>The object with the status that \<open>updateTriggeringPRStatus\<close> sets, and the update itself.\<close>

definition observed ::
    "SetStatusCondition \<Rightarrow> bool \<Rightarrow> string \<Rightarrow> string \<Rightarrow> ProtectedResourceObject \<Rightarrow> ProtectedResourceObject" where
  "observed SetStatusCondition isSuccess reason message pr =
     pr\<lparr>pr_ObservedGeneration := pr_Generation pr,
        pr_Conditions := SetStatusCondition (pr_Conditions pr)
          \<lparr>cond_Type = ''Ready'', cond_Status = (if isSuccess then ''True'' else ''False''), cond_Reason = reason,
           cond_Message = message, cond_ObservedGeneration = 0\<rparr>\<rparr>"

definition updateTriggeringPRStatus ::
    "('w, 'z) AuthorizationModelController_scheme \<Rightarrow> ProtectedResourceObject \<Rightarrow> pr_status \<Rightarrow> bool \<Rightarrow> string \<Rightarrow> string \<Rightarrow> 'w \<Rightarrow> (unit, 'w) call" where
  "updateTriggeringPRStatus r pr oldStatus isSuccess reasonForCondition messageForCondition w =
     (let pr = observed (amc_SetStatusCondition r) isSuccess reasonForCondition messageForCondition pr in
      if oldStatus \<noteq> pr_status pr then try_call (amc_StatusUpdate r pr w) (\<lambda>e. e) (\<lambda>_ w. (Inr (), w))
      else (Inr (), w))"

definition reconcileProtectedResource ::
    "('w, 'z) AuthorizationModelController_scheme \<Rightarrow> 'w AuthorizationModelReconciler \<Rightarrow> ProtectedResourceObject \<Rightarrow> 'w \<Rightarrow> (unit, 'w) call" where
  "reconcileProtectedResource r modelBuilder triggeringPR w =
     (if pr_ObservedGeneration triggeringPR = pr_Generation triggeringPR then (Inr (), w)
      else let oldStatus = pr_status triggeringPR in
        try_call (rebuildAuthorizationModel r modelBuilder w) (\<lambda>e. e)
        (\<lambda>_ w. try_call (updateTriggeringPRStatus r triggeringPR oldStatus True ''IAMSystemConfigured''
            ''Resource is configured to be protected by the IAM system.'' w)
          (WrapError ''failed to update ProtectedResource status'') (\<lambda>_ w. (Inr (), w))))"

definition Model_Reconcile ::
    "('w, 'z) AuthorizationModelController_scheme \<Rightarrow> 'w AuthorizationModelReconciler \<Rightarrow> string \<Rightarrow> string \<Rightarrow> 'w \<Rightarrow> (unit, 'w) call" where
  "Model_Reconcile r modelBuilder namespace name w =
     (if name = [] then rebuildAuthorizationModel r modelBuilder w
      else case amc_Get r namespace name w of
        Inl err \<Rightarrow> if IsNotFound err then (Inr (), w) else (Inl err, w)
      | Inr triggeringPR \<Rightarrow>
          try_call (amc_Finalizers r (ProtectedResource_Finalize r modelBuilder) triggeringPR w)
            (WrapError ''failed to run finalizers for ProtectedResource'')
          (\<lambda>(Updated, triggeringPR) w.
            try_call (if Updated then amc_Update r triggeringPR w else (Inr triggeringPR, w)) (\<lambda>e. e)
            (\<lambda>triggeringPR w.
              if pr_DeletionTimestamp triggeringPR then (Inr (), w)
              else reconcileProtectedResource r modelBuilder triggeringPR w)))"

subsection \<open>Events\<close>

text \<open>The predicate on watch events; \<open>None\<close> is an object of another type. The start-up source queues the empty request.\<close>

definition pr_CreateFunc :: "(ProtectedResourceObject \<Rightarrow> string \<Rightarrow> bool) \<Rightarrow> bool \<Rightarrow> ProtectedResourceObject option \<Rightarrow> bool" where
  "pr_CreateFunc ContainsFinalizer IsInInitialList obj =
     (case obj of None \<Rightarrow> False
      | Some pr \<Rightarrow> \<not> IsInInitialList \<or> pr_ObservedGeneration pr \<noteq> pr_Generation pr \<or> pr_DeletionTimestamp pr \<or>
          \<not> ContainsFinalizer pr protectedResourceFinalizerKey)"

definition pr_UpdateFunc ::
    "(ProtectedResourceObject \<Rightarrow> string \<Rightarrow> bool) \<Rightarrow> ProtectedResourceObject option \<Rightarrow> ProtectedResourceObject option \<Rightarrow> bool" where
  "pr_UpdateFunc ContainsFinalizer objectOld objectNew =
     (case (objectOld, objectNew) of
        (Some oldPR, Some newPR) \<Rightarrow>
          let deletionStarted = (\<not> pr_DeletionTimestamp oldPR \<and> pr_DeletionTimestamp newPR);
              finalizerMissing = (\<not> pr_DeletionTimestamp newPR \<and> \<not> ContainsFinalizer newPR protectedResourceFinalizerKey)
          in pr_Generation oldPR \<noteq> pr_Generation newPR \<or> deletionStarted \<or> finalizerMissing
      | _ \<Rightarrow> False)"

definition authorizationModelStartupSource :: "(string \<times> string) list \<Rightarrow> (string \<times> string) list" where
  "authorizationModelStartupSource queue = queue @ [([], [])]"

section \<open>What the controller relies on\<close>

text \<open>
  \<open>pr_api\<close>: writing a ProtectedResource touches neither the models nor the
  ConfigMaps; a status update is what the next read returns, and an update keeps the
  finalizers and the deletion mark it was given. \<open>pr_registry\<close>: for a resource under
  deletion that carries the key, the registry succeeds only if the finalizer did, and then
  takes the key off. \<open>pr_live_registry\<close>: for a resource not under deletion it adds the key
  if it is missing. \<open>finalizer_updates\<close>: an update of the finalizers of a resource as it
  was read changes nothing else of it: what the API server stores and returns has the same
  spec, generation and status.
\<close>

definition pr_api ::
    "('w, 'z) AuthorizationModelController_scheme \<Rightarrow> ('w \<Rightarrow> AuthorizationModel option) \<Rightarrow>
     ('w \<Rightarrow> string \<Rightarrow> string \<Rightarrow> config_data option) \<Rightarrow> bool" where
  "pr_api r latest config \<longleftrightarrow>
     (\<forall>pr w res w'. amc_Update r pr w = (res, w') \<longrightarrow> latest w' = latest w \<and> config w' = config w \<and>
        (\<forall>pr'. res = Inr pr' \<longrightarrow> pr_Finalizers pr' = pr_Finalizers pr \<and> pr_DeletionTimestamp pr' = pr_DeletionTimestamp pr)) \<and>
     (\<forall>pr w res w'. amc_StatusUpdate r pr w = (res, w') \<longrightarrow> latest w' = latest w \<and> config w' = config w \<and>
        (res = Inr () \<longrightarrow> (\<forall>ns. amc_Get r ns (pr_Name pr) w' = Inr pr)))"

definition pr_registry ::
    "((ProtectedResourceObject \<Rightarrow> 'w \<Rightarrow> (unit, 'w) call) \<Rightarrow> ProtectedResourceObject \<Rightarrow> 'w \<Rightarrow> (bool \<times> ProtectedResourceObject, 'w) call) \<Rightarrow> bool" where
  "pr_registry fin \<longleftrightarrow>
     (\<forall>f pr w. pr_DeletionTimestamp pr \<longrightarrow> protectedResourceFinalizerKey \<in> set (pr_Finalizers pr) \<longrightarrow>
        (\<exists>wrap. fin f pr w = try_call (f pr w) wrap
           (\<lambda>_ w. (Inr (True, pr\<lparr>pr_Finalizers := removeAll protectedResourceFinalizerKey (pr_Finalizers pr)\<rparr>), w))))"

abbreviation pr_live_registry ::
    "('f \<Rightarrow> ProtectedResourceObject \<Rightarrow> 'w \<Rightarrow> (bool \<times> ProtectedResourceObject, 'w) call) \<Rightarrow> bool" where
  "pr_live_registry \<equiv>
     adds_finalizer (\<lambda>x. x) protectedResourceFinalizerKey pr_DeletionTimestamp pr_Finalizers pr_Finalizers_update"

definition finalizer_updates :: "('w, 'z) AuthorizationModelController_scheme \<Rightarrow> bool" where
  "finalizer_updates r \<longleftrightarrow>
     (\<forall>ns n pr fs w pr' w'. amc_Get r ns n w = Inr pr \<longrightarrow> amc_Update r (pr\<lparr>pr_Finalizers := fs\<rparr>) w = (Inr pr', w') \<longrightarrow>
        pr' = pr\<lparr>pr_Finalizers := fs\<rparr>)"

text \<open>The store holds, up to the comparison, the merge of what it held with the model of the given registrations, and its ID is published.\<close>

definition in_effect ::
    "'w AuthorizationModelReconciler \<Rightarrow> ('w \<Rightarrow> AuthorizationModel option) \<Rightarrow> ('w \<Rightarrow> string \<Rightarrow> string \<Rightarrow> config_data option) \<Rightarrow>
     ProtectedResource list \<Rightarrow> 'w \<Rightarrow> 'w \<Rightarrow> bool" where
  "in_effect mb latest config prs w w' \<longleftrightarrow>
     (\<exists>new. createExpectedAuthorizationModel (amr_EnableSubresourceAuthorization mb) prs = Inr new \<and>
        amr_cmp_Equal mb (case latest w' of None \<Rightarrow> empty_model | Some m \<Rightarrow> m) (target_model latest w new)) \<and>
     (\<forall>m. latest w' = Some m \<longrightarrow> amr_Namespace mb \<noteq> [] \<longrightarrow> am_Id m \<noteq> [] \<longrightarrow>
        (\<exists>d. config w' (amr_Namespace mb) (amr_ConfigMapName mb) = Some d \<and> map_of d AuthorizationModelIDKey = Some (am_Id m)))"

section \<open>Reconciling\<close>

lemma SetupWithManager_fields:
  assumes "SetupWithManager r = Inr mb"
  shows "\<exists>client. amc_FGAClient r = Some client \<and> amr_OpenFGA mb = client" and "amc_FGAStoreID r \<noteq> []"
    and "amr_StoreID mb = amc_FGAStoreID r" and "amr_cmp_Equal mb = amc_cmp_Equal r" and "amr_K8sClient mb \<noteq> None"
  using assms by (auto simp: SetupWithManager_def Let_def split: option.splits if_splits)

lemma in_effect_later:
  assumes "in_effect mb latest config prs w w1" and "latest w' = latest w1" and "config w' = config w1"
  shows "in_effect mb latest config prs w w'"
  using assms by (simp add: in_effect_def)

lemma ReconcileAuthorizationModel_in_effect:
  assumes "SetupWithManager r = Inr mb" and "model_store (amr_OpenFGA mb) (amr_StoreID mb) latest"
    and "config_maps (amr_K8sClient mb) latest config" and "ignores_id (amr_cmp_Equal mb)"
    and "ReconcileAuthorizationModel mb prs w = (Inr (), w')"
  shows "in_effect mb latest config prs w w'"
  using reconcile_converges(1,2)[OF assms(2-5)] SetupWithManager_fields(5)[OF assms(1)] unfolding in_effect_def by blast

lemma rebuild_in_effect:
  assumes "SetupWithManager r = Inr mb" and "model_store (amr_OpenFGA mb) (amr_StoreID mb) latest"
    and "config_maps (amr_K8sClient mb) latest config" and "ignores_id (amr_cmp_Equal mb)"
    and "rebuildAuthorizationModel r mb w = (Inr (), w')"
  shows "\<exists>prs. amc_List r w = Inr prs \<and> in_effect mb latest config (active_resources prs) w w'"
  using assms(5) by (auto simp: rebuildAuthorizationModel_def go_calls intro: ReconcileAuthorizationModel_in_effect[OF assms(1-4)])

lemma updateTriggeringPRStatus_stores:
  assumes "pr_api r latest config" and "pr_ObservedGeneration pr \<noteq> pr_Generation pr"
    and "updateTriggeringPRStatus r pr (pr_status pr) b reason message w = (Inr (), w')"
  shows "latest w' = latest w \<and> config w' = config w \<and>
    amc_Get r ns (pr_Name pr) w' = Inr (observed (amc_SetStatusCondition r) b reason message pr)"
proof -
  let ?pr = "observed (amc_SetStatusCondition r) b reason message pr"
  have "pr_status pr \<noteq> pr_status ?pr" using assms(2) by (simp add: pr_status_def observed_def)
  then have "amc_StatusUpdate r ?pr w = (Inr (), w')" using assms(3) by (simp add: updateTriggeringPRStatus_def Let_def go_calls)
  moreover have "pr_Name ?pr = pr_Name pr" by (simp add: observed_def)
  ultimately show ?thesis using assms(1) unfolding pr_api_def by metis
qed

lemma reconcileProtectedResource_outcome:
  assumes inst: "SetupWithManager r = Inr mb" and ms: "model_store (amr_OpenFGA mb) (amr_StoreID mb) latest"
    and cm: "config_maps (amr_K8sClient mb) latest config" and eq: "ignores_id (amr_cmp_Equal mb)"
    and api: "pr_api r latest config" and setter: "condition_setter (amc_SetStatusCondition r)"
    and rec: "reconcileProtectedResource r mb pr w = (Inr (), w')"
  shows "if pr_ObservedGeneration pr = pr_Generation pr then w' = w
    else \<exists>prs pr'. amc_List r w = Inr prs \<and> in_effect mb latest config (active_resources prs) w w' \<and>
      amc_Get r ns (pr_Name pr) w' = Inr pr' \<and> pr_Spec pr' = pr_Spec pr \<and> pr_Finalizers pr' = pr_Finalizers pr \<and>
      pr_ObservedGeneration pr' = pr_Generation pr \<and>
      map_option cond_Status (condition_of (pr_Conditions pr') ''Ready'') = Some ''True''"
proof (cases "pr_ObservedGeneration pr = pr_Generation pr")
  case True
  then show ?thesis using rec by (simp add: reconcileProtectedResource_def)
next
  case False
  let ?pr = "observed (amc_SetStatusCondition r) True ''IAMSystemConfigured''
    ''Resource is configured to be protected by the IAM system.'' pr"
  from rec False obtain w1 where w1: "rebuildAuthorizationModel r mb w = (Inr (), w1)"
    and upd: "updateTriggeringPRStatus r pr (pr_status pr) True ''IAMSystemConfigured''
      ''Resource is configured to be protected by the IAM system.'' w1 = (Inr (), w')"
    by (auto simp: reconcileProtectedResource_def Let_def go_calls)
  note st = updateTriggeringPRStatus_stores[OF api False upd, of ns]
  obtain prs where prs: "amc_List r w = Inr prs" and eff: "in_effect mb latest config (active_resources prs) w w1"
    using rebuild_in_effect[OF inst ms cm eq w1] by blast
  have "in_effect mb latest config (active_resources prs) w w'" using in_effect_later[OF eff] st by blast
  moreover have "map_option cond_Status (condition_of (pr_Conditions ?pr) ''Ready'') = Some ''True''"
    "pr_Spec ?pr = pr_Spec pr" "pr_Finalizers ?pr = pr_Finalizers pr" "pr_ObservedGeneration ?pr = pr_Generation pr"
    by (simp_all add: observed_def condition_of_set[OF setter])
  ultimately show ?thesis using prs st False by auto
qed

text \<open>
  C17. A successful reconcile of the authorization model. The start-up request puts the
  model of all ProtectedResources that are not being deleted into effect and publishes
  it. The request of a resource that is not being deleted first gives the resource the
  finalizer if it lacks it; after that, a resource whose current generation is not yet
  handled puts the model of all resources not being deleted, as listed then, into effect,
  and is afterwards recorded as handled and Ready, with the finalizer; a resource that is
  already handled changes nothing more.
\<close>

theorem Model_Reconcile_outcome:
  assumes inst: "SetupWithManager r = Inr mb" and ms: "model_store (amr_OpenFGA mb) (amr_StoreID mb) latest"
    and cm: "config_maps (amr_K8sClient mb) latest config" and eq: "ignores_id (amr_cmp_Equal mb)"
    and api: "pr_api r latest config" and upd: "finalizer_updates r" and reg: "pr_live_registry (amc_Finalizers r)"
    and setter: "condition_setter (amc_SetStatusCondition r)"
    and pr: "name \<noteq> [] \<Longrightarrow> amc_Get r namespace name w = Inr pr \<and> pr_Name pr = name \<and> \<not> pr_DeletionTimestamp pr"
    and run: "Model_Reconcile r mb namespace name w = (Inr (), w')"
  shows "if name = [] then \<exists>prs. amc_List r w = Inr prs \<and> in_effect mb latest config (active_resources prs) w w'
    else \<exists>w1. (if protectedResourceFinalizerKey \<in> set (pr_Finalizers pr) then w1 = w
        else \<exists>pr1. amc_Update r (pr\<lparr>pr_Finalizers := pr_Finalizers pr @ [protectedResourceFinalizerKey]\<rparr>) w = (Inr pr1, w1)) \<and>
      (if pr_ObservedGeneration pr = pr_Generation pr then w' = w1
       else \<exists>prs pr'. amc_List r w1 = Inr prs \<and> in_effect mb latest config (active_resources prs) w w' \<and>
         amc_Get r namespace name w' = Inr pr' \<and> pr_Spec pr' = pr_Spec pr \<and>
         protectedResourceFinalizerKey \<in> set (pr_Finalizers pr') \<and> pr_ObservedGeneration pr' = pr_Generation pr \<and>
         map_option cond_Status (condition_of (pr_Conditions pr') ''Ready'') = Some ''True'')"
proof (cases "name = []")
  case True
  then show ?thesis using run rebuild_in_effect[OF inst ms cm eq] by (simp add: Model_Reconcile_def)
next
  case named: False
  note pr = pr[OF named]
  note fin = adds_finalizer_run[OF reg, of pr "ProtectedResource_Finalize r mb" w]
  note outcome = reconcileProtectedResource_outcome[OF inst ms cm eq api setter]
  show ?thesis
  proof (cases "protectedResourceFinalizerKey \<in> set (pr_Finalizers pr)")
    case True
    with run pr named fin have rec: "reconcileProtectedResource r mb pr w = (Inr (), w')" by (simp add: Model_Reconcile_def)
    from outcome[OF rec, of namespace] True pr named show ?thesis by (auto split: if_splits)
  next
    case False
    let ?pr = "pr\<lparr>pr_Finalizers := pr_Finalizers pr @ [protectedResourceFinalizerKey]\<rparr>"
    from False run pr named fin obtain pr1 w1 where w1: "amc_Update r ?pr w = (Inr pr1, w1)"
      and rest: "(if pr_DeletionTimestamp pr1 then (Inr (), w1) else reconcileProtectedResource r mb pr1 w1) = (Inr (), w')"
      by (auto simp: Model_Reconcile_def go_calls)
    have pr1: "pr1 = ?pr" using upd pr w1 unfolding finalizer_updates_def by blast
    have "latest w1 = latest w" using api w1 unfolding pr_api_def by blast
    then have base: "in_effect mb latest config prs w1 w' = in_effect mb latest config prs w w'" for prs
      by (simp add: in_effect_def target_model_def)
    have "reconcileProtectedResource r mb ?pr w1 = (Inr (), w')" using rest pr by (simp add: pr1)
    from outcome[OF this, of namespace] False pr named w1 show ?thesis by (auto simp: base split: if_splits)
  qed
qed

text \<open>
  C18. A ProtectedResource under deletion that carries the finalizer is released by a
  successful reconcile only with the model of all other resources in effect: the object
  written back has lost the key, and the newest model is built without its registration.
\<close>

theorem Model_Reconcile_releases:
  assumes inst: "SetupWithManager r = Inr mb" and ms: "model_store (amr_OpenFGA mb) (amr_StoreID mb) latest"
    and cm: "config_maps (amr_K8sClient mb) latest config" and eq: "ignores_id (amr_cmp_Equal mb)"
    and api: "pr_api r latest config" and reg: "pr_registry (amc_Finalizers r)"
    and prs: "amc_List r w = Inr prs" and "name \<noteq> []" and get: "amc_Get r namespace name w = Inr pr"
    and del: "pr_DeletionTimestamp pr" and key: "protectedResourceFinalizerKey \<in> set (pr_Finalizers pr)"
    and run: "Model_Reconcile r mb namespace name w = (Inr (), w')"
  shows "\<exists>w1 pr'. amc_Update r (pr\<lparr>pr_Finalizers := removeAll protectedResourceFinalizerKey (pr_Finalizers pr)\<rparr>) w1 = (Inr pr', w') \<and>
    protectedResourceFinalizerKey \<notin> set (pr_Finalizers pr') \<and>
    in_effect mb latest config (remaining_resources pr prs) w w1 \<and> in_effect mb latest config (remaining_resources pr prs) w w'"
proof -
  let ?pr = "pr\<lparr>pr_Finalizers := removeAll protectedResourceFinalizerKey (pr_Finalizers pr)\<rparr>"
  from reg del key obtain wrap where fin: "amc_Finalizers r (ProtectedResource_Finalize r mb) pr w =
      try_call (ProtectedResource_Finalize r mb pr w) wrap (\<lambda>_ w. (Inr (True, ?pr), w))"
    unfolding pr_registry_def by blast
  from run assms(8) get obtain w1 pr' w2 where w1: "ProtectedResource_Finalize r mb pr w = (Inr (), w1)"
    and upd: "amc_Update r ?pr w1 = (Inr pr', w2)"
    and rest: "(if pr_DeletionTimestamp pr' then (Inr (), w2) else reconcileProtectedResource r mb pr' w2) = (Inr (), w')"
    by (auto simp: Model_Reconcile_def fin go_calls)
  have pr': "pr_Finalizers pr' = pr_Finalizers ?pr" "pr_DeletionTimestamp pr' = pr_DeletionTimestamp ?pr"
    and keeps: "latest w2 = latest w1" "config w2 = config w1"
    using api upd unfolding pr_api_def by blast+
  have w': "w' = w2" using rest pr' del by simp
  have "in_effect mb latest config (remaining_resources pr prs) w w1"
    using w1 prs by (auto simp: ProtectedResource_Finalize_def go_calls intro: ReconcileAuthorizationModel_in_effect[OF inst ms cm eq])
  moreover from this keeps have "in_effect mb latest config (remaining_resources pr prs) w w2" by (rule in_effect_later)
  moreover have "protectedResourceFinalizerKey \<notin> set (pr_Finalizers pr')" using pr' by simp
  ultimately show ?thesis using upd unfolding w' by blast
qed

section \<open>Evaluations\<close>

text \<open>A world with the OpenFGA store, the ConfigMaps and the ProtectedResources.\<close>

record pr_world = config_world +
  mem_prs :: "ProtectedResourceObject list"

definition pr_StatusUpdate :: "ProtectedResourceObject \<Rightarrow> pr_world \<Rightarrow> (unit, pr_world) call" where
  "pr_StatusUpdate pr w = (Inr (), w\<lparr>mem_prs := pr # filter (\<lambda>q. pr_Name q \<noteq> pr_Name pr) (mem_prs w)\<rparr>)"

definition pr_Update :: "ProtectedResourceObject \<Rightarrow> pr_world \<Rightarrow> (ProtectedResourceObject, pr_world) call" where
  "pr_Update pr w =
     (Inr pr, w\<lparr>mem_prs := (if pr_DeletionTimestamp pr \<and> pr_Finalizers pr = [] then [] else [pr]) @
        filter (\<lambda>q. pr_Name q \<noteq> pr_Name pr) (mem_prs w)\<rparr>)"

definition pr_Finalizers_run ::
    "(ProtectedResourceObject \<Rightarrow> 'w \<Rightarrow> (unit, 'w) call) \<Rightarrow> ProtectedResourceObject \<Rightarrow> 'w \<Rightarrow> (bool \<times> ProtectedResourceObject, 'w) call" where
  "pr_Finalizers_run f pr w =
     (if pr_DeletionTimestamp pr \<and> protectedResourceFinalizerKey \<in> set (pr_Finalizers pr)
      then try_call (f pr w) (\<lambda>e. e)
             (\<lambda>_ w. (Inr (True, pr\<lparr>pr_Finalizers := removeAll protectedResourceFinalizerKey (pr_Finalizers pr)\<rparr>), w))
      else if \<not> pr_DeletionTimestamp pr \<and> protectedResourceFinalizerKey \<notin> set (pr_Finalizers pr)
      then (Inr (True, pr\<lparr>pr_Finalizers := pr_Finalizers pr @ [protectedResourceFinalizerKey]\<rparr>), w)
      else (Inr (False, pr), w))"

definition example_amc :: "pr_world AuthorizationModelController" where
  "example_amc =
     \<lparr>amc_EnableSubresourceAuthorization = False,
      amc_Get = (\<lambda>ns n w. case find (\<lambda>pr. pr_Name pr = n) (mem_prs w) of
         None \<Rightarrow> Inl (ExternalError None True False ''not found'') | Some pr \<Rightarrow> Inr pr),
      amc_List = (\<lambda>w. Inr (mem_prs w)), amc_Update = pr_Update, amc_StatusUpdate = pr_StatusUpdate, amc_Client = mem_CreateOrUpdate,
      amc_FGAClient = Some mem_client, amc_FGAStoreID = ''s'', amc_ConfigMapNamespace = ''sys'',
      amc_ConfigMapName = AuthorizationModelConfigMapName, amc_ConfigMapClient = None, amc_cmp_Equal = same_content,
      amc_Finalizers = pr_Finalizers_run, amc_SetStatusCondition = put_condition\<rparr>"

definition example_mb :: "pr_world AuthorizationModelReconciler" where
  "example_mb = projr (SetupWithManager example_amc)"

text \<open>The three resources of \<open>example_prs\<close>, not handled yet.\<close>

definition unhandled :: "ProtectedResource \<Rightarrow> ProtectedResourceObject" where
  "unhandled pr = ProtectedResource.extend pr
     \<lparr>pr_Generation = 1, pr_Finalizers = [protectedResourceFinalizerKey], pr_ObservedGeneration = 0, pr_Conditions = []\<rparr>"

text \<open>A resource that is being deleted.\<close>

definition example_gone :: ProtectedResourceObject where
  "example_gone = unhandled (example_pr ''rm.io'' ''Gone'' ''gone'' [''get''] [])\<lparr>pr_DeletionTimestamp := True\<rparr>"

definition example_pr_world :: "ProtectedResourceObject list \<Rightarrow> pr_world" where
  "example_pr_world prs = config_world.extend empty_world \<lparr>mem_prs = prs\<rparr>"

lemma unhandled_simps [simp]:
  "pr_Name (unhandled pr) = pr_Name pr" "pr_UID (unhandled pr) = pr_UID pr" "pr_DeletionTimestamp (unhandled pr) = pr_DeletionTimestamp pr"
  "pr_Spec (unhandled pr) = pr_Spec pr" "pr_Generation (unhandled pr) = 1" "pr_ObservedGeneration (unhandled pr) = 0"
  "pr_Finalizers (unhandled pr) = [protectedResourceFinalizerKey]" "ProtectedResource.truncate (unhandled pr) = pr"
  by (simp_all add: unhandled_def ProtectedResource.defs)

lemma example_mb_ok: "SetupWithManager example_amc = Inr example_mb"
  by (simp add: example_mb_def SetupWithManager_def example_amc_def Let_def)

lemma example_mb_laws:
  "model_store (amr_OpenFGA example_mb) (amr_StoreID example_mb) mem_latest"
  "config_maps (amr_K8sClient example_mb) mem_latest (\<lambda>w ns n. map_of (mem_configs w) (ns, n))"
  "ignores_id (amr_cmp_Equal example_mb)"
  by (simp_all add: example_mb_def SetupWithManager_def example_amc_def Let_def mem_model_store mem_config_maps ignores_id_def same_content_def)

lemma example_amc_laws:
  "pr_api example_amc mem_latest (\<lambda>w ns n. map_of (mem_configs w) (ns, n))"
  "pr_registry (amc_Finalizers example_amc)" "condition_setter (amc_SetStatusCondition example_amc)"
  by (simp_all add: pr_api_def example_amc_def pr_Update_def pr_StatusUpdate_def mem_latest_def pr_registry_def pr_Finalizers_run_def
      put_condition_setter) blast

lemma example_amc_updates: "finalizer_updates example_amc" "pr_live_registry (amc_Finalizers example_amc)"
  by (auto simp: finalizer_updates_def adds_finalizer_def registry_result_def example_amc_def pr_Update_def pr_Finalizers_run_def)

lemma example_build:
  assumes "createExpectedAuthorizationModel False prs = Inr new"
  shows "\<exists>w'. ReconcileAuthorizationModel example_mb prs w = (Inr (), w')"
proof -
  have "\<exists>c. latestAuthorizationModel mem_client ''s'' w = Inr c"
    by (simp add: latestAuthorizationModel_def mem_ReadAuthorizationModels_def mem_ReadAuthorizationModel_def)
  then obtain c where "getCurrentAuthorizationModel example_mb w = Inr c"
    by (auto simp: getCurrentAuthorizationModel_def example_mb_def SetupWithManager_def example_amc_def Let_def)
  with assms show ?thesis
    by (simp add: ReconcileAuthorizationModel_def publish_model_id_def writeModelIDToConfigMap_def mem_CreateOrUpdate_def
        mem_WriteAuthorizationModel_def example_mb_def SetupWithManager_def example_amc_def Let_def)
qed

lemma example_lists:
  "active_resources (map unhandled example_prs) = example_prs"
  "remaining_resources example_gone (example_gone # map unhandled example_prs) = example_prs"
  by (simp_all add: active_resources_def remaining_resources_def example_prs_def example_pr_def example_gone_def)

text \<open>A new resource: not handled, and without the finalizer.\<close>

definition fresh :: "ProtectedResource \<Rightarrow> ProtectedResourceObject" where
  "fresh pr = unhandled pr\<lparr>pr_Finalizers := []\<rparr>"

lemma fresh_simps [simp]:
  "pr_Name (fresh pr) = pr_Name pr" "pr_DeletionTimestamp (fresh pr) = pr_DeletionTimestamp pr" "pr_Finalizers (fresh pr) = []"
  "pr_Generation (fresh pr) = 1" "pr_ObservedGeneration (fresh pr) = 0"
  "fresh pr\<lparr>pr_Finalizers := [protectedResourceFinalizerKey]\<rparr> = unhandled pr"
  by (simp_all add: fresh_def unhandled_def ProtectedResource.defs)

theorem Model_Reconcile_outcome_witness:
  "\<exists>w' pr'. Model_Reconcile example_amc example_mb [] ''orgs'' (example_pr_world (map fresh example_prs)) = (Inr (), w') \<and>
     amc_Get example_amc [] ''orgs'' w' = Inr pr' \<and> pr_ObservedGeneration pr' = 1 \<and> protectedResourceFinalizerKey \<in> set (pr_Finalizers pr') \<and>
     in_effect example_mb mem_latest (\<lambda>w ns n. map_of (mem_configs w) (ns, n)) example_prs (example_pr_world (map fresh example_prs)) w'"
proof -
  let ?org = "example_pr ''rm.io'' ''Org'' ''orgs'' [''get''] []" and ?w = "example_pr_world (map fresh example_prs)"
  let ?w1 = "?w\<lparr>mem_prs := unhandled ?org # map fresh (tl example_prs)\<rparr>"
  have ops: "amc_Update example_amc = pr_Update" "amc_StatusUpdate example_amc = pr_StatusUpdate" by (simp_all add: example_amc_def)
  have pr: "amc_Get example_amc [] ''orgs'' ?w = Inr (fresh ?org) \<and> pr_Name (fresh ?org) = ''orgs'' \<and> \<not> pr_DeletionTimestamp (fresh ?org)"
    by (simp add: example_amc_def example_pr_world_def config_world.defs example_prs_def example_pr_def)
  have upd: "pr_Update (unhandled ?org) ?w = (Inr (unhandled ?org), ?w1)"
    by (simp add: pr_Update_def example_pr_world_def config_world.defs example_prs_def example_pr_def)
  have prs: "amc_List example_amc ?w1 = Inr (unhandled ?org # map fresh (tl example_prs))" by (simp add: example_amc_def)
  have active: "active_resources (unhandled ?org # map fresh (tl example_prs)) = example_prs"
    by (simp add: active_resources_def example_prs_def example_pr_def fresh_def unhandled_def ProtectedResource.defs)
  obtain w2 where "rebuildAuthorizationModel example_amc example_mb ?w1 = (Inr (), w2)"
    using example_build[OF example_model_ok, of ?w1] by (auto simp: rebuildAuthorizationModel_def prs active)
  moreover obtain w' where "updateTriggeringPRStatus example_amc (unhandled ?org) (pr_status (unhandled ?org)) True ''IAMSystemConfigured''
      ''Resource is configured to be protected by the IAM system.'' w2 = (Inr (), w')"
    by (auto simp: ops updateTriggeringPRStatus_def Let_def pr_StatusUpdate_def pr_status_def observed_def)
  ultimately have rec: "reconcileProtectedResource example_amc example_mb (unhandled ?org) ?w1 = (Inr (), w')"
    by (simp add: reconcileProtectedResource_def)
  have run: "Model_Reconcile example_amc example_mb [] ''orgs'' ?w = (Inr (), w')"
    using adds_finalizer_run[OF example_amc_updates(2), of "fresh ?org"] pr upd rec
    by (simp add: Model_Reconcile_def ops example_pr_def)
  from Model_Reconcile_outcome[OF example_mb_ok example_mb_laws example_amc_laws(1) example_amc_updates example_amc_laws(3) pr run]
  show ?thesis using run upd prs by (auto simp: ops active)
qed

theorem Model_Reconcile_releases_witness:
  "\<exists>w'. Model_Reconcile example_amc example_mb [] ''gone'' (example_pr_world (example_gone # map unhandled example_prs)) = (Inr (), w') \<and>
     in_effect example_mb mem_latest (\<lambda>w ns n. map_of (mem_configs w) (ns, n)) example_prs
       (example_pr_world (example_gone # map unhandled example_prs)) w'"
proof -
  let ?w = "example_pr_world (example_gone # map unhandled example_prs)"
  have prs: "amc_List example_amc ?w = Inr (example_gone # map unhandled example_prs)"
    by (simp add: example_amc_def example_pr_world_def config_world.defs)
  have get: "amc_Get example_amc [] ''gone'' ?w = Inr example_gone"
    and gone: "pr_DeletionTimestamp example_gone" "protectedResourceFinalizerKey \<in> set (pr_Finalizers example_gone)"
    by (simp_all add: example_amc_def example_pr_world_def config_world.defs example_gone_def example_pr_def)
  obtain w1 where "ProtectedResource_Finalize example_amc example_mb example_gone ?w = (Inr (), w1)"
    using example_build[OF example_model_ok, of ?w] by (auto simp: ProtectedResource_Finalize_def prs example_lists)
  moreover have "amc_Finalizers example_amc = pr_Finalizers_run" "amc_Update example_amc = pr_Update" by (simp_all add: example_amc_def)
  ultimately obtain w' where run: "Model_Reconcile example_amc example_mb [] ''gone'' ?w = (Inr (), w')"
    using get gone by (simp add: Model_Reconcile_def pr_Finalizers_run_def pr_Update_def)
  have "''gone'' \<noteq> []" by simp
  from Model_Reconcile_releases[OF example_mb_ok example_mb_laws example_amc_laws(1,2) prs this get gone run]
  show ?thesis using run by (auto simp: example_lists)
qed

end
