(* ===== verification/Model_Protocol.thy ===== *)
theory Model_Protocol
  imports Model_Controller
begin

text \<open>
  The authorization model controller at work: its single worker, the queue its watch
  predicates fill, the informer cache it reads from, and the API server the objects change
  on. Reads come from the cache, which follows the API server object by object and with
  any delay; writes are accepted only for the version that was read. The steps of the
  worker are the reads and writes of \<open>Model_Controller.Model_Reconcile\<close>; the theory shows
  that a resource recorded as handled is part of the model, and that none is forgotten.
\<close>

section \<open>Steps\<close>

datatype model_worker =
    Idle
  | Adding nat ProtectedResourceObject
  | Rebuilding nat ProtectedResourceObject
  | Recording nat ProtectedResourceObject
  | Finalizing nat ProtectedResourceObject
  | Releasing nat ProtectedResourceObject
  | Starting

text \<open>
  Objects carry the version of their last write; \<open>ms_owner\<close> is the name a UID was given
  out for, and \<open>ms_built\<close> the registrations the stored model was last built from.
\<close>

record model_state =
  ms_objects :: "string \<Rightarrow> (nat \<times> ProtectedResourceObject) option"
  ms_cache :: "string \<Rightarrow> (nat \<times> ProtectedResourceObject) option"
  ms_version :: nat
  ms_owner :: "string \<Rightarrow> string option"
  ms_queue :: "string set"
  ms_worker :: model_worker
  ms_built :: "ProtectedResource list"

definition store_pr :: "model_state \<Rightarrow> string \<Rightarrow> ProtectedResourceObject \<Rightarrow> model_state" where
  "store_pr s n p = s\<lparr>ms_objects := (ms_objects s)(n \<mapsto> (Suc (ms_version s), p)), ms_version := Suc (ms_version s)\<rparr>"

definition enqueue_if :: "bool \<Rightarrow> string \<Rightarrow> model_state \<Rightarrow> model_state" where
  "enqueue_if b n s = (if b then s\<lparr>ms_queue := insert n (ms_queue s)\<rparr> else s)"

definition cached_prs :: "model_state \<Rightarrow> ProtectedResourceObject set" where
  "cached_prs s = {c. \<exists>n v. ms_cache s n = Some (v, c)}"

text \<open>The start of a reconcile on what the cache holds under the name.\<close>

definition begin_work :: "(ProtectedResourceObject \<Rightarrow> string \<Rightarrow> bool) \<Rightarrow> (nat \<times> ProtectedResourceObject) option \<Rightarrow> model_worker" where
  "begin_work CF entry =
     (case entry of None \<Rightarrow> Idle
      | Some (v, t) \<Rightarrow>
          if pr_DeletionTimestamp t then (if CF t protectedResourceFinalizerKey then Finalizing v t else Idle)
          else if \<not> CF t protectedResourceFinalizerKey then Adding v t
          else if pr_ObservedGeneration t = pr_Generation t then Idle else Rebuilding v t)"

definition worker_name :: "model_worker \<Rightarrow> string" where
  "worker_name k = (case k of Adding v t \<Rightarrow> pr_Name t | Rebuilding v t \<Rightarrow> pr_Name t | Recording v t \<Rightarrow> pr_Name t
     | Finalizing v t \<Rightarrow> pr_Name t | Releasing v t \<Rightarrow> pr_Name t | _ \<Rightarrow> [])"

inductive model_step ::
    "(ProtectedResourceObject \<Rightarrow> string \<Rightarrow> bool) \<Rightarrow> SetStatusCondition \<Rightarrow> model_state \<Rightarrow> model_state \<Rightarrow> bool"
  for CF :: "ProtectedResourceObject \<Rightarrow> string \<Rightarrow> bool" and set_cond :: SetStatusCondition where
  create: "ms_objects s n = None \<Longrightarrow> n \<noteq> [] \<Longrightarrow> pr_Name p = n \<Longrightarrow> ms_owner s (pr_UID p) = None \<Longrightarrow> \<not> pr_DeletionTimestamp p \<Longrightarrow>
    pr_ObservedGeneration p < pr_Generation p \<Longrightarrow>
    model_step CF set_cond s (store_pr (s\<lparr>ms_owner := (ms_owner s)(pr_UID p \<mapsto> n)\<rparr>) n p)"
| change: "ms_objects s n = Some (v, p) \<Longrightarrow> pr_Name p' = n \<Longrightarrow> pr_UID p' = pr_UID p \<Longrightarrow> pr_Generation p \<le> pr_Generation p' \<Longrightarrow>
    (pr_Generation p' = pr_Generation p \<longrightarrow> pr_Spec p' = pr_Spec p) \<Longrightarrow> pr_ObservedGeneration p' = pr_ObservedGeneration p \<Longrightarrow>
    (pr_DeletionTimestamp p \<longrightarrow> pr_DeletionTimestamp p') \<Longrightarrow> model_step CF set_cond s (store_pr s n p')"
| vanish: "ms_objects s n = Some (v, p) \<Longrightarrow> pr_DeletionTimestamp p \<Longrightarrow> pr_Finalizers p = [] \<Longrightarrow>
    model_step CF set_cond s (s\<lparr>ms_objects := (ms_objects s)(n := None)\<rparr>)"
| watch_create: "ms_cache s n = None \<Longrightarrow> ms_objects s n = Some (v, p) \<Longrightarrow>
    model_step CF set_cond s (enqueue_if (pr_CreateFunc CF False (Some p)) n (s\<lparr>ms_cache := (ms_cache s)(n \<mapsto> (v, p))\<rparr>))"
| watch_update: "ms_cache s n = Some (v', c) \<Longrightarrow> ms_objects s n = Some (v, p) \<Longrightarrow> pr_UID c = pr_UID p \<Longrightarrow>
    model_step CF set_cond s (enqueue_if (pr_UpdateFunc CF (Some c) (Some p)) n (s\<lparr>ms_cache := (ms_cache s)(n \<mapsto> (v, p))\<rparr>))"
| watch_delete: "ms_cache s n = Some (v', c) \<Longrightarrow> (\<forall>v p. ms_objects s n = Some (v, p) \<longrightarrow> pr_UID p \<noteq> pr_UID c) \<Longrightarrow>
    model_step CF set_cond s (enqueue_if True n (s\<lparr>ms_cache := (ms_cache s)(n := None)\<rparr>))"
| restart: "model_step CF set_cond s (s\<lparr>ms_cache := ms_objects s, ms_worker := Idle,
    ms_queue := insert [] {n. \<exists>v p. ms_objects s n = Some (v, p) \<and> pr_CreateFunc CF True (Some p)}\<rparr>)"
| take_startup: "ms_worker s = Idle \<Longrightarrow> [] \<in> ms_queue s \<Longrightarrow>
    model_step CF set_cond s (s\<lparr>ms_queue := ms_queue s - {[]}, ms_worker := Starting\<rparr>)"
| take_item: "ms_worker s = Idle \<Longrightarrow> n \<in> ms_queue s \<Longrightarrow> n \<noteq> [] \<Longrightarrow>
    model_step CF set_cond s (s\<lparr>ms_queue := ms_queue s - {n}, ms_worker := begin_work CF (ms_cache s n)\<rparr>)"
| add_key: "ms_worker s = Adding v t \<Longrightarrow> ms_objects s (pr_Name t) = Some (v, p) \<Longrightarrow>
    t' = t\<lparr>pr_Finalizers := pr_Finalizers t @ [protectedResourceFinalizerKey]\<rparr> \<Longrightarrow>
    model_step CF set_cond s (store_pr s (pr_Name t) t'
      \<lparr>ms_worker := if pr_ObservedGeneration t' = pr_Generation t' then Idle else Rebuilding (Suc (ms_version s)) t'\<rparr>)"
| rebuild: "ms_worker s = Rebuilding v t \<Longrightarrow> set prs = cached_prs s \<Longrightarrow>
    model_step CF set_cond s (s\<lparr>ms_built := active_resources prs, ms_worker := Recording v t\<rparr>)"
| rebuild_startup: "ms_worker s = Starting \<Longrightarrow> set prs = cached_prs s \<Longrightarrow>
    model_step CF set_cond s (s\<lparr>ms_built := active_resources prs, ms_worker := Idle\<rparr>)"
| record_status: "ms_worker s = Recording v t \<Longrightarrow> ms_objects s (pr_Name t) = Some (v, p) \<Longrightarrow>
    model_step CF set_cond s (store_pr s (pr_Name t) (observed set_cond True ''IAMSystemConfigured''
      ''Resource is configured to be protected by the IAM system.'' t)\<lparr>ms_worker := Idle\<rparr>)"
| rebuild_without: "ms_worker s = Finalizing v t \<Longrightarrow> set prs = cached_prs s \<Longrightarrow>
    model_step CF set_cond s (s\<lparr>ms_built := remaining_resources t prs, ms_worker := Releasing v t\<rparr>)"
| release_pr: "ms_worker s = Releasing v t \<Longrightarrow> ms_objects s (pr_Name t) = Some (v, p) \<Longrightarrow>
    t' = t\<lparr>pr_Finalizers := removeAll protectedResourceFinalizerKey (pr_Finalizers t)\<rparr> \<Longrightarrow>
    model_step CF set_cond s (store_pr s (pr_Name t) t'\<lparr>ms_worker := Idle\<rparr>)"
| fail: "ms_worker s \<noteq> Idle \<Longrightarrow>
    model_step CF set_cond s (s\<lparr>ms_queue := insert (worker_name (ms_worker s)) (ms_queue s), ms_worker := Idle\<rparr>)"

definition model_start :: "model_state \<Rightarrow> bool" where
  "model_start s \<longleftrightarrow> (\<forall>n. ms_objects s n = None \<and> ms_cache s n = None) \<and> (\<forall>u. ms_owner s u = None) \<and> ms_worker s = Idle"

definition model_reachable ::
    "(ProtectedResourceObject \<Rightarrow> string \<Rightarrow> bool) \<Rightarrow> SetStatusCondition \<Rightarrow> model_state \<Rightarrow> bool" where
  "model_reachable CF set_cond s \<longleftrightarrow> (\<exists>s0. model_start s0 \<and> (model_step CF set_cond)\<^sup>*\<^sup>* s0 s)"

section \<open>The invariant\<close>

abbreviation registration :: "ProtectedResourceObject \<Rightarrow> ProtectedResource" where
  "registration \<equiv> ProtectedResource.truncate"

lemma registration_eq_iff:
  "registration p = registration q \<longleftrightarrow> pr_Name p = pr_Name q \<and> pr_UID p = pr_UID q \<and>
     pr_DeletionTimestamp p = pr_DeletionTimestamp q \<and> pr_Spec p = pr_Spec q"
  by (auto simp: ProtectedResource.truncate_def)

text \<open>What the worker holds: the version and the object it read, if any.\<close>

fun held_pr :: "model_worker \<Rightarrow> (nat \<times> ProtectedResourceObject) option" where
  "held_pr (Adding v t) = Some (v, t)"
| "held_pr (Rebuilding v t) = Some (v, t)"
| "held_pr (Recording v t) = Some (v, t)"
| "held_pr (Finalizing v t) = Some (v, t)"
| "held_pr (Releasing v t) = Some (v, t)"
| "held_pr Idle = None"
| "held_pr Starting = None"

fun handling :: "model_worker \<Rightarrow> bool" where
  "handling (Adding v t) = True"
| "handling (Rebuilding v t) = True"
| "handling (Recording v t) = True"
| "handling _ = False"

text \<open>Every version anywhere was given out by the API server, under its name and with a UID of that name.\<close>

definition entry_ok :: "model_state \<Rightarrow> string \<Rightarrow> nat \<times> ProtectedResourceObject \<Rightarrow> bool" where
  "entry_ok s n e \<longleftrightarrow> (case e of (v, p) \<Rightarrow> v \<le> ms_version s \<and> pr_Name p = n \<and> ms_owner s (pr_UID p) = Some n)"

definition entries_ok :: "model_state \<Rightarrow> bool" where
  "entries_ok s \<longleftrightarrow> (\<forall>n e. ms_objects s n = Some e \<longrightarrow> entry_ok s n e) \<and> (\<forall>n e. ms_cache s n = Some e \<longrightarrow> entry_ok s n e) \<and>
     (\<forall>v t. held_pr (ms_worker s) = Some (v, t) \<longrightarrow> entry_ok s (pr_Name t) (v, t))"

text \<open>An earlier version \<open>(v, c)\<close> of the stored \<open>(w, p)\<close>, if they are one object.\<close>

definition earlier :: "nat \<times> ProtectedResourceObject \<Rightarrow> nat \<times> ProtectedResourceObject \<Rightarrow> bool" where
  "earlier e e' \<longleftrightarrow> (case (e, e') of ((v, c), (w, p)) \<Rightarrow> (v = w \<longrightarrow> c = p) \<and>
     (pr_UID c = pr_UID p \<longrightarrow> (pr_DeletionTimestamp c \<longrightarrow> pr_DeletionTimestamp p) \<and> pr_Generation c \<le> pr_Generation p \<and>
        (pr_Generation c = pr_Generation p \<longrightarrow> pr_Spec c = pr_Spec p \<and>
           (pr_ObservedGeneration c = pr_Generation c \<longrightarrow> pr_ObservedGeneration p = pr_Generation p))))"

definition lagging :: "model_state \<Rightarrow> bool" where
  "lagging s \<longleftrightarrow> (\<forall>n e e'. ms_objects s n = Some e' \<longrightarrow>
     (ms_cache s n = Some e \<longrightarrow> earlier e e') \<and> (held_pr (ms_worker s) = Some e \<longrightarrow> pr_Name (snd e) = n \<longrightarrow> earlier e e'))"

definition observed_le :: "model_state \<Rightarrow> bool" where
  "observed_le s \<longleftrightarrow> (\<forall>n v p. ms_objects s n = Some (v, p) \<longrightarrow> n \<noteq> [] \<and> pr_ObservedGeneration p \<le> pr_Generation p)"

definition cached_as :: "model_state \<Rightarrow> ProtectedResourceObject \<Rightarrow> bool" where
  "cached_as s p \<longleftrightarrow> (\<exists>v c. ms_cache s (pr_Name p) = Some (v, c) \<and> registration c = registration p)"

definition worker_ok :: "model_state \<Rightarrow> bool" where
  "worker_ok s \<longleftrightarrow>
     (case ms_worker s of
        Finalizing v t \<Rightarrow> pr_DeletionTimestamp t
      | Releasing v t \<Rightarrow> pr_DeletionTimestamp t
      | Idle \<Rightarrow> True | Starting \<Rightarrow> True
      | Adding v t \<Rightarrow> \<not> pr_DeletionTimestamp t \<and> (ms_objects s (pr_Name t) = Some (v, t) \<longrightarrow> cached_as s t)
      | Rebuilding v t \<Rightarrow> \<not> pr_DeletionTimestamp t \<and> (ms_objects s (pr_Name t) = Some (v, t) \<longrightarrow> cached_as s t)
      | Recording v t \<Rightarrow> \<not> pr_DeletionTimestamp t \<and>
          (ms_objects s (pr_Name t) = Some (v, t) \<longrightarrow> cached_as s t \<and> registration t \<in> set (ms_built s)))"

definition handled_built :: "model_state \<Rightarrow> bool" where
  "handled_built s \<longleftrightarrow> (\<forall>n v p. ms_objects s n = Some (v, p) \<longrightarrow> \<not> pr_DeletionTimestamp p \<longrightarrow> pr_ObservedGeneration p = pr_Generation p \<longrightarrow>
     cached_as s p \<and> registration p \<in> set (ms_built s))"

definition pending :: "model_state \<Rightarrow> bool" where
  "pending s \<longleftrightarrow> (\<forall>n v p v' c. ms_objects s n = Some (v, p) \<longrightarrow> \<not> pr_DeletionTimestamp p \<longrightarrow> pr_ObservedGeneration p \<noteq> pr_Generation p \<longrightarrow>
     ms_cache s n = Some (v', c) \<longrightarrow> pr_UID c = pr_UID p \<longrightarrow> pr_Generation c = pr_Generation p \<longrightarrow>
     n \<in> ms_queue s \<or> handling (ms_worker s) \<and> worker_name (ms_worker s) = n)"

definition model_inv :: "model_state \<Rightarrow> bool" where
  "model_inv s \<longleftrightarrow> entries_ok s \<and> lagging s \<and> observed_le s \<and> worker_ok s \<and> handled_built s \<and> pending s"

lemma store_pr_simps [simp]:
  "ms_objects (store_pr s n p) = (ms_objects s)(n \<mapsto> (Suc (ms_version s), p))" "ms_cache (store_pr s n p) = ms_cache s"
  "ms_version (store_pr s n p) = Suc (ms_version s)" "ms_owner (store_pr s n p) = ms_owner s" "ms_queue (store_pr s n p) = ms_queue s"
  "ms_worker (store_pr s n p) = ms_worker s" "ms_built (store_pr s n p) = ms_built s"
  by (simp_all add: store_pr_def)

lemma enqueue_if_simps [simp]:
  "ms_objects (enqueue_if b n s) = ms_objects s" "ms_cache (enqueue_if b n s) = ms_cache s"
  "ms_version (enqueue_if b n s) = ms_version s" "ms_owner (enqueue_if b n s) = ms_owner s"
  "ms_queue (enqueue_if b n s) = (if b then insert n (ms_queue s) else ms_queue s)"
  "ms_worker (enqueue_if b n s) = ms_worker s" "ms_built (enqueue_if b n s) = ms_built s"
  by (simp_all add: enqueue_if_def)

lemma begin_work_cases:
  assumes "begin_work CF e = k" and "k \<noteq> Idle"
  obtains v t where "e = Some (v, t)" and "held_pr k = Some (v, t)"
  using assms by (auto simp: begin_work_def split: option.splits if_splits)


lemma held_begin_work: "held_pr (begin_work CF e) = Some (v, t) \<Longrightarrow> e = Some (v, t)"
  by (auto simp: begin_work_def split: option.splits if_splits)

lemma observed_simps [simp]:
  "pr_Name (observed f b re m p) = pr_Name p" "pr_UID (observed f b re m p) = pr_UID p"
  "pr_DeletionTimestamp (observed f b re m p) = pr_DeletionTimestamp p" "pr_Spec (observed f b re m p) = pr_Spec p"
  "pr_Generation (observed f b re m p) = pr_Generation p" "pr_ObservedGeneration (observed f b re m p) = pr_Generation p"
  by (simp_all add: observed_def)

lemma entries_okD:
  assumes "entries_ok s"
  shows "ms_objects s n = Some (v, p) \<Longrightarrow> v \<le> ms_version s \<and> pr_Name p = n \<and> ms_owner s (pr_UID p) = Some n"
    and "ms_cache s n = Some (v, p) \<Longrightarrow> v \<le> ms_version s \<and> pr_Name p = n \<and> ms_owner s (pr_UID p) = Some n"
    and "held_pr (ms_worker s) = Some (v, p) \<Longrightarrow> v \<le> ms_version s \<and> ms_owner s (pr_UID p) = Some (pr_Name p)"
  using assms by (auto simp: entries_ok_def entry_ok_def)

lemma entries_okI:
  assumes "\<And>n v p. ms_objects s n = Some (v, p) \<Longrightarrow> v \<le> ms_version s \<and> pr_Name p = n \<and> ms_owner s (pr_UID p) = Some n"
    and "\<And>n v p. ms_cache s n = Some (v, p) \<Longrightarrow> v \<le> ms_version s \<and> pr_Name p = n \<and> ms_owner s (pr_UID p) = Some n"
    and "\<And>v p. held_pr (ms_worker s) = Some (v, p) \<Longrightarrow> v \<le> ms_version s \<and> ms_owner s (pr_UID p) = Some (pr_Name p)"
  shows "entries_ok s"
  using assms by (auto simp: entries_ok_def entry_ok_def)


lemma entries_ok_store:
  assumes "entries_ok s" and "pr_Name p = n" and "ms_owner s (pr_UID p) = Some n"
  shows "entries_ok (store_pr s n p)"
  by (rule entries_okI) (use assms entries_okD[OF assms(1)] in \<open>auto split: if_splits intro: le_SucI\<close>)

lemma entries_ok_owner:
  assumes "entries_ok s" and "ms_owner s u = None"
  shows "entries_ok (s\<lparr>ms_owner := (ms_owner s)(u \<mapsto> n)\<rparr>)"
  by (rule entries_okI) (use assms(2) in \<open>auto dest: entries_okD[OF assms(1)]\<close>)

lemma lagging_store:
  assumes "entries_ok s" and "lagging s"
    and "\<And>v c. pr_Name c = n \<Longrightarrow> v \<le> ms_version s \<Longrightarrow> ms_owner s (pr_UID c) = Some n \<Longrightarrow>
      (case ms_objects s n of None \<Rightarrow> True | Some e \<Rightarrow> earlier (v, c) e) \<Longrightarrow> earlier (v, c) (Suc (ms_version s), p)"
  shows "lagging (store_pr s n p)"
proof -
  have "earlier e (Suc (ms_version s), p)"
    if "ms_cache s n = Some e \<or> held_pr (ms_worker s) = Some e \<and> pr_Name (snd e) = n" for e
  proof -
    obtain v c where e: "e = (v, c)" by fastforce
    show ?thesis unfolding e
      by (rule assms(3)) (use that assms(2) e in \<open>auto simp: lagging_def split: option.splits dest: entries_okD[OF assms(1)]\<close>)
  qed
  with assms(2) show ?thesis by (auto simp: lagging_def)
qed


lemma cached_as_store [simp]: "cached_as (store_pr s n p) q = cached_as s q"
  by (simp add: cached_as_def)

lemma worker_ok_store:
  assumes "entries_ok s" and "worker_ok s"
  shows "worker_ok (store_pr s n p)"
  using assms(2) entries_okD(3)[OF assms(1)] by (auto simp: worker_ok_def split: model_worker.splits)

text \<open>The parts of the invariant that mention no counters.\<close>

lemma handled_built_store:
  assumes "handled_built s"
    and "\<not> pr_DeletionTimestamp p \<Longrightarrow> pr_ObservedGeneration p = pr_Generation p \<Longrightarrow> cached_as s p \<and> registration p \<in> set (ms_built s)"
  shows "handled_built (store_pr s n p)"
  using assms by (auto simp: handled_built_def)

lemma pending_store:
  assumes "pending s"
    and "\<And>v' c. \<not> pr_DeletionTimestamp p \<Longrightarrow> pr_ObservedGeneration p \<noteq> pr_Generation p \<Longrightarrow> ms_cache s n = Some (v', c) \<Longrightarrow>
      pr_UID c = pr_UID p \<Longrightarrow> pr_Generation c = pr_Generation p \<Longrightarrow>
      n \<in> ms_queue s \<or> handling (ms_worker s) \<and> worker_name (ms_worker s) = n"
  shows "pending (store_pr s n p)"
  using assms by (auto simp: pending_def)

lemma observed_le_store:
  assumes "observed_le s" and "n \<noteq> []" and "pr_ObservedGeneration p \<le> pr_Generation p"
  shows "observed_le (store_pr s n p)"
  using assms by (auto simp: observed_le_def)

text \<open>A successor \<open>p'\<close> of the stored object.\<close>

definition succeeds :: "ProtectedResourceObject \<Rightarrow> ProtectedResourceObject \<Rightarrow> bool" where
  "succeeds p p' \<longleftrightarrow> pr_Name p' = pr_Name p \<and> pr_UID p' = pr_UID p \<and> pr_Generation p \<le> pr_Generation p' \<and>
     (pr_Generation p' = pr_Generation p \<longrightarrow> pr_Spec p' = pr_Spec p) \<and> (pr_DeletionTimestamp p \<longrightarrow> pr_DeletionTimestamp p')"

lemma earlier_succeeds:
  assumes "earlier (w, c) (v, p)" and "w \<le> k" and "succeeds p p'"
    and "pr_ObservedGeneration p = pr_ObservedGeneration p' \<or> pr_ObservedGeneration p' = pr_Generation p'"
  shows "earlier (w, c) (Suc k, p')"
proof -
  have "pr_Generation c = pr_Generation p' \<Longrightarrow> pr_UID c = pr_UID p' \<Longrightarrow> pr_Generation p = pr_Generation p'"
    using assms(1,3) by (simp add: earlier_def succeeds_def)
  then show ?thesis using assms unfolding earlier_def succeeds_def by simp (metis order_trans)
qed

lemma model_inv_store:
  assumes inv: "model_inv s" and obj: "ms_objects s n = Some (v, p)" and succ: "succeeds p p'"
    and obs: "pr_ObservedGeneration p' = pr_ObservedGeneration p \<or> pr_ObservedGeneration p' = pr_Generation p' \<and>
      (\<not> pr_DeletionTimestamp p' \<longrightarrow> cached_as s p' \<and> registration p' \<in> set (ms_built s))"
  shows "model_inv (store_pr s n p')"
proof -
  from inv have E: "entries_ok s" and L: "lagging s" and O: "observed_le s" and W: "worker_ok s" and R: "handled_built s" and P: "pending s"
    by (simp_all add: model_inv_def)
  note p = entries_okD(1)[OF E obj]
  have name: "pr_Name p' = n" and uid: "ms_owner s (pr_UID p') = Some n" using p succ by (auto simp: succeeds_def)
  have le: "pr_ObservedGeneration p \<le> pr_Generation p" and n: "n \<noteq> []" using O obj by (auto simp: observed_le_def)
  have same: "pr_Generation p' = pr_Generation p \<and> pr_ObservedGeneration p = pr_Generation p"
    if "pr_ObservedGeneration p' = pr_ObservedGeneration p" "pr_ObservedGeneration p' = pr_Generation p'"
    using that le succ by (auto simp: succeeds_def)
  show ?thesis unfolding model_inv_def
  proof (intro conjI)
    show "entries_ok (store_pr s n p')" using E name uid by (rule entries_ok_store)
    show "lagging (store_pr s n p')"
      using E L
    proof (rule lagging_store)
      fix w c
      assume "w \<le> ms_version s" and "case ms_objects s n of None \<Rightarrow> True | Some e \<Rightarrow> earlier (w, c) e"
      then show "earlier (w, c) (Suc (ms_version s), p')" using obj succ obs by (intro earlier_succeeds[of w c v p]) auto
    qed
    show "observed_le (store_pr s n p')"
      using O obs le succ n by (intro observed_le_store) (auto simp: succeeds_def)
    show "worker_ok (store_pr s n p')" using E W by (rule worker_ok_store)
    show "handled_built (store_pr s n p')"
      using R
    proof (rule handled_built_store)
      assume live: "\<not> pr_DeletionTimestamp p'" and gen: "pr_ObservedGeneration p' = pr_Generation p'"
      show "cached_as s p' \<and> registration p' \<in> set (ms_built s)"
      proof (cases "pr_ObservedGeneration p' = pr_ObservedGeneration p")
        case True
        with same gen have "pr_Generation p' = pr_Generation p" "pr_ObservedGeneration p = pr_Generation p" by auto
        moreover from this have reg: "registration p' = registration p" using succ live by (auto simp: registration_eq_iff succeeds_def)
        ultimately have "cached_as s p \<and> registration p \<in> set (ms_built s)" using R obj live succ by (auto simp: handled_built_def succeeds_def)
        then show ?thesis using reg succ by (auto simp: cached_as_def succeeds_def)
      qed (use obs live in auto)
    qed
    show "pending (store_pr s n p')"
      using P
    proof (rule pending_store)
      fix v' c
      assume a: "\<not> pr_DeletionTimestamp p'" "pr_ObservedGeneration p' \<noteq> pr_Generation p'" "ms_cache s n = Some (v', c)"
        "pr_UID c = pr_UID p'" "pr_Generation c = pr_Generation p'"
      have "earlier (v', c) (v, p)" using L obj a(3) by (auto simp: lagging_def)
      then have "pr_Generation p = pr_Generation p'" using a succ by (auto simp: earlier_def succeeds_def)
      then show "n \<in> ms_queue s \<or> handling (ms_worker s) \<and> worker_name (ms_worker s) = n"
        using P obj a obs succ unfolding pending_def succeeds_def by metis
    qed
  qed
qed


lemmas model_inv_parts = entries_ok_def entry_ok_def lagging_def observed_le_def handled_built_def pending_def

lemma model_invD:
  assumes "model_inv s"
  shows "entries_ok s" "lagging s" "observed_le s" "worker_ok s" "handled_built s" "pending s"
  using assms by (simp_all add: model_inv_def)

lemma worker_ok_mono:
  assumes "worker_ok s" and "ms_worker s' = ms_worker s" and "ms_built s' = ms_built s"
    and "\<And>v t. ms_objects s' (pr_Name t) = Some (v, t) \<Longrightarrow> ms_objects s (pr_Name t) = Some (v, t)"
    and "\<And>v t. ms_objects s' (pr_Name t) = Some (v, t) \<Longrightarrow> cached_as s t \<Longrightarrow> cached_as s' t"
  shows "worker_ok s'"
  using assms by (cases "ms_worker s") (simp_all add: worker_ok_def)

lemma handled_built_mono:
  assumes "model_inv s" and "ms_built s' = ms_built s"
    and "\<And>n e. ms_objects s' n = Some e \<Longrightarrow> ms_objects s n = Some e"
    and "\<And>v t. ms_objects s' (pr_Name t) = Some (v, t) \<Longrightarrow> cached_as s t \<Longrightarrow> cached_as s' t"
  shows "handled_built s'"
  unfolding handled_built_def
proof (intro allI impI)
  fix n v t
  assume a: "ms_objects s' n = Some (v, t)" "\<not> pr_DeletionTimestamp t" "pr_ObservedGeneration t = pr_Generation t"
  note old = assms(3)[OF a(1)]
  have "cached_as s t \<and> registration t \<in> set (ms_built s)"
    using model_invD(5)[OF assms(1), unfolded handled_built_def, rule_format, OF old] a(2,3) by blast
  moreover have "pr_Name t = n" using entries_okD(1)[OF model_invD(1)[OF assms(1)] old] by blast
  ultimately show "cached_as s' t \<and> registration t \<in> set (ms_built s')" using a(1) assms(2,4) by simp
qed

lemma model_inv_create:
  assumes inv: "model_inv s" and none: "ms_objects s n = None" "ms_owner s (pr_UID p) = None" and name: "pr_Name p = n"
    and gen: "pr_ObservedGeneration p < pr_Generation p" and "n \<noteq> []"
  shows "model_inv (store_pr (s\<lparr>ms_owner := (ms_owner s)(pr_UID p \<mapsto> n)\<rparr>) n p)" (is "model_inv (store_pr ?s n p)")
proof -
  note E = model_invD(1)[OF inv]
  have E': "entries_ok ?s" using E none(2) by (rule entries_ok_owner)
  have cached: "cached_as ?s q = cached_as s q" for q by (simp add: cached_as_def)
  have uid: "pr_UID c \<noteq> pr_UID p" if "ms_cache s n = Some (v, c)" for v c using entries_okD(2)[OF E that] none(2) by auto
  have "lagging (store_pr s n p)"
    using E model_invD(2)[OF inv]
  proof (rule lagging_store)
    fix v and c :: ProtectedResourceObject
    assume "ms_owner s (pr_UID c) = Some n" "v \<le> ms_version s"
    then show "earlier (v, c) (Suc (ms_version s), p)" using none(2) by (auto simp: earlier_def)
  qed
  then have "lagging (store_pr ?s n p)" by (simp add: lagging_def)
  moreover have "entries_ok (store_pr ?s n p)" using E' name by (rule entries_ok_store) simp
  moreover have "worker_ok ?s" by (rule worker_ok_mono[OF model_invD(4)[OF inv]]) (simp_all add: cached)
  then have "worker_ok (store_pr ?s n p)" by (rule worker_ok_store[OF E'])
  moreover have "observed_le (store_pr ?s n p)"
    using model_invD(3)[OF inv] gen \<open>n \<noteq> []\<close> by (intro observed_le_store) (simp_all add: observed_le_def)
  moreover have "handled_built (store_pr ?s n p)"
    using model_invD(5)[OF inv] gen by (intro handled_built_store) (simp_all add: handled_built_def cached)
  moreover have "pending (store_pr ?s n p)"
    using model_invD(6)[OF inv] uid by (intro pending_store) (auto simp: pending_def)
  ultimately show ?thesis by (simp add: model_inv_def)
qed

lemma model_inv_vanish:
  assumes "model_inv s"
  shows "model_inv (s\<lparr>ms_objects := (ms_objects s)(n := None)\<rparr>)" (is "model_inv ?s")
proof -
  have cached: "cached_as ?s q = cached_as s q" for q by (simp add: cached_as_def)
  have old: "ms_objects s m = Some e" if "ms_objects ?s m = Some e" for m e using that by (auto split: if_splits)
  have "worker_ok ?s" by (rule worker_ok_mono[OF model_invD(4)[OF assms]]) (use old cached in auto)
  moreover have "handled_built ?s" by (rule handled_built_mono[OF assms]) (use old cached in auto)
  ultimately show ?thesis using model_invD[OF assms]
    by (simp add: model_inv_def model_inv_parts)
qed

lemma earlier_refl [simp]: "earlier e e"
  by (simp add: earlier_def split: prod.splits)

lemma model_inv_cache:
  assumes inv: "model_inv s" and obj: "ms_objects s n = Some (v, p)" and "ms_queue s \<subseteq> q"
    and pend: "\<not> pr_DeletionTimestamp p \<Longrightarrow> pr_ObservedGeneration p \<noteq> pr_Generation p \<Longrightarrow>
      n \<in> q \<or> handling (ms_worker s) \<and> worker_name (ms_worker s) = n"
  shows "model_inv (s\<lparr>ms_cache := (ms_cache s)(n \<mapsto> (v, p)), ms_queue := q\<rparr>)" (is "model_inv ?s")
proof -
  note p = entries_okD(1)[OF model_invD(1)[OF inv] obj]
  have cached: "cached_as ?s t" if "ms_objects s (pr_Name t) = Some (w, t)" "cached_as s t" for w t
    using that obj by (cases "pr_Name t = n") (simp_all add: cached_as_def)
  have "worker_ok ?s" by (rule worker_ok_mono[OF model_invD(4)[OF inv]]) (use cached in auto)
  moreover have "entries_ok ?s" using model_invD(1)[OF inv] p by (auto simp: entries_ok_def entry_ok_def)
  moreover have "lagging ?s" using model_invD(2)[OF inv] obj by (auto simp: lagging_def)
  moreover have "observed_le ?s" using model_invD(3)[OF inv] by (simp add: observed_le_def)
  moreover have "handled_built ?s" by (rule handled_built_mono[OF inv]) (use cached in auto)
  moreover have "pending ?s"
    unfolding pending_def
  proof (intro allI impI)
    fix m w t w' c
    assume a: "ms_objects ?s m = Some (w, t)" "\<not> pr_DeletionTimestamp t" "pr_ObservedGeneration t \<noteq> pr_Generation t"
      "ms_cache ?s m = Some (w', c)" "pr_UID c = pr_UID t" "pr_Generation c = pr_Generation t"
    show "m \<in> ms_queue ?s \<or> handling (ms_worker ?s) \<and> worker_name (ms_worker ?s) = m"
    proof (cases "m = n")
      case True
      then show ?thesis using a obj pend by auto
    next
      case False
      then have "m \<in> ms_queue s \<or> handling (ms_worker s) \<and> worker_name (ms_worker s) = m"
        using model_invD(6)[OF inv] a unfolding pending_def by simp
      then show ?thesis using assms(3) by auto
    qed
  qed
  ultimately show ?thesis by (simp add: model_inv_def)
qed

lemma model_inv_uncache:
  assumes inv: "model_inv s" and "ms_cache s n = Some (v', c)" and "\<forall>v p. ms_objects s n = Some (v, p) \<longrightarrow> pr_UID p \<noteq> pr_UID c"
  shows "model_inv (s\<lparr>ms_cache := (ms_cache s)(n := None), ms_queue := insert n (ms_queue s)\<rparr>)" (is "model_inv ?s")
proof -
  have cached: "cached_as ?s t" if "ms_objects s (pr_Name t) = Some (w, t)" "cached_as s t" for w t
    using that assms(2,3) by (auto simp: cached_as_def registration_eq_iff)
  have "worker_ok ?s" by (rule worker_ok_mono[OF model_invD(4)[OF inv]]) (use cached in auto)
  moreover have "handled_built ?s" by (rule handled_built_mono[OF inv]) (use cached in auto)
  moreover have "pending ?s" using model_invD(6)[OF inv] by (auto simp: pending_def)
  ultimately show ?thesis using model_invD[OF inv] by (simp add: model_inv_def entries_ok_def entry_ok_def lagging_def observed_le_def)
qed


lemma model_inv_restart:
  assumes inv: "model_inv s"
  shows "model_inv (s\<lparr>ms_cache := ms_objects s, ms_worker := Idle,
    ms_queue := insert [] {n. \<exists>v p. ms_objects s n = Some (v, p) \<and> pr_CreateFunc CF True (Some p)}\<rparr>)" (is "model_inv ?s")
proof -
  have cached: "cached_as ?s t" if "ms_objects s (pr_Name t) = Some (w, t)" for w t using that by (simp add: cached_as_def)
  have "handled_built ?s" by (rule handled_built_mono[OF inv]) (use cached in auto)
  moreover have "pending ?s" by (auto simp: pending_def pr_CreateFunc_def)
  moreover have "worker_ok ?s" by (simp add: worker_ok_def)
  ultimately show ?thesis using model_invD(1,2,3)[OF inv]
    by (simp add: model_inv_def entries_ok_def entry_ok_def lagging_def observed_le_def)
qed

lemma model_inv_work:
  assumes inv: "model_inv s"
    and held: "\<And>v t. held_pr k = Some (v, t) \<Longrightarrow> ms_cache s (pr_Name t) = Some (v, t) \<or> held_pr (ms_worker s) = Some (v, t) \<or>
      ms_objects s (pr_Name t) = Some (v, t)"
    and work: "worker_ok (s\<lparr>ms_queue := q, ms_worker := k, ms_built := b\<rparr>)"
    and built: "\<And>n v p. ms_objects s n = Some (v, p) \<Longrightarrow> \<not> pr_DeletionTimestamp p \<Longrightarrow> cached_as s p \<Longrightarrow>
      registration p \<in> set (ms_built s) \<Longrightarrow> registration p \<in> set b"
    and pend: "pending (s\<lparr>ms_queue := q, ms_worker := k, ms_built := b\<rparr>)"
  shows "model_inv (s\<lparr>ms_queue := q, ms_worker := k, ms_built := b\<rparr>)" (is "model_inv ?s")
proof -
  note E = model_invD(1)[OF inv]
  have "entries_ok ?s"
  proof (rule entries_okI)
    fix v t
    assume "held_pr (ms_worker ?s) = Some (v, t)"
    then have "ms_cache s (pr_Name t) = Some (v, t) \<or> held_pr (ms_worker s) = Some (v, t) \<or> ms_objects s (pr_Name t) = Some (v, t)"
      by (simp add: held)
    then have "v \<le> ms_version s \<and> ms_owner s (pr_UID t) = Some (pr_Name t)" using entries_okD[OF E] by metis
    then show "v \<le> ms_version ?s \<and> ms_owner ?s (pr_UID t) = Some (pr_Name t)" by simp
  qed (simp_all add: entries_okD[OF E])
  moreover have "lagging ?s"
  proof -
    have "earlier e e'" if "ms_objects s n = Some e'" "held_pr k = Some e" "pr_Name (snd e) = n" for n e e'
    proof -
      obtain v t where e: "e = (v, t)" by fastforce
      have "ms_cache s n = Some e \<or> held_pr (ms_worker s) = Some e \<or> ms_objects s n = Some e" using held[of v t] that unfolding e by simp
      moreover have "earlier e e'" if "ms_objects s n = Some e" using that \<open>ms_objects s n = Some e'\<close> by simp
      ultimately show ?thesis using model_invD(2)[OF inv] that(1,3) unfolding lagging_def by metis
    qed
    then show ?thesis using model_invD(2)[OF inv] by (simp add: lagging_def)
  qed
  moreover have "handled_built ?s"
    unfolding handled_built_def
  proof (intro allI impI)
    fix n v t
    assume a: "ms_objects ?s n = Some (v, t)" "\<not> pr_DeletionTimestamp t" "pr_ObservedGeneration t = pr_Generation t"
    then have obj: "ms_objects s n = Some (v, t)" by simp
    have c: "cached_as s t \<and> registration t \<in> set (ms_built s)"
      using model_invD(5)[OF inv, unfolded handled_built_def, rule_format, OF obj] a(2,3) by blast
    then have "registration t \<in> set b" using built[OF obj a(2)] by blast
    with c show "cached_as ?s t \<and> registration t \<in> set (ms_built ?s)" by (simp add: cached_as_def)
  qed
  ultimately show ?thesis using work pend model_invD(3)[OF inv] by (simp add: model_inv_def observed_le_def)
qed

lemma cached_active:
  assumes "cached_as s p" and "\<not> pr_DeletionTimestamp p" and "set prs = cached_prs s"
  shows "registration p \<in> set (active_resources prs)"
proof -
  from assms(1) obtain v c where c: "ms_cache s (pr_Name p) = Some (v, c)" "registration c = registration p" by (auto simp: cached_as_def)
  then have "c \<in> set prs" "\<not> pr_DeletionTimestamp c" using assms(2,3) by (auto simp: cached_prs_def registration_eq_iff)
  then have "registration c \<in> set (active_resources prs)" by (simp add: active_resources_def)
  then show ?thesis using c(2) by simp
qed

lemma cached_remaining:
  assumes "cached_as s p" and "pr_UID p \<noteq> pr_UID t" and "set prs = cached_prs s"
  shows "registration p \<in> set (remaining_resources t prs)"
proof -
  from assms(1) obtain v c where c: "ms_cache s (pr_Name p) = Some (v, c)" "registration c = registration p" by (auto simp: cached_as_def)
  then have "c \<in> set prs" "pr_UID c \<noteq> pr_UID t" using assms(2,3) by (auto simp: cached_prs_def registration_eq_iff)
  then have "registration c \<in> set (remaining_resources t prs)" by (simp add: remaining_resources_def)
  then show ?thesis using c(2) by simp
qed

lemma held_deleting:
  assumes inv: "model_inv s" and "held_pr (ms_worker s) = Some (v, t)" and "pr_DeletionTimestamp t"
    and "ms_objects s n = Some (w, p)" and "\<not> pr_DeletionTimestamp p"
  shows "pr_UID p \<noteq> pr_UID t"
proof
  assume uid: "pr_UID p = pr_UID t"
  then have n: "pr_Name t = n"
    using entries_okD(1)[OF model_invD(1)[OF inv] assms(4)] entries_okD(3)[OF model_invD(1)[OF inv] assms(2)] by simp
  have "earlier (v, t) (w, p)" using model_invD(2)[OF inv] assms(2,4) n by (simp add: lagging_def)
  then show False using assms(3,5) uid by (simp add: earlier_def)
qed


text \<open>The worker's own writes: the version read is the version stored.\<close>

lemma held_current:
  assumes inv: "model_inv s" and "held_pr (ms_worker s) = Some (v, t)" and "ms_objects s (pr_Name t) = Some (v, p)"
  shows "p = t"
proof -
  have "earlier (v, t) (v, p)" using model_invD(2)[OF inv] assms(2,3) unfolding lagging_def by (metis snd_conv)
  then show ?thesis by (simp add: earlier_def)
qed

lemma pending_requeue:
  assumes "pending s"
  shows "pending (s\<lparr>ms_queue := insert (worker_name (ms_worker s)) (ms_queue s), ms_worker := Idle\<rparr>)"
  using assms unfolding pending_def by simp blast

text \<open>A worker that stops after the resource it handles has been recorded leaves nothing pending.\<close>

lemma pending_idle:
  assumes "pending s" and "\<And>v p. ms_objects s (worker_name (ms_worker s)) = Some (v, p) \<Longrightarrow> handling (ms_worker s) \<Longrightarrow>
    pr_DeletionTimestamp p \<or> pr_ObservedGeneration p = pr_Generation p"
  shows "pending (s\<lparr>ms_worker := Idle\<rparr>)"
  using assms unfolding pending_def by simp blast

lemma begin_work_inv:
  assumes inv: "model_inv s" and idle: "ms_worker s = Idle" and "n \<noteq> []"
  shows "model_inv (s\<lparr>ms_queue := ms_queue s - {n}, ms_worker := begin_work CF (ms_cache s n)\<rparr>)"
proof -
  let ?k = "begin_work CF (ms_cache s n)"
  have name: "pr_Name t = n" if "ms_cache s n = Some (v, t)" for v t using entries_okD(2)[OF model_invD(1)[OF inv] that] by blast
  have "model_inv (s\<lparr>ms_queue := ms_queue s - {n}, ms_worker := ?k, ms_built := ms_built s\<rparr>)" (is "model_inv ?s")
    using inv
  proof (rule model_inv_work)
    fix v t
    assume "held_pr ?k = Some (v, t)"
    then show "ms_cache s (pr_Name t) = Some (v, t) \<or> held_pr (ms_worker s) = Some (v, t) \<or> ms_objects s (pr_Name t) = Some (v, t)"
      using held_begin_work name by metis
  next
    have "cached_as ?s t" if "ms_cache s n = Some (v, t)" for v t using that name[OF that] by (auto simp: cached_as_def)
    then show "worker_ok ?s" by (auto simp: worker_ok_def begin_work_def split: option.splits)
  next
    show "pending ?s"
      unfolding pending_def
    proof (intro allI impI)
      fix m v p v' c
      assume a: "ms_objects ?s m = Some (v, p)" "\<not> pr_DeletionTimestamp p" "pr_ObservedGeneration p \<noteq> pr_Generation p"
        "ms_cache ?s m = Some (v', c)" "pr_UID c = pr_UID p" "pr_Generation c = pr_Generation p"
      show "m \<in> ms_queue ?s \<or> handling (ms_worker ?s) \<and> worker_name (ms_worker ?s) = m"
      proof (cases "m = n")
        case False
        then have "m \<in> ms_queue s"
          using model_invD(6)[OF inv] a idle unfolding pending_def by simp
        then show ?thesis using False by simp
      next
        case True
        have "earlier (v', c) (v, p)" using model_invD(2)[OF inv] a(1,4) by (simp add: lagging_def)
        then have "\<not> pr_DeletionTimestamp c" "pr_ObservedGeneration c \<noteq> pr_Generation c" using a by (auto simp: earlier_def)
        then show ?thesis using a(4) True name[of v' c] by (simp add: begin_work_def worker_name_def)
      qed
    qed
  qed
  then show ?thesis by simp
qed


lemma model_inv_stop:
  assumes inv: "model_inv s"
    and "\<And>v p. ms_objects s (worker_name (ms_worker s)) = Some (v, p) \<Longrightarrow> handling (ms_worker s) \<Longrightarrow>
      pr_DeletionTimestamp p \<or> pr_ObservedGeneration p = pr_Generation p"
  shows "model_inv (s\<lparr>ms_worker := Idle\<rparr>)"
proof -
  have "pending (s\<lparr>ms_worker := Idle\<rparr>)" using model_invD(6)[OF inv] assms(2) by (rule pending_idle)
  then have "model_inv (s\<lparr>ms_queue := ms_queue s, ms_worker := Idle, ms_built := ms_built s\<rparr>)"
    by (intro model_inv_work[OF inv]) (simp_all add: worker_ok_def)
  then show ?thesis by simp
qed

lemma model_inv_rebuild:
  assumes inv: "model_inv s" and held: "held_pr k = held_pr (ms_worker s) \<or> held_pr k = None"
    and same: "handling k = handling (ms_worker s)" "handling k \<Longrightarrow> worker_name k = worker_name (ms_worker s)"
    and work: "worker_ok (s\<lparr>ms_worker := k, ms_built := b\<rparr>)"
    and built: "\<And>n v p. ms_objects s n = Some (v, p) \<Longrightarrow> \<not> pr_DeletionTimestamp p \<Longrightarrow> cached_as s p \<Longrightarrow> registration p \<in> set b"
  shows "model_inv (s\<lparr>ms_built := b, ms_worker := k\<rparr>)"
proof -
  have "pending (s\<lparr>ms_queue := ms_queue s, ms_worker := k, ms_built := b\<rparr>)"
    using model_invD(6)[OF inv] same unfolding pending_def by simp blast
  moreover have "worker_ok (s\<lparr>ms_queue := ms_queue s, ms_worker := k, ms_built := b\<rparr>)" using work by simp
  ultimately have "model_inv (s\<lparr>ms_queue := ms_queue s, ms_worker := k, ms_built := b\<rparr>)"
    using held built by (intro model_inv_work[OF inv]) auto
  moreover have "s\<lparr>ms_queue := ms_queue s, ms_worker := k, ms_built := b\<rparr> = s\<lparr>ms_built := b, ms_worker := k\<rparr>" by (cases s) simp
  ultimately show ?thesis by metis
qed

lemma enqueue_if_cache:
  "enqueue_if b n (s\<lparr>ms_cache := c\<rparr>) = s\<lparr>ms_cache := c, ms_queue := (if b then insert n (ms_queue s) else ms_queue s)\<rparr>"
  by (simp add: enqueue_if_def)

lemma model_inv_watch_update:
  assumes inv: "model_inv s" and "ms_cache s n = Some (v', c)" and obj: "ms_objects s n = Some (v, p)" and "pr_UID c = pr_UID p"
  shows "model_inv (enqueue_if (pr_UpdateFunc CF (Some c) (Some p)) n (s\<lparr>ms_cache := (ms_cache s)(n \<mapsto> (v, p))\<rparr>))"
  unfolding enqueue_if_cache using inv obj
proof (rule model_inv_cache)
  let ?q = "if pr_UpdateFunc CF (Some c) (Some p) then insert n (ms_queue s) else ms_queue s"
  show "ms_queue s \<subseteq> ?q" by auto
  assume "\<not> pr_DeletionTimestamp p" "pr_ObservedGeneration p \<noteq> pr_Generation p"
  then have "pr_Generation c = pr_Generation p \<Longrightarrow> n \<in> ms_queue s \<or> handling (ms_worker s) \<and> worker_name (ms_worker s) = n"
    using model_invD(6)[OF inv] assms(2-4) unfolding pending_def by blast
  moreover have "pr_Generation c \<noteq> pr_Generation p \<Longrightarrow> n \<in> ?q" by (simp add: pr_UpdateFunc_def)
  ultimately show "n \<in> ?q \<or> handling (ms_worker s) \<and> worker_name (ms_worker s) = n"
    by (cases "pr_Generation c = pr_Generation p") auto
qed

lemma model_inv_add_key:
  assumes inv: "model_inv s" and work: "ms_worker s = Adding v t" and obj: "ms_objects s (pr_Name t) = Some (v, p)"
    and t': "t' = t\<lparr>pr_Finalizers := pr_Finalizers t @ [protectedResourceFinalizerKey]\<rparr>"
  shows "model_inv (store_pr s (pr_Name t) t'
    \<lparr>ms_worker := if pr_ObservedGeneration t' = pr_Generation t' then Idle else Rebuilding (Suc (ms_version s)) t'\<rparr>)"
proof -
  let ?s = "store_pr s (pr_Name t) t'" and ?v = "Suc (ms_version s)"
  have p: "p = t" using held_current[OF inv _ obj] work by simp
  have eq: "pr_Name t' = pr_Name t" "registration t' = registration t" "pr_DeletionTimestamp t' = pr_DeletionTimestamp t"
    by (simp_all add: t' ProtectedResource.truncate_def)
  have wt: "\<not> pr_DeletionTimestamp t" "cached_as s t" using model_invD(4)[OF inv] work obj p by (simp_all add: worker_ok_def)
  have inv': "model_inv ?s" using inv obj by (rule model_inv_store) (simp_all add: p t' succeeds_def)
  show ?thesis
  proof (cases "pr_ObservedGeneration t' = pr_Generation t'")
    case True
    have "model_inv (?s\<lparr>ms_worker := Idle\<rparr>)"
      using inv' by (rule model_inv_stop) (use True work in \<open>simp add: worker_name_def\<close>)
    then show ?thesis using True by simp
  next
    case False
    have "model_inv (?s\<lparr>ms_queue := ms_queue ?s, ms_worker := Rebuilding ?v t', ms_built := ms_built ?s\<rparr>)"
      using inv'
    proof (rule model_inv_work)
      show "worker_ok (?s\<lparr>ms_queue := ms_queue ?s, ms_worker := Rebuilding ?v t', ms_built := ms_built ?s\<rparr>)"
        using wt eq by (simp add: worker_ok_def cached_as_def)
      show "pending (?s\<lparr>ms_queue := ms_queue ?s, ms_worker := Rebuilding ?v t', ms_built := ms_built ?s\<rparr>)"
        using model_invD(6)[OF inv'] work eq unfolding pending_def by (simp add: worker_name_def)
    qed (use eq in simp_all)
    then show ?thesis using False by (simp del: store_pr_simps)
  qed
qed


lemma model_inv_record:
  assumes inv: "model_inv s" and work: "ms_worker s = Recording v t" and obj: "ms_objects s (pr_Name t) = Some (v, p)"
  shows "model_inv (store_pr s (pr_Name t) (observed f True re m t)\<lparr>ms_worker := Idle\<rparr>)"
proof -
  let ?t = "observed f True re m t"
  have p: "p = t" using held_current[OF inv _ obj] work by simp
  have reg: "registration ?t = registration t" by (simp add: registration_eq_iff)
  have "cached_as s t \<and> registration t \<in> set (ms_built s)" using model_invD(4)[OF inv] work obj p by (simp add: worker_ok_def)
  then have "cached_as s ?t \<and> registration ?t \<in> set (ms_built s)" by (simp add: cached_as_def reg)
  then have "model_inv (store_pr s (pr_Name t) ?t)"
    by (intro model_inv_store[OF inv obj]) (simp_all add: p succeeds_def)
  then show ?thesis by (rule model_inv_stop) (use work in \<open>simp add: worker_name_def\<close>)
qed

lemma model_step_inv:
  assumes "model_step CF sc s s'" and inv: "model_inv s"
  shows "model_inv s'"
  using assms(1)
proof (cases rule: model_step.cases)
  case (create n p)
  then show ?thesis using model_inv_create[OF inv, of n p] by simp
next
  case (change n v p p')
  then have "succeeds p p'" using entries_okD(1)[OF model_invD(1)[OF inv], of n v p] by (simp add: succeeds_def)
  with change show ?thesis using model_inv_store[OF inv, of n v p p'] by simp
next
  case (vanish n v p)
  then show ?thesis using model_inv_vanish[OF inv] by simp
next
  case (watch_create n v p)
  then have "model_inv (s\<lparr>ms_cache := (ms_cache s)(n \<mapsto> (v, p)), ms_queue := insert n (ms_queue s)\<rparr>)"
    by (intro model_inv_cache[OF inv]) auto
  then show ?thesis using watch_create by (simp add: enqueue_if_cache pr_CreateFunc_def)
next
  case (watch_update n v' c v p)
  then show ?thesis using model_inv_watch_update[OF inv] by simp
next
  case (watch_delete n v' c)
  then show ?thesis using model_inv_uncache[OF inv] by (simp add: enqueue_if_cache)
next
  case restart
  then show ?thesis using model_inv_restart[OF inv] by simp
next
  case take_startup
  have "m \<noteq> []" if "ms_objects s m = Some e" for m e using model_invD(3)[OF inv] that by (cases e) (auto simp: observed_le_def)
  then have "pending (s\<lparr>ms_queue := ms_queue s - {[]}, ms_worker := Starting, ms_built := ms_built s\<rparr>)"
    using model_invD(6)[OF inv] take_startup(2) unfolding pending_def by simp
  then have "model_inv (s\<lparr>ms_queue := ms_queue s - {[]}, ms_worker := Starting, ms_built := ms_built s\<rparr>)"
    by (intro model_inv_work[OF inv]) (simp_all add: worker_ok_def)
  then show ?thesis using take_startup by simp
next
  case (take_item n)
  then show ?thesis using begin_work_inv[OF inv] by simp
next
  case (add_key v t p t')
  then show ?thesis using model_inv_add_key[OF inv] by simp
next
  case (rebuild v t prs)
  have "model_inv (s\<lparr>ms_built := active_resources prs, ms_worker := Recording v t\<rparr>)"
    using model_invD(4)[OF inv] rebuild(2,3) cached_active[of s _ prs]
    by (intro model_inv_rebuild[OF inv]) (auto simp: worker_ok_def worker_name_def cached_as_def)
  then show ?thesis using rebuild by simp
next
  case (rebuild_startup prs)
  have "model_inv (s\<lparr>ms_built := active_resources prs, ms_worker := Idle\<rparr>)"
    using rebuild_startup(2,3) cached_active[of s _ prs] by (intro model_inv_rebuild[OF inv]) (auto simp: worker_ok_def)
  then show ?thesis using rebuild_startup by simp
next
  case (record_status v t p)
  then show ?thesis using model_inv_record[OF inv] by simp
next
  case (rebuild_without v t prs)
  have del: "pr_DeletionTimestamp t" using model_invD(4)[OF inv] rebuild_without(2) by (simp add: worker_ok_def)
  have "model_inv (s\<lparr>ms_built := remaining_resources t prs, ms_worker := Releasing v t\<rparr>)"
  proof (rule model_inv_rebuild[OF inv])
    fix n w p
    assume "ms_objects s n = Some (w, p)" "\<not> pr_DeletionTimestamp p" "cached_as s p"
    then show "registration p \<in> set (remaining_resources t prs)"
      using cached_remaining[OF _ held_deleting[OF inv _ del]] rebuild_without(2,3) by simp
  qed (use rebuild_without(2) del in \<open>simp_all add: worker_ok_def\<close>)
  then show ?thesis using rebuild_without by simp
next
  case (release_pr v t p t')
  have p: "p = t" using held_current[OF inv _ release_pr(3)] release_pr(2) by simp
  have "model_inv (store_pr s (pr_Name t) t')"
    using inv release_pr(3) by (rule model_inv_store) (simp_all add: p release_pr(4) succeeds_def)
  then have "model_inv (store_pr s (pr_Name t) t'\<lparr>ms_worker := Idle\<rparr>)"
    by (rule model_inv_stop) (use release_pr(2) in simp)
  then show ?thesis using release_pr by simp
next
  case fail
  have "model_inv (s\<lparr>ms_queue := insert (worker_name (ms_worker s)) (ms_queue s), ms_worker := Idle, ms_built := ms_built s\<rparr>)"
    using pending_requeue[OF model_invD(6)[OF inv]] by (intro model_inv_work[OF inv]) (simp_all add: worker_ok_def)
  then show ?thesis using fail by simp
qed

lemma model_reachable_inv:
  assumes "model_reachable CF sc s"
  shows "model_inv s"
proof -
  from assms obtain s0 where start: "model_start s0" and steps: "(model_step CF sc)\<^sup>*\<^sup>* s0 s" by (auto simp: model_reachable_def)
  from steps show ?thesis
  proof (induction rule: rtranclp_induct)
    case base
    show ?case using start by (simp add: model_start_def model_inv_def model_inv_parts worker_ok_def)
  next
    case (step s s')
    then show ?case using model_step_inv by blast
  qed
qed


section \<open>What the controller guarantees\<close>

text \<open>
  C8. However changes of the resources, the watch, restarts and the worker interleave, a
  ProtectedResource that is not being deleted and whose current generation is recorded as
  handled is, with its current specification, among the registrations the stored model was
  last built from.
\<close>

theorem handled_resources_in_model:
  assumes "model_reachable CF set_cond s" and "ms_objects s n = Some (v, p)" and "\<not> pr_DeletionTimestamp p"
    and "pr_ObservedGeneration p = pr_Generation p"
  shows "registration p \<in> set (ms_built s)"
  using model_invD(5)[OF model_reachable_inv[OF assms(1)]] assms(2-4) unfolding handled_built_def by blast

text \<open>
  C19. No ProtectedResource is forgotten: in every reachable state, one that is not being
  deleted and whose current generation is not yet handled is queued or in the hands of the
  worker, unless the watch has not yet delivered that generation.
\<close>

theorem unhandled_resources_pending:
  assumes "model_reachable CF set_cond s" and "ms_objects s n = Some (v, p)" and "\<not> pr_DeletionTimestamp p"
    and "pr_ObservedGeneration p \<noteq> pr_Generation p"
    and "ms_cache s n = Some (v', c)" and "pr_UID c = pr_UID p" and "pr_Generation c = pr_Generation p"
  shows "n \<in> ms_queue s \<or> handling (ms_worker s) \<and> worker_name (ms_worker s) = n"
  using model_invD(6)[OF model_reachable_inv[OF assms(1)]] assms(2-7) unfolding pending_def by blast

section \<open>An example\<close>

text \<open>A resource is created, delivered, taken up, built into the model and recorded.\<close>

definition contains_key :: "ProtectedResourceObject \<Rightarrow> string \<Rightarrow> bool" where
  "contains_key p f \<longleftrightarrow> f \<in> set (pr_Finalizers p)"

definition org_pr :: ProtectedResourceObject where
  "org_pr = unhandled (example_pr ''rm.io'' ''Org'' ''orgs'' [''get''] [])"

definition created_state :: model_state where
  "created_state = \<lparr>ms_objects = [''orgs'' \<mapsto> (1, org_pr)], ms_cache = (\<lambda>_. None), ms_version = 1, ms_owner = [''orgs'' \<mapsto> ''orgs''],
     ms_queue = {}, ms_worker = Idle, ms_built = []\<rparr>"

definition watched_state :: model_state where
  "watched_state = created_state\<lparr>ms_cache := [''orgs'' \<mapsto> (1, org_pr)], ms_queue := {''orgs''}\<rparr>"

definition recorded_state :: model_state where
  "recorded_state = store_pr (created_state\<lparr>ms_cache := [''orgs'' \<mapsto> (1, org_pr)], ms_built := [registration org_pr]\<rparr>) ''orgs''
     (observed put_condition True ''IAMSystemConfigured'' ''Resource is configured to be protected by the IAM system.'' org_pr)"

lemma org_pr_simps [simp]:
  "pr_Name org_pr = ''orgs''" "pr_UID org_pr = ''orgs''" "\<not> pr_DeletionTimestamp org_pr"
  "pr_Generation org_pr = 1" "pr_ObservedGeneration org_pr = 0" "contains_key org_pr protectedResourceFinalizerKey"
  by (simp_all add: org_pr_def example_pr_def contains_key_def)

lemma watched_reachable: "model_reachable contains_key put_condition watched_state"
proof -
  let ?s0 = "\<lparr>ms_objects = (\<lambda>_. None), ms_cache = (\<lambda>_. None), ms_version = 0, ms_owner = (\<lambda>_. None), ms_queue = {}, ms_worker = Idle,
    ms_built = []\<rparr>"
  have "model_step contains_key put_condition ?s0 created_state"
    using model_step.create[of ?s0 "''orgs''" org_pr contains_key put_condition] by (simp add: store_pr_def created_state_def)
  moreover have "model_step contains_key put_condition created_state watched_state"
    using model_step.watch_create[of created_state "''orgs''" 1 org_pr contains_key put_condition]
    by (simp add: enqueue_if_def pr_CreateFunc_def created_state_def watched_state_def)
  ultimately have "(model_step contains_key put_condition)\<^sup>*\<^sup>* ?s0 watched_state"
    by (rule converse_rtranclp_into_rtranclp[OF _ r_into_rtranclp])
  moreover have "model_start ?s0" by (simp add: model_start_def)
  ultimately show ?thesis unfolding model_reachable_def by blast
qed

lemma recorded_reachable: "model_reachable contains_key put_condition recorded_state"
proof -
  let ?s1 = "watched_state\<lparr>ms_queue := {}, ms_worker := Rebuilding 1 org_pr\<rparr>"
  let ?s2 = "?s1\<lparr>ms_built := [registration org_pr], ms_worker := Recording 1 org_pr\<rparr>"
  have t: "model_step contains_key put_condition watched_state ?s1"
    using model_step.take_item[of watched_state "''orgs''" contains_key put_condition]
    by (simp add: watched_state_def created_state_def begin_work_def)
  have "set [org_pr] = cached_prs ?s1" by (auto simp: cached_prs_def watched_state_def split: if_splits)
  then have b: "model_step contains_key put_condition ?s1 ?s2"
    using model_step.rebuild[of ?s1 1 org_pr "[org_pr]" contains_key put_condition] by (simp add: active_resources_def)
  have r: "model_step contains_key put_condition ?s2 recorded_state"
    using model_step.record_status[of ?s2 1 org_pr org_pr contains_key put_condition]
    by (simp add: watched_state_def created_state_def recorded_state_def store_pr_def)
  from watched_reachable obtain s0 where s0: "model_start s0" "(model_step contains_key put_condition)\<^sup>*\<^sup>* s0 watched_state"
    by (auto simp: model_reachable_def)
  have "(model_step contains_key put_condition)\<^sup>*\<^sup>* s0 recorded_state"
    using rtranclp.rtrancl_into_rtrancl[OF rtranclp.rtrancl_into_rtrancl[OF rtranclp.rtrancl_into_rtrancl[OF s0(2) t] b] r] .
  then show ?thesis using s0(1) unfolding model_reachable_def by blast
qed

theorem handled_resources_in_model_witness:
  "registration (observed put_condition True ''IAMSystemConfigured'' ''Resource is configured to be protected by the IAM system.'' org_pr)
     \<in> set (ms_built recorded_state)"
  by (rule handled_resources_in_model[OF recorded_reachable, of "''orgs''" 2]) (simp_all add: recorded_state_def created_state_def)

theorem unhandled_resources_pending_witness:
  "''orgs'' \<in> ms_queue watched_state \<or> handling (ms_worker watched_state) \<and> worker_name (ms_worker watched_state) = ''orgs''"
  by (rule unhandled_resources_pending[OF watched_reachable, of "''orgs''" 1 org_pr 1 org_pr])
     (simp_all add: watched_state_def created_state_def)

end
