(* ===== verification/Webhook_Caches.thy ===== *)
theory Webhook_Caches
  imports Model_Reconciler
begin

text \<open>
  The in-memory state of the authorization webhook, kept current by informer events:
  the index of ProtectedResources (\<open>protectedresource_cache.go\<close>), the authorization
  model ID (\<open>model_id_watcher.go\<close>) and the expiry of the discovery cache
  (\<open>discovery.go\<close>). Two interfaces are stated as locales and interpreted here: an
  index keyed by a function of its entries, and a provider of the model ID as the tuple
  writer of \<open>model_transition.go\<close> uses it.
\<close>

section \<open>protectedresource_cache.go\<close>

text \<open>The index is a map guarded by a mutex; each operation is one critical section.\<close>

record ProtectedResourceCache =
  index :: "(string \<times> ProtectedResource) list"

definition cacheKey :: "string \<Rightarrow> string \<Rightarrow> string" where
  "cacheKey apiGroup plural = apiGroup @ ''/'' @ plural"

definition pr_key :: "ProtectedResource \<Rightarrow> string" where
  "pr_key pr = cacheKey (ServiceRef_Name (pr_Spec pr)) (spec_Plural (pr_Spec pr))"

definition empty_cache :: ProtectedResourceCache where
  "empty_cache = \<lparr>index = []\<rparr>"

definition GetByAPIGroupAndResource :: "ProtectedResourceCache \<Rightarrow> string \<Rightarrow> string \<Rightarrow> ProtectedResource option" where
  "GetByAPIGroupAndResource c apiGroup resource = map_of (index c) (cacheKey apiGroup resource)"

definition upsert :: "ProtectedResourceCache \<Rightarrow> ProtectedResource \<Rightarrow> ProtectedResourceCache" where
  "upsert c pr = c\<lparr>index := AList.update (pr_key pr) pr (index c)\<rparr>"

definition delete_entry :: "ProtectedResourceCache \<Rightarrow> ProtectedResource \<Rightarrow> ProtectedResourceCache" where
  "delete_entry c pr = c\<lparr>index := AList.delete (pr_key pr) (index c)\<rparr>"

text \<open>What an informer hands to an event handler: an object, a tombstone around one, or something else.\<close>

datatype 'a informer_object = Object 'a | Tombstone "'a informer_object" | Unexpected

definition AddFunc :: "ProtectedResourceCache \<Rightarrow> ProtectedResource informer_object \<Rightarrow> ProtectedResourceCache" where
  "AddFunc c obj = (case obj of Object pr \<Rightarrow> upsert c pr | _ \<Rightarrow> c)"

definition UpdateFunc ::
    "ProtectedResourceCache \<Rightarrow> ProtectedResource informer_object \<Rightarrow> ProtectedResource informer_object \<Rightarrow> ProtectedResourceCache" where
  "UpdateFunc c oldObj newObj =
     (case newObj of
        Object pr \<Rightarrow>
          upsert (case oldObj of
              Object old \<Rightarrow> if pr_key old \<noteq> pr_key pr then delete_entry c old else c
            | _ \<Rightarrow> c) pr
      | _ \<Rightarrow> c)"

definition DeleteFunc :: "ProtectedResourceCache \<Rightarrow> ProtectedResource informer_object \<Rightarrow> ProtectedResourceCache" where
  "DeleteFunc c obj =
     (case obj of
        Object pr \<Rightarrow> delete_entry c pr
      | Tombstone (Object pr) \<Rightarrow> delete_entry c pr
      | _ \<Rightarrow> c)"

definition newProtectedResourceCacheFromItems :: "ProtectedResource list \<Rightarrow> ProtectedResourceCache" where
  "newProtectedResourceCacheFromItems items = foldl upsert empty_cache items"

section \<open>model_id_watcher.go\<close>

record AuthorizationModelIDWatcher =
  modelID :: "string option"
  configMapName :: string

definition NewAuthorizationModelIDWatcher :: "string \<Rightarrow> string \<Rightarrow> AuthorizationModelIDWatcher result" where
  "NewAuthorizationModelIDWatcher name seedModelID =
     (if name = [] then Inl (ErrorString ''configMapName is required'')
      else Inr \<lparr>modelID = (if seedModelID \<noteq> [] then Some seedModelID else None), configMapName = name\<rparr>)"

definition Watcher_GetModelID :: "AuthorizationModelIDWatcher \<Rightarrow> string" where
  "Watcher_GetModelID w = (case modelID w of None \<Rightarrow> [] | Some v \<Rightarrow> v)"

definition Watcher_SetModelID :: "AuthorizationModelIDWatcher \<Rightarrow> string \<Rightarrow> AuthorizationModelIDWatcher" where
  "Watcher_SetModelID w i = (if i = [] \<or> Watcher_GetModelID w = i then w else w\<lparr>modelID := Some i\<rparr>)"

record ConfigMap =
  cm_Name :: string
  cm_Data :: "(string \<times> string) list"

definition handleConfigMap :: "AuthorizationModelIDWatcher \<Rightarrow> ConfigMap informer_object \<Rightarrow> AuthorizationModelIDWatcher" where
  "handleConfigMap w obj =
     (case (case obj of Object cm \<Rightarrow> Some cm | Tombstone (Object cm) \<Rightarrow> Some cm | _ \<Rightarrow> None) of
        None \<Rightarrow> w
      | Some cm \<Rightarrow>
          if cm_Name cm \<noteq> configMapName w then w
          else (case map_of (cm_Data cm) AuthorizationModelIDKey of
              None \<Rightarrow> w
            | Some i \<Rightarrow> if i = [] then w
                        else if Watcher_GetModelID w = i then w
                        else w\<lparr>modelID := Some i\<rparr>))"

section \<open>discovery.go\<close>

text \<open>
  Times are integers on a monotone clock. \<open>loadedAt = None\<close> is the zero time; the
  wrapped client's cache is its own state \<open>'c\<close> with an \<open>invalidate\<close> operation.
\<close>

record 'c ExpiringDiscoveryClient =
  cached :: 'c
  ttl :: int
  loadedAt :: "int option"

definition expire :: "('c \<Rightarrow> 'c) \<Rightarrow> int \<Rightarrow> 'c ExpiringDiscoveryClient \<Rightarrow> 'c ExpiringDiscoveryClient" where
  "expire invalidate now c =
     (case loadedAt c of
        None \<Rightarrow> c\<lparr>loadedAt := Some now\<rparr>
      | Some t \<Rightarrow> if now - t \<ge> ttl c then c\<lparr>cached := invalidate (cached c), loadedAt := Some now\<rparr> else c)"

text \<open>Every query expires first and then asks the wrapped client.\<close>

definition discovery_query ::
    "('c \<Rightarrow> 'c) \<Rightarrow> ('c \<Rightarrow> 'r \<times> 'c) \<Rightarrow> int \<Rightarrow> 'c ExpiringDiscoveryClient \<Rightarrow> 'r \<times> 'c ExpiringDiscoveryClient" where
  "discovery_query invalidate query now c =
     (let c = expire invalidate now c in
      case query (cached c) of (r, d) \<Rightarrow> (r, c\<lparr>cached := d\<rparr>))"

section \<open>The index interface\<close>

text \<open>
  An index keyed by \<open>key\<close>, following the objects of an informer: \<open>live\<close> maps the
  name of each object that exists to its current version. Nothing keeps two objects
  from sharing a key. The index is sound when every entry is the current version of a
  live object with that key; it is complete for a key when it has an entry for every
  live object with it, which needs the key to have at most one owner.
\<close>

locale keyed_index =
  fixes lookup :: "'c \<Rightarrow> 'k \<Rightarrow> 'a option" and insert_entry :: "'c \<Rightarrow> 'a \<Rightarrow> 'c" and remove_entry :: "'c \<Rightarrow> 'a \<Rightarrow> 'c"
    and key :: "'a \<Rightarrow> 'k" and empty_index :: 'c
  assumes lookup_empty: "lookup empty_index k = None"
    and lookup_insert: "lookup (insert_entry c x) k = (if k = key x then Some x else lookup c k)"
    and lookup_remove: "lookup (remove_entry c x) k = (if k = key x then None else lookup c k)"
begin

definition sound :: "('n \<rightharpoonup> 'a) \<Rightarrow> 'c \<Rightarrow> bool" where
  "sound live c \<longleftrightarrow> (\<forall>k x. lookup c k = Some x \<longrightarrow> (\<exists>n. live n = Some x \<and> key x = k))"

definition complete :: "'k \<Rightarrow> ('n \<rightharpoonup> 'a) \<Rightarrow> 'c \<Rightarrow> bool" where
  "complete k live c \<longleftrightarrow> (\<forall>n x. live n = Some x \<longrightarrow> key x = k \<longrightarrow> lookup c k = Some x)"

definition one_owner :: "'k \<Rightarrow> ('n \<rightharpoonup> 'a) \<Rightarrow> bool" where
  "one_owner k live \<longleftrightarrow> (\<forall>n m x y. live n = Some x \<longrightarrow> live m = Some y \<longrightarrow> key x = k \<longrightarrow> key y = k \<longrightarrow> n = m)"

lemma sound_empty: "sound (\<lambda>_. None) empty_index"
  by (simp add: sound_def lookup_empty)

lemma complete_empty: "complete k (\<lambda>_. None) c"
  by (simp add: complete_def)

lemma one_owner_empty: "one_owner k (\<lambda>_. None)"
  by (simp add: one_owner_def)

lemma sound_insert:
  assumes "sound live c" and "\<And>old. live n = Some old \<Longrightarrow> lookup c (key old) = None \<or> key old = key x"
  shows "sound (live(n \<mapsto> x)) (insert_entry c x)"
  unfolding sound_def lookup_insert
proof (intro allI impI)
  fix k y assume y: "(if k = key x then Some x else lookup c k) = Some y"
  show "\<exists>m. (live(n \<mapsto> x)) m = Some y \<and> key y = k"
  proof (cases "k = key x")
    case True
    with y show ?thesis by (auto intro: exI[of _ n])
  next
    case False
    with y have hit: "lookup c k = Some y" by simp
    then obtain m where m: "live m = Some y" "key y = k" using assms(1) unfolding sound_def by blast
    with False hit assms(2)[of y] have "m \<noteq> n" by auto
    with m show ?thesis by (intro exI[of _ m]) simp
  qed
qed

lemma sound_remove:
  assumes "sound live c" and "live n = Some x"
  shows "sound (live(n := None)) (remove_entry c x)"
  unfolding sound_def lookup_remove
proof (intro allI impI)
  fix k y assume y: "(if k = key x then None else lookup c k) = Some y"
  then have "k \<noteq> key x" and "lookup c k = Some y" by (auto split: if_splits)
  with assms(1) obtain m where "live m = Some y" "key y = k" unfolding sound_def by blast
  with \<open>k \<noteq> key x\<close> assms(2) show "\<exists>m. (live(n := None)) m = Some y \<and> key y = k" by (intro exI[of _ m]) auto
qed

lemma complete_insert:
  assumes "complete k live c" and "one_owner k (live(n \<mapsto> x))"
  shows "complete k (live(n \<mapsto> x)) (insert_entry c x)"
  unfolding complete_def lookup_insert
proof (intro allI impI)
  fix m y assume m: "(live(n \<mapsto> x)) m = Some y" "key y = k"
  show "(if k = key x then Some x else lookup c k) = Some y"
  proof (cases "k = key x")
    case True
    with m assms(2) have "m = n" unfolding one_owner_def by (metis fun_upd_same)
    with m True show ?thesis by simp
  next
    case False
    with m have "live m = Some y" by (auto split: if_splits)
    with m(2) False assms(1) show ?thesis by (simp add: complete_def)
  qed
qed

lemma complete_remove:
  assumes "complete k live c" and "live n = Some x" and "one_owner k live"
  shows "complete k (live(n := None)) (remove_entry c x)"
  using assms unfolding complete_def one_owner_def lookup_remove by (auto split: if_splits)

lemma sound_update:
  assumes "sound live c" and "live n = Some old"
  shows "sound (live(n \<mapsto> x)) (insert_entry (if key old \<noteq> key x then remove_entry c old else c) x)"
proof (cases "key old = key x")
  case True
  with assms sound_insert[of live c n x] show ?thesis by simp
next
  case False
  have "sound ((live(n := None))(n \<mapsto> x)) (insert_entry (remove_entry c old) x)"
    by (rule sound_insert[OF sound_remove[OF assms]]) simp
  with False show ?thesis by simp
qed

lemma complete_update:
  assumes "complete k live c" and "live n = Some old" and "one_owner k live" and "one_owner k (live(n \<mapsto> x))"
  shows "complete k (live(n \<mapsto> x)) (insert_entry (if key old \<noteq> key x then remove_entry c old else c) x)"
proof (cases "key old = key x")
  case True
  with complete_insert[OF assms(1,4)] show ?thesis by simp
next
  case False
  have "complete k ((live(n := None))(n \<mapsto> x)) (insert_entry (remove_entry c old) x)"
    by (rule complete_insert[OF complete_remove[OF assms(1-3)]]) (use assms(4) in simp)
  with False show ?thesis by simp
qed

end

interpretation prc: keyed_index
  "\<lambda>c k. map_of (index c) k" upsert delete_entry pr_key empty_cache
  by unfold_locales (auto simp: empty_cache_def upsert_def delete_entry_def update_conv' delete_conv')


section \<open>The cache follows the cluster\<close>

text \<open>
  A state pairs the ProtectedResources that exist in the cluster, by name, with the
  cache; a step is a change in the cluster together with the handler the informer calls
  for it. A deletion may reach the handler inside a tombstone. Several objects may
  declare the same service and plural name.
\<close>

inductive cache_step :: "(string \<rightharpoonup> ProtectedResource) \<times> ProtectedResourceCache \<Rightarrow>
    (string \<rightharpoonup> ProtectedResource) \<times> ProtectedResourceCache \<Rightarrow> bool" where
  created: "live n = None \<Longrightarrow> cache_step (live, c) (live(n \<mapsto> pr), AddFunc c (Object pr))"
| updated: "live n = Some old \<Longrightarrow>
     cache_step (live, c) (live(n \<mapsto> pr), UpdateFunc c (Object old) (Object pr))"
| deleted: "live n = Some pr \<Longrightarrow> obj = Object pr \<or> obj = Tombstone (Object pr) \<Longrightarrow>
     cache_step (live, c) (live(n := None), DeleteFunc c obj)"
| unexpected: "cache_step (live, c) (live, DeleteFunc c Unexpected)"

text \<open>Steps after which at most one live object has the key \<open>k\<close>.\<close>

definition owned_step :: "string \<Rightarrow> (string \<rightharpoonup> ProtectedResource) \<times> ProtectedResourceCache \<Rightarrow>
    (string \<rightharpoonup> ProtectedResource) \<times> ProtectedResourceCache \<Rightarrow> bool" where
  "owned_step k s s' \<longleftrightarrow> cache_step s s' \<and> prc.one_owner k (fst s')"

lemma UpdateFunc_objects:
  "UpdateFunc c (Object old) (Object pr) = upsert (if pr_key old \<noteq> pr_key pr then delete_entry c old else c) pr"
  by (simp add: UpdateFunc_def)

lemma DeleteFunc_object: "obj = Object pr \<or> obj = Tombstone (Object pr) \<Longrightarrow> DeleteFunc c obj = delete_entry c pr"
  by (auto simp: DeleteFunc_def)

lemma DeleteFunc_Unexpected: "DeleteFunc c Unexpected = c"
  by (simp add: DeleteFunc_def)

lemmas handler_simps = AddFunc_def UpdateFunc_objects DeleteFunc_object DeleteFunc_Unexpected

lemma cache_sound_step: "cache_step s s' \<Longrightarrow> prc.sound (fst s) (snd s) \<Longrightarrow> prc.sound (fst s') (snd s')"
proof (induction rule: cache_step.induct)
  case (updated live n old c pr)
  then show ?case unfolding handler_simps fst_conv snd_conv by (blast intro: prc.sound_update)
next
  case (created live n c pr)
  then have "prc.sound (live(n \<mapsto> pr)) (upsert c pr)" by (intro prc.sound_insert) simp_all
  then show ?case by (simp only: AddFunc_def fst_conv snd_conv informer_object.case)
qed (simp_all add: handler_simps prc.sound_remove)

lemma cache_sound: "cache_step\<^sup>*\<^sup>* ((\<lambda>_. None), empty_cache) s \<Longrightarrow> prc.sound (fst s) (snd s)"
proof (induction rule: rtranclp_induct)
  case base
  show ?case by (simp add: prc.sound_empty)
qed (rule cache_sound_step)

lemma cache_complete_step:
  "cache_step s s' \<Longrightarrow> prc.one_owner k (fst s) \<Longrightarrow> prc.one_owner k (fst s') \<Longrightarrow> prc.complete k (fst s) (snd s) \<Longrightarrow>
   prc.complete k (fst s') (snd s')"
proof (induction rule: cache_step.induct)
  case (updated live n old c pr)
  then show ?case unfolding handler_simps fst_conv snd_conv by (blast intro: prc.complete_update)
qed (simp_all add: handler_simps prc.complete_insert prc.complete_remove)

lemma cache_complete:
  "(owned_step k)\<^sup>*\<^sup>* ((\<lambda>_. None), empty_cache) s \<Longrightarrow> prc.one_owner k (fst s) \<and> prc.complete k (fst s) (snd s)"
proof (induction rule: rtranclp_induct)
  case base
  show ?case by (simp add: prc.complete_empty prc.one_owner_empty)
next
  case (step s s')
  then show ?case using cache_complete_step[of s s' k] by (simp add: owned_step_def)
qed

text \<open>
  C15. Through every sequence of creations, updates and deletions of ProtectedResources,
  a cache lookup returns nothing but the current version of a live object with that
  service and plural name, renamed ones included; and as long as no two live objects
  share the looked-up names, it returns that object exactly when there is one.
\<close>

theorem cache_follows_cluster:
  assumes "cache_step\<^sup>*\<^sup>* ((\<lambda>_. None), empty_cache) (live, c)"
  shows "(GetByAPIGroupAndResource c apiGroup resource = Some pr \<longrightarrow>
      (\<exists>n. live n = Some pr \<and> cacheKey (ServiceRef_Name (pr_Spec pr)) (spec_Plural (pr_Spec pr)) = cacheKey apiGroup resource)) \<and>
    ((owned_step (cacheKey apiGroup resource))\<^sup>*\<^sup>* ((\<lambda>_. None), empty_cache) (live, c) \<longrightarrow>
      (GetByAPIGroupAndResource c apiGroup resource = Some pr \<longleftrightarrow>
        (\<exists>n. live n = Some pr \<and> cacheKey (ServiceRef_Name (pr_Spec pr)) (spec_Plural (pr_Spec pr)) = cacheKey apiGroup resource)))"
  using cache_sound[OF assms] cache_complete[of "cacheKey apiGroup resource" "(live, c)"]
  unfolding prc.sound_def prc.complete_def GetByAPIGroupAndResource_def pr_key_def by (auto dest: spec)

text \<open>
  The restriction of the second half matters: when two live objects share their service and plural
  name, deleting one removes the entry of the other from the index.
\<close>

theorem cache_forgets_twin:
  assumes "pr_key pr = pr_key twin"
  shows "GetByAPIGroupAndResource (DeleteFunc (AddFunc (AddFunc c (Object pr)) (Object twin)) (Object pr))
    (ServiceRef_Name (pr_Spec twin)) (spec_Plural (pr_Spec twin)) = None"
  using assms
  by (simp add: GetByAPIGroupAndResource_def DeleteFunc_def AddFunc_def delete_entry_def upsert_def pr_key_def delete_conv' update_conv')


section \<open>The model ID\<close>

text \<open>
  A provider of the model ID as the tuple writer relies on it: it can be updated, an
  update with a proper ID is seen by the next read, and writing tuples does not move it.
\<close>

locale model_id_provider =
  fixes provider :: "'w ModelIDProvider" and set_id :: "string \<Rightarrow> 'w \<Rightarrow> 'w" and client :: "'w OpenFGAServiceClient"
  assumes updater: "SetModelID provider = Some set_id"
    and get_set: "i \<noteq> [] \<Longrightarrow> GetModelID provider (set_id i w) = i"
    and write_keeps: "Write client rq w = (r, w') \<Longrightarrow> GetModelID provider w' = GetModelID provider w"
begin

lemma retry_model_id:
  assumes "writeWithModelTransitionRetry client rq (Some provider) w = (r, w')"
    and "GetModelID provider w' \<noteq> GetModelID provider w"
  shows "GetModelID provider w = wr_AuthorizationModelId rq \<and>
    (\<exists>w1 m. latestAuthorizationModel client (wr_StoreId rq) w1 = Inr (Some m) \<and>
       GetModelID provider w' = am_Id m \<and> modelSupportsTupleWrites (Some m) (write_keys rq))"
proof -
  obtain r1 w1 where w1: "Write client rq w = (r1, w1)" by fastforce
  from write_keeps[OF w1] have keep: "GetModelID provider w1 = GetModelID provider w" .
  with assms w1 obtain err m where m: "r1 = Inl err" "latestAuthorizationModel client (wr_StoreId rq) w1 = Inr (Some m)"
    "am_Id m \<noteq> []" "modelSupportsTupleWrites (Some m) (write_keys rq)" "mayBeModelTransition rq err"
    "am_Id m \<noteq> wr_AuthorizationModelId rq"
    unfolding writeWithModelTransitionRetry_def Let_def
    by (auto split: sum.splits if_splits option.splits simp: modelSupportsTupleWrites_def)
  let ?w2 = "set_model_id (Some provider) (wr_AuthorizationModelId rq) (am_Id m) w1"
  obtain r3 w3 where w3: "Write client (rq\<lparr>wr_AuthorizationModelId := am_Id m\<rparr>) ?w2 = (r3, w3)" by fastforce
  have "w' = w3" using assms(1) w1 w3 m by (auto simp: writeWithModelTransitionRetry_def Let_def split: sum.splits)
  with write_keeps[OF w3] have "GetModelID provider w' = GetModelID provider ?w2" by simp
  with assms(2) keep m(3) have "GetModelID provider w = wr_AuthorizationModelId rq \<and> GetModelID provider w' = am_Id m"
    by (auto simp: set_model_id_def updater get_set split: if_splits)
  with m show ?thesis by blast
qed

end

text \<open>The watcher next to the rest of the world: the client's operations do not see it.\<close>

definition lift_client :: "'v OpenFGAServiceClient \<Rightarrow> ('v \<times> AuthorizationModelIDWatcher) OpenFGAServiceClient" where
  "lift_client c =
     \<lparr>Write = (\<lambda>rq w. case Write c rq (fst w) of (r, v) \<Rightarrow> (r, (v, snd w))),
      Read = (\<lambda>rq w. Read c rq (fst w)),
      ReadAuthorizationModels = (\<lambda>sid n w. ReadAuthorizationModels c sid n (fst w)),
      ReadAuthorizationModel = (\<lambda>sid i w. ReadAuthorizationModel c sid i (fst w)),
      WriteAuthorizationModel = (\<lambda>rq w. case WriteAuthorizationModel c rq (fst w) of (r, v) \<Rightarrow> (r, (v, snd w))),
      ctx_Err = (\<lambda>w. ctx_Err c (fst w)),
      InternalErrorCode_deadline_exceeded = InternalErrorCode_deadline_exceeded c\<rparr>"

definition watcher_set :: "string \<Rightarrow> 'v \<times> AuthorizationModelIDWatcher \<Rightarrow> 'v \<times> AuthorizationModelIDWatcher" where
  "watcher_set i w = (fst w, Watcher_SetModelID (snd w) i)"

definition watcher_provider :: "('v \<times> AuthorizationModelIDWatcher) ModelIDProvider" where
  "watcher_provider = \<lparr>GetModelID = (\<lambda>w. Watcher_GetModelID (snd w)), SetModelID = Some watcher_set\<rparr>"

lemma Watcher_get_set: "i \<noteq> [] \<Longrightarrow> Watcher_GetModelID (Watcher_SetModelID w i) = i"
  by (simp add: Watcher_SetModelID_def Watcher_GetModelID_def)

interpretation watcher: model_id_provider watcher_provider watcher_set "lift_client c" for c
  by unfold_locales
    (auto simp: watcher_provider_def watcher_set_def Watcher_get_set lift_client_def split: prod.splits)

text \<open>
  A tuple write moves the cached model ID only away from the ID it was pinned to,
  and only to the newest model, once that model defines every relation of the request.
\<close>

theorem watcher_moves_to_latest:
  assumes "writeWithModelTransitionRetry (lift_client c) rq (Some watcher_provider) (v, w) = (r, (v', w'))"
    and "Watcher_GetModelID w' \<noteq> Watcher_GetModelID w"
  shows "Watcher_GetModelID w = wr_AuthorizationModelId rq \<and>
    (\<exists>v1 m. latestAuthorizationModel c (wr_StoreId rq) v1 = Inr (Some m) \<and>
       Watcher_GetModelID w' = am_Id m \<and> modelSupportsTupleWrites (Some m) (write_keys rq))"
proof -
  have "latestAuthorizationModel (lift_client c) sid x = latestAuthorizationModel c sid (fst x)" for sid x
    by (simp add: latestAuthorizationModel_def lift_client_def cong: if_cong)
  with watcher.retry_model_id[OF assms(1)] assms(2) show ?thesis by (auto simp: watcher_provider_def)
qed


text \<open>
  A ConfigMap event changes the cached ID only to the non-empty ID under the
  expected key of the expected ConfigMap, and once an ID is known it stays known: no
  event and no update of the writer clears it.
\<close>

theorem handleConfigMap_never_clears:
  "(handleConfigMap w obj = w \<or>
    (\<exists>cm i. obj \<in> {Object cm, Tombstone (Object cm)} \<and> cm_Name cm = configMapName w \<and>
       map_of (cm_Data cm) AuthorizationModelIDKey = Some i \<and> i \<noteq> [] \<and>
       Watcher_GetModelID (handleConfigMap w obj) = i)) \<and>
   (Watcher_GetModelID w \<noteq> [] \<longrightarrow>
      Watcher_GetModelID (handleConfigMap w obj) \<noteq> [] \<and> Watcher_GetModelID (Watcher_SetModelID w i) \<noteq> [])"
  by (auto simp: handleConfigMap_def Watcher_GetModelID_def Watcher_SetModelID_def
      split: informer_object.splits option.splits if_splits)

section \<open>Expiry of the discovery cache\<close>

text \<open>
  A discovery answer is never served from a cache entry loaded a full TTL before
  the query: right after the expiry step the recorded load time is less than one TTL in
  the past, and when the old one was not, the wrapped cache has just been invalidated.
\<close>

theorem discovery_fresh:
  assumes "0 < ttl c"
  shows "\<exists>t. loadedAt (expire invalidate now c) = Some t \<and> now - t < ttl c \<and>
    (case loadedAt c of
       Some t0 \<Rightarrow> if now - t0 \<ge> ttl c then cached (expire invalidate now c) = invalidate (cached c) else expire invalidate now c = c
     | None \<Rightarrow> cached (expire invalidate now c) = cached c)"
  using assms by (auto simp: expire_def split: option.splits)

section \<open>Examples\<close>

lemma example_pr_key: "pr_key (example_pr svc kind plural verbs parents) = svc @ ''/'' @ plural"
  by (simp add: pr_key_def example_pr_def cacheKey_def)

theorem cache_follows_cluster_witness:
  "\<exists>c. (owned_step ''s/new'')\<^sup>*\<^sup>* ((\<lambda>_. None), empty_cache) ([''a'' \<mapsto> example_pr ''s'' ''K'' ''new'' [] []], c) \<and>
     GetByAPIGroupAndResource c ''s'' ''new'' = Some (example_pr ''s'' ''K'' ''new'' [] []) \<and>
     GetByAPIGroupAndResource c ''s'' ''old'' = None"
proof -
  let ?old = "example_pr ''s'' ''K'' ''old'' [] []" and ?new = "example_pr ''s'' ''K'' ''new'' [] []"
  let ?c = "UpdateFunc (AddFunc empty_cache (Object ?old)) (Object ?old) (Object ?new)"
  have add: "cache_step ((\<lambda>_. None), empty_cache) ((\<lambda>_. None)(''a'' \<mapsto> ?old), AddFunc empty_cache (Object ?old))"
    by (rule cache_step.created) simp
  have upd: "cache_step ((\<lambda>_. None)(''a'' \<mapsto> ?old), AddFunc empty_cache (Object ?old))
      (((\<lambda>_. None)(''a'' \<mapsto> ?old))(''a'' \<mapsto> ?new), ?c)"
    by (rule cache_step.updated) simp
  have run: "cache_step\<^sup>*\<^sup>* ((\<lambda>_. None), empty_cache) ([''a'' \<mapsto> ?new], ?c)" using add upd by simp
  have alone: "prc.one_owner k [''a'' \<mapsto> x]" for k x by (auto simp: prc.one_owner_def split: if_splits)
  have "owned_step k ((\<lambda>_. None), empty_cache) ([''a'' \<mapsto> ?old], AddFunc empty_cache (Object ?old))"
    "owned_step k ([''a'' \<mapsto> ?old], AddFunc empty_cache (Object ?old)) ([''a'' \<mapsto> ?new], ?c)" for k
    using add upd alone[of k] by (simp_all add: owned_step_def)
  then have owned: "(owned_step k)\<^sup>*\<^sup>* ((\<lambda>_. None), empty_cache) ([''a'' \<mapsto> ?new], ?c)" for k
    by (meson converse_rtranclp_into_rtranclp r_into_rtranclp)
  have key: "cacheKey ''s'' ''new'' = ''s/new''" by (simp add: cacheKey_def)
  have "GetByAPIGroupAndResource ?c ''s'' ''new'' = Some ?new"
    using cache_follows_cluster[OF run, of "''s''" "''new''" ?new] owned by (simp add: example_pr_def)
  moreover have "GetByAPIGroupAndResource ?c ''s'' ''old'' \<noteq> Some x" for x
    using cache_follows_cluster[OF run, of "''s''" "''old''" x] by (auto simp: example_pr_def cacheKey_def split: if_splits)
  ultimately show ?thesis using owned[of "''s/new''"] by blast
qed

theorem cache_forgets_twin_witness:
  "GetByAPIGroupAndResource
     (DeleteFunc (AddFunc (AddFunc empty_cache (Object (example_pr ''s'' ''K'' ''ks'' [] []))) (Object (example_pr ''s'' ''L'' ''ks'' [] [])))
        (Object (example_pr ''s'' ''K'' ''ks'' [] []))) ''s'' ''ks'' = None"
  using cache_forgets_twin[of "example_pr ''s'' ''K'' ''ks'' [] []" "example_pr ''s'' ''L'' ''ks'' [] []" empty_cache]
  by (simp add: example_pr_key) (simp add: example_pr_def)

theorem discovery_fresh_witness:
  "\<exists>t. loadedAt (expire (\<lambda>n. n + 1) 100 \<lparr>cached = (0 :: nat), ttl = 30, loadedAt = Some 60\<rparr>) = Some t \<and> 100 - t < 30"
  using discovery_fresh[of "\<lparr>cached = (0 :: nat), ttl = 30, loadedAt = Some 60\<rparr>" "\<lambda>n. n + 1" 100] by auto


theorem handleConfigMap_never_clears_witness:
  "Watcher_GetModelID (handleConfigMap \<lparr>modelID = Some ''m1'', configMapName = ''cfg''\<rparr>
     (Object \<lparr>cm_Name = ''cfg'', cm_Data = [(AuthorizationModelIDKey, [])]\<rparr>)) \<noteq> []"
  using handleConfigMap_never_clears[of "\<lparr>modelID = Some ''m1'', configMapName = ''cfg''\<rparr>"
      "Object \<lparr>cm_Name = ''cfg'', cm_Data = [(AuthorizationModelIDKey, [])]\<rparr>"]
  by (simp add: Watcher_GetModelID_def)

text \<open>A service that has moved on to model \<open>m2\<close> and refuses writes pinned to \<open>m1\<close>.\<close>

definition moved_client :: "AuthorizationModel OpenFGAServiceClient" where
  "moved_client =
     \<lparr>Write = (\<lambda>rq m. if wr_AuthorizationModelId rq = am_Id m then (Inr (), m)
                      else (Inl (ErrorString ''Invalid tuple''), m)),
      Read = (\<lambda>rq m. Inr \<lparr>rs_Tuples = [], rs_ContinuationToken = []\<rparr>),
      ReadAuthorizationModels = (\<lambda>sid n m. Inr [m]), ReadAuthorizationModel = (\<lambda>sid i m. Inr (Some m)),
      WriteAuthorizationModel = (\<lambda>rq m. (Inr (am_Id m), m)), ctx_Err = (\<lambda>_. None),
      InternalErrorCode_deadline_exceeded = 4004\<rparr>"

definition moved_model :: AuthorizationModel where
  "moved_model = \<lparr>am_Id = ''m2'', am_SchemaVersion = ''1.2'',
     am_TypeDefinitions = [set_relation ''r'' (Userset_This (Some ())) permission_metadata (empty_type_definition ''t'' [])],
     am_Conditions = []\<rparr>"

definition pinned_request :: WriteRequest where
  "pinned_request = \<lparr>wr_StoreId = ''s'', wr_AuthorizationModelId = ''m1'',
     wr_Writes = Some \<lparr>writes_TupleKeys = [grant ''u:a'' ''r'' ''t:1''], writes_OnDuplicate = onDuplicateIgnore\<rparr>,
     wr_Deletes = None\<rparr>"

theorem watcher_moves_to_latest_witness:
  "\<exists>w'. writeWithModelTransitionRetry (lift_client moved_client) pinned_request (Some watcher_provider)
       (moved_model, \<lparr>modelID = Some ''m1'', configMapName = ''cfg''\<rparr>) = (Inr (), (moved_model, w')) \<and>
     Watcher_GetModelID w' = ''m2'' \<and> modelSupportsTupleWrites (Some moved_model) (write_keys pinned_request)"
proof -
  let ?w = "\<lparr>modelID = Some ''m1'', configMapName = ''cfg''\<rparr>" and ?w' = "\<lparr>modelID = Some ''m2'', configMapName = ''cfg''\<rparr>"
  have sup: "modelSupportsTupleWrites (Some moved_model) (write_keys pinned_request)" by code_simp
  have may: "mayBeModelTransition pinned_request (ErrorString ''Invalid tuple'')" by code_simp
  have run: "writeWithModelTransitionRetry (lift_client moved_client) pinned_request (Some watcher_provider) (moved_model, ?w) =
      (Inr (), (moved_model, ?w'))"
    using sup may
    by (simp add: writeWithModelTransitionRetry_def latestAuthorizationModel_def lift_client_def moved_client_def Let_def
        moved_model_def pinned_request_def set_model_id_def watcher_provider_def watcher_set_def Watcher_SetModelID_def Watcher_GetModelID_def)
  have "Watcher_GetModelID ?w' \<noteq> Watcher_GetModelID ?w" by (simp add: Watcher_GetModelID_def)
  from watcher_moves_to_latest[OF run this] have "Watcher_GetModelID ?w = ''m1''" by (simp add: pinned_request_def)
  with run sup show ?thesis by (auto simp: Watcher_GetModelID_def)
qed

end
