(* ===== verification/Webhook.thy ===== *)
theory Webhook
  imports Webhook_Caches
begin

text \<open>
  The SubjectAccessReview authorizer (\<open>subjectaccessreview_authorizer.go\<close>) and the
  handler around it (\<open>webhook.go\<close>, \<open>response.go\<close>, the decision label of
  \<open>http.go\<close>). A request is answered from the caches, the discovery client and one
  BatchCheck call, all of which are read only, so \<open>Authorize\<close> is a function of the
  authorizer's state and the world \<open>'w\<close> the BatchCheck sees. Tracing, metrics and
  logging are left out.
\<close>

section \<open>Requests and collaborators\<close>

record UserInfo =
  user_Name :: string
  user_UID :: string
  user_Groups :: "string list"
  user_Extra :: "(string \<times> string list) list"

record Attributes =
  GetUser :: UserInfo
  GetVerb :: string
  GetNamespace :: string
  GetAPIGroup :: string
  GetAPIVersion :: string
  GetResource :: string
  GetSubresource :: string
  GetName :: string
  IsResourceRequest :: bool
  GetPath :: string

record CheckRequestTupleKey =
  check_User :: string
  check_Relation :: string
  check_Object :: string

record BatchCheckItem =
  item_TupleKey :: CheckRequestTupleKey
  item_CorrelationId :: string

record BatchCheckRequest =
  bc_StoreId :: string
  bc_AuthorizationModelId :: string
  bc_Checks :: "BatchCheckItem list"

record CheckRequest =
  cr_StoreId :: string
  cr_AuthorizationModelId :: string
  cr_TupleKey :: CheckRequestTupleKey

text \<open>
  The discovery client. \<open>ServerGroupsAndResources\<close> may return partial results
  together with the group versions that failed, or another error.
\<close>

record APIResource =
  res_Name :: string
  res_Namespaced :: bool

record APIResourceList =
  list_GroupVersion :: string
  list_APIResources :: "APIResource list"

record APIGroup =
  group_Name :: string
  group_Versions :: "string list"

datatype discovery_error = ErrGroupDiscoveryFailed "(string \<times> string) list" | OtherDiscoveryError go_error

record DiscoveryClient =
  ServerResourcesForGroupVersion :: "string \<Rightarrow> APIResourceList result"
  ServerGroupsAndResources :: "APIGroup option list option \<times> APIResourceList option list \<times> discovery_error option"
  ParseGroupVersion :: "string \<Rightarrow> (string \<times> string) result"

text \<open>The keys under which the parent of a request is found in the user's extra data are constants of the IAM API package.\<close>

record ExtraKeys =
  ParentAPIGroupExtraKey :: string
  ParentKindExtraKey :: string
  ParentNameExtraKey :: string

record 'w SubjectAccessReviewAuthorizer =
  EnableSubresourceAuthorization :: bool
  BatchCheck :: "BatchCheckRequest \<Rightarrow> 'w \<Rightarrow> (string \<times> bool) list result"
  FGAStoreID :: string
  ModelIDWatcher :: "AuthorizationModelIDWatcher option"
  Cache :: ProtectedResourceCache
  Discovery :: "DiscoveryClient option"
  Keys :: ExtraKeys

datatype Decision = DecisionDeny | DecisionAllow | DecisionNoOpinion

section \<open>The authorization context\<close>

record parentContext =
  pc_apiGroup :: string
  pc_kind :: string
  pc_name :: string

record authorizationContext =
  ac_userUID :: string
  ac_permission :: string
  ac_parentContext :: "parentContext option"
  ac_namespace :: string

definition isProjectScope :: "authorizationContext \<Rightarrow> bool" where
  "isProjectScope ctx =
     (case ac_parentContext ctx of None \<Rightarrow> False
      | Some p \<Rightarrow> pc_apiGroup p = ''resourcemanager.miloapis.com'' \<and> pc_kind p = ''Project'')"

definition isOrganizationScope :: "authorizationContext \<Rightarrow> bool" where
  "isOrganizationScope ctx =
     (case ac_parentContext ctx of None \<Rightarrow> False
      | Some p \<Rightarrow> pc_apiGroup p = ''resourcemanager.miloapis.com'' \<and> pc_kind p = ''Organization'')"

definition scopeLabel :: "authorizationContext option \<Rightarrow> string" where
  "scopeLabel authCtx =
     (case authCtx of None \<Rightarrow> ''unknown''
      | Some ctx \<Rightarrow> if isProjectScope ctx then ''project''
                    else if isOrganizationScope ctx then ''organization'' else ''cluster'')"

definition extractParentContext :: "('w, 'z) SubjectAccessReviewAuthorizer_scheme \<Rightarrow> Attributes \<Rightarrow> parentContext option" where
  "extractParentContext o' attributes =
     (let extra = map_of (user_Extra (GetUser attributes)); keys = Keys o'
      in case (extra (ParentAPIGroupExtraKey keys), extra (ParentKindExtraKey keys), extra (ParentNameExtraKey keys)) of
           (Some parentAPIGroup, Some parentKind, Some parentName) \<Rightarrow>
             if length parentAPIGroup = 1 \<and> length parentKind = 1 \<and> length parentName = 1
             then Some \<lparr>pc_apiGroup = parentAPIGroup ! 0, pc_kind = parentKind ! 0, pc_name = parentName ! 0\<rparr>
             else None
         | _ \<Rightarrow> None)"

definition serviceNameMapping :: "string \<rightharpoonup> string" where
  "serviceNameMapping = map_of [([], ''core.miloapis.com'')]"

definition getEffectiveAPIGroup :: "Attributes \<Rightarrow> string" where
  "getEffectiveAPIGroup attributes =
     (case serviceNameMapping (GetAPIGroup attributes) of Some override \<Rightarrow> override | None \<Rightarrow> GetAPIGroup attributes)"

definition buildPermission :: "('w, 'z) SubjectAccessReviewAuthorizer_scheme \<Rightarrow> Attributes \<Rightarrow> Permission" where
  "buildPermission o' attributes =
     \<lparr>perm_APIGroup = getEffectiveAPIGroup attributes, perm_Resource = GetResource attributes,
      perm_Subresource = (if EnableSubresourceAuthorization o' then GetSubresource attributes else []),
      perm_Verb = GetVerb attributes\<rparr>"

definition buildPermissionString :: "('w, 'z) SubjectAccessReviewAuthorizer_scheme \<Rightarrow> Attributes \<Rightarrow> string" where
  "buildPermissionString o' attributes = Permission_String (buildPermission o' attributes)"

definition buildAuthorizationContext ::
    "('w, 'z) SubjectAccessReviewAuthorizer_scheme \<Rightarrow> Attributes \<Rightarrow> authorizationContext result" where
  "buildAuthorizationContext o' attributes =
     (let userUID = user_UID (GetUser attributes)
      in if userUID = [] then Inl (ErrorString ''user UID is required by SubjectAccessReview authorizer'')
         else Inr \<lparr>ac_userUID = userUID, ac_permission = buildPermissionString o' attributes,
                   ac_parentContext = extractParentContext o' attributes, ac_namespace = GetNamespace attributes\<rparr>)"

section \<open>Namespace validation\<close>

text \<open>A nil discovery client would make the source panic here; the model returns an error.\<close>

definition isResourceNamespaced ::
    "('w, 'z) SubjectAccessReviewAuthorizer_scheme \<Rightarrow> string \<Rightarrow> string \<Rightarrow> string \<Rightarrow> bool result" where
  "isResourceNamespaced o' apiGroup apiVersion resource =
     (let groupVersion = (if apiGroup = [] then apiVersion else apiGroup @ ''/'' @ apiVersion)
      in case Discovery o' of
           None \<Rightarrow> Inl (ErrorString ''nil discovery client'')
         | Some d \<Rightarrow>
             try_pure (ServerResourcesForGroupVersion d groupVersion)
               (WrapError (''failed to get server resources for group version '' @ groupVersion))
               (\<lambda>resourceList. case find (\<lambda>r. res_Name r = resource) (list_APIResources resourceList) of
                   Some r \<Rightarrow> Inr (res_Namespaced r)
                 | None \<Rightarrow> Inl (ErrorString (''resource '' @ resource @ '' not found in API group version '' @ groupVersion))))"

definition validateOrganizationNamespace ::
    "('w, 'z) SubjectAccessReviewAuthorizer_scheme \<Rightarrow> authorizationContext \<Rightarrow> Attributes \<Rightarrow> unit result" where
  "validateOrganizationNamespace o' authCtx attributes =
     (if \<not> isOrganizationScope authCtx then Inr ()
      else
        let requestNamespace = GetNamespace attributes;
            expectedNamespace = ''organization-'' @ (case ac_parentContext authCtx of None \<Rightarrow> [] | Some p \<Rightarrow> pc_name p)
        in if requestNamespace = [] then
             try_pure (isResourceNamespaced o' (GetAPIGroup attributes) (GetAPIVersion attributes) (GetResource attributes))
               (WrapError ''failed to determine if resource is namespaced'')
               (\<lambda>isNamespaced. if \<not> isNamespaced then Inr ()
                 else Inl (ErrorString ''cross-namespace queries not allowed for organization-scoped requests''))
           else if requestNamespace \<noteq> expectedNamespace
           then Inl (ErrorString (''namespace mismatch: request namespace '' @ quoted requestNamespace @
                  '' does not match organization namespace '' @ quoted expectedNamespace))
           else Inr ())"

section \<open>Registered permissions\<close>

definition getProtectedResource ::
    "('w, 'z) SubjectAccessReviewAuthorizer_scheme \<Rightarrow> Attributes \<Rightarrow> ProtectedResource result" where
  "getProtectedResource o' attributes =
     (case GetByAPIGroupAndResource (Cache o') (getEffectiveAPIGroup attributes) (GetResource attributes) of
        Some pr \<Rightarrow> Inr pr
      | None \<Rightarrow> Inl (ErrorString (''no ProtectedResource found for APIGroup='' @ getEffectiveAPIGroup attributes @
                  '', Resource='' @ GetResource attributes)))"

definition validatePermissionWithServiceDefaulting ::
    "('w, 'z) SubjectAccessReviewAuthorizer_scheme \<Rightarrow> Attributes \<Rightarrow> bool result" where
  "validatePermissionWithServiceDefaulting o' attributes =
     (case GetByAPIGroupAndResource (Cache o') (getEffectiveAPIGroup attributes) (GetResource attributes) of
        Some pr \<Rightarrow>
          if \<not> EnableSubresourceAuthorization o' then Inr (GetVerb attributes \<in> set (spec_Permissions (pr_Spec pr)))
          else (case Parse (buildPermissionString o' attributes) of
              None \<Rightarrow> Inr False
            | Some permission \<Rightarrow>
                Inr (\<not> pr_DeletionTimestamp pr \<and> Defined (pr_Spec pr) permission (EnableSubresourceAuthorization o')))
      | None \<Rightarrow> Inr False)"

text \<open>The pair is \<open>(served, known)\<close>.\<close>

definition isResourceServed :: "('w, 'z) SubjectAccessReviewAuthorizer_scheme \<Rightarrow> Attributes \<Rightarrow> bool \<times> bool" where
  "isResourceServed o' attributes =
     (let grp = GetAPIGroup attributes; resource = GetResource attributes in
      case Discovery o' of None \<Rightarrow> (False, False)
      | Some d \<Rightarrow>
         if grp = ''*'' \<or> resource = ''*'' \<or> resource = [] then (False, False)
         else (case ServerGroupsAndResources d of (groups, resourceLists, err) \<Rightarrow>
           (case err of Some (OtherDiscoveryError e) \<Rightarrow> (False, False)
            | _ \<Rightarrow>
             (case groups of None \<Rightarrow> (False, False)
              | Some gs \<Rightarrow>
                 let requested = GetAPIVersion attributes;
                     gv_matches = (\<lambda>(g, v). g = grp \<and> (requested = [] \<or> requested = ''*'' \<or> requested = v));
                     failed = (case err of Some (ErrGroupDiscoveryFailed fs) \<Rightarrow> fs | _ \<Rightarrow> [])
                 in if list_ex gv_matches failed then (False, False)
                    else if list_ex (\<lambda>g. case g of None \<Rightarrow> False | Some a \<Rightarrow> group_Name a = grp \<and> length (group_Versions a) = 0) gs
                    then (False, False)
                    else (list_ex (\<lambda>l. case l of None \<Rightarrow> False
                            | Some rl \<Rightarrow> (case ParseGroupVersion d (list_GroupVersion rl) of Inl _ \<Rightarrow> False
                                | Inr gv \<Rightarrow> gv_matches gv \<and> list_ex (\<lambda>r. res_Name r = resource) (list_APIResources rl)))
                          resourceLists, True)))))"

definition reasonPermissionNotRegistered :: string where "reasonPermissionNotRegistered = ''permission_not_registered''"
definition reasonResourceNotServed :: string where "reasonResourceNotServed = ''resource_not_served''"
definition reasonNonResourceRequest :: string where "reasonNonResourceRequest = ''non_resource_request''"

definition notRegisteredReason :: "('w, 'z) SubjectAccessReviewAuthorizer_scheme \<Rightarrow> Attributes \<Rightarrow> string" where
  "notRegisteredReason o' attributes =
     (if \<not> IsResourceRequest attributes then reasonNonResourceRequest
      else (case isResourceServed o' attributes of (served, known) \<Rightarrow>
        if known \<and> \<not> served then reasonResourceNotServed else reasonPermissionNotRegistered))"

section \<open>Checks\<close>

definition buildRootResource :: "ProtectedResource \<Rightarrow> string" where
  "buildRootResource pr = ''iam.miloapis.com/Root:'' @ ServiceRef_Name (pr_Spec pr) @ ''/'' @ spec_Kind (pr_Spec pr)"

definition buildParentResource :: "('w, 'z) SubjectAccessReviewAuthorizer_scheme \<Rightarrow> Attributes \<Rightarrow> string result" where
  "buildParentResource o' attributes =
     (let extra = map_of (user_Extra (GetUser attributes)); keys = Keys o'
      in case (extra (ParentAPIGroupExtraKey keys), extra (ParentKindExtraKey keys), extra (ParentNameExtraKey keys)) of
           (Some parentAPIGroup, Some parentKind, Some parentName) \<Rightarrow>
             if length parentAPIGroup = 1 \<and> length parentKind = 1 \<and> length parentName = 1
             then Inr (parentAPIGroup ! 0 @ ''/'' @ parentKind ! 0 @ '':'' @ parentName ! 0)
             else Inl (ErrorString ''parent resource not found in extra data'')
         | _ \<Rightarrow> Inl (ErrorString ''parent resource not found in extra data''))"

definition buildHashedPermissionRelation :: "('w, 'z) SubjectAccessReviewAuthorizer_scheme \<Rightarrow> Attributes \<Rightarrow> string" where
  "buildHashedPermissionRelation o' attributes = HashPermission (buildPermissionString o' attributes)"

definition buildResourceObject :: "('w, 'z) SubjectAccessReviewAuthorizer_scheme \<Rightarrow> Attributes \<Rightarrow> string result" where
  "buildResourceObject o' attributes =
     try_pure (getProtectedResource o' attributes) (WrapError ''failed to get protected resource'')
       (\<lambda>protectedResource.
         let isNamedSubresource = EnableSubresourceAuthorization o' \<and> GetSubresource attributes \<noteq> [] \<and> GetName attributes \<noteq> [];
             isCollectionOp = GetVerb attributes \<in> {''list'', ''create'', ''watch''} \<or> GetName attributes = []
         in if isNamedSubresource \<or> \<not> isCollectionOp
            then Inr (ServiceRef_Name (pr_Spec protectedResource) @ ''/'' @ spec_Kind (pr_Spec protectedResource) @ '':'' @ GetName attributes)
            else (case buildParentResource o' attributes of
                Inr parentResource \<Rightarrow> Inr parentResource
              | Inl _ \<Rightarrow> Inr (buildRootResource protectedResource)))"

definition buildCheckRequest ::
    "('w, 'z) SubjectAccessReviewAuthorizer_scheme \<Rightarrow> Attributes \<Rightarrow> authorizationContext \<Rightarrow> CheckRequest result" where
  "buildCheckRequest o' attributes authCtx =
     try_pure (buildResourceObject o' attributes) (\<lambda>e. e)
       (\<lambda>resource. Inr
         \<lparr>cr_StoreId = FGAStoreID o',
          cr_AuthorizationModelId = (case ModelIDWatcher o' of None \<Rightarrow> [] | Some w \<Rightarrow> Watcher_GetModelID w),
          cr_TupleKey = \<lparr>check_User = ''iam.miloapis.com/InternalUser:'' @ ac_userUID authCtx,
            check_Relation = buildHashedPermissionRelation o' attributes, check_Object = resource\<rparr>\<rparr>)"

definition executeBatchCheck ::
    "('w, 'z) SubjectAccessReviewAuthorizer_scheme \<Rightarrow> CheckRequest \<Rightarrow> string \<Rightarrow> BatchCheckItem list \<Rightarrow> 'w \<Rightarrow>
     Decision \<times> string \<times> go_error option" where
  "executeBatchCheck o' checkReq rootResource extraChecks w =
     (let key = cr_TupleKey checkReq;
          checks = [\<lparr>item_TupleKey = key, item_CorrelationId = ''instance''\<rparr>,
                    \<lparr>item_TupleKey = key\<lparr>check_Object := rootResource\<rparr>, item_CorrelationId = ''root''\<rparr>] @ extraChecks
      in case BatchCheck o' \<lparr>bc_StoreId = FGAStoreID o', bc_AuthorizationModelId = cr_AuthorizationModelId checkReq, bc_Checks = checks\<rparr> w of
           Inl err \<Rightarrow> (DecisionNoOpinion, [], Some err)
         | Inr results \<Rightarrow>
             if list_ex snd results then (DecisionAllow, [], None) else (DecisionDeny, [], None))"

definition scopeChecks :: "authorizationContext \<Rightarrow> CheckRequest \<Rightarrow> BatchCheckItem list" where
  "scopeChecks authCtx checkReq =
     (case ac_parentContext authCtx of None \<Rightarrow> []
      | Some p \<Rightarrow>
          let key = cr_TupleKey checkReq;
              scopeRoot = ''iam.miloapis.com/Root:'' @ pc_apiGroup p @ ''/'' @ pc_kind p;
              scopeParent = pc_apiGroup p @ ''/'' @ pc_kind p @ '':'' @ pc_name p
          in [\<lparr>item_TupleKey = key\<lparr>check_Object := scopeRoot\<rparr>, item_CorrelationId = ''scope-root''\<rparr>] @
             (if check_Object key \<noteq> scopeParent
              then [\<lparr>item_TupleKey = key\<lparr>check_Object := scopeParent\<rparr>, item_CorrelationId = ''scope-parent''\<rparr>]
              else []))"

section \<open>Authorize\<close>

definition Authorize ::
    "('w, 'z) SubjectAccessReviewAuthorizer_scheme \<Rightarrow> Attributes \<Rightarrow> 'w \<Rightarrow> Decision \<times> string \<times> go_error option" where
  "Authorize o' attributes w =
     (case buildAuthorizationContext o' attributes of
        Inl err \<Rightarrow> (DecisionDeny, [], Some err)
      | Inr authCtx \<Rightarrow>
     (case validateOrganizationNamespace o' authCtx attributes of
        Inl err \<Rightarrow> (DecisionDeny, [], Some err)
      | Inr _ \<Rightarrow>
     (case validatePermissionWithServiceDefaulting o' attributes of
        Inl err \<Rightarrow> (DecisionDeny, [], Some err)
      | Inr permExists \<Rightarrow>
         if \<not> permExists then
           let message = ''permission '' @ quoted (buildPermissionString o' attributes) @ '' not registered''
           in if EnableSubresourceAuthorization o' then (DecisionDeny, message, None)
              else (DecisionDeny, [], Some (ErrorString message))
         else
     (case buildCheckRequest o' attributes authCtx of
        Inl err \<Rightarrow> (DecisionDeny, [], Some (WrapError ''failed to build OpenFGA request'' err))
      | Inr checkReq \<Rightarrow>
     (case getProtectedResource o' attributes of
        Inl err \<Rightarrow> (DecisionDeny, [], Some (WrapError ''failed to get protected resource for batch check'' err))
      | Inr protectedResource \<Rightarrow>
          executeBatchCheck o' checkReq (buildRootResource protectedResource) (scopeChecks authCtx checkReq) w)))))"

definition decisionLabel :: "Decision \<Rightarrow> go_error option \<Rightarrow> string" where
  "decisionLabel decision err =
     (if err \<noteq> None then ''error''
      else case decision of DecisionAllow \<Rightarrow> ''allowed'' | DecisionDeny \<Rightarrow> ''denied'' | _ \<Rightarrow> ''no_opinion'')"

section \<open>The handler\<close>

record Status =
  Allowed :: bool
  StatusDenied :: bool
  Reason :: string
  EvaluationError :: string

definition AuthorizationResponse :: "bool \<Rightarrow> bool \<Rightarrow> string \<Rightarrow> string \<Rightarrow> Status" where
  "AuthorizationResponse allowed denied reason evaluationError =
     \<lparr>Allowed = allowed, StatusDenied = denied, Reason = reason, EvaluationError = evaluationError\<rparr>"

definition Denied :: "string \<Rightarrow> Status" where "Denied reason = AuthorizationResponse False True reason []"

definition Errored :: "go_error \<Rightarrow> Status" where "Errored err = AuthorizationResponse False False [] (Error err)"

record ResourceAttributes =
  ra_Verb :: string
  ra_Namespace :: string
  ra_Group :: string
  ra_Version :: string
  ra_Resource :: string
  ra_Subresource :: string
  ra_Name :: string
  ra_FieldSelector :: "string option"
  ra_LabelSelector :: "string option"

record NonResourceAttributes =
  na_Verb :: string
  na_Path :: string

record ReviewSpec =
  rv_User :: string
  rv_UID :: string
  rv_Groups :: "string list"
  rv_Extra :: "(string \<times> string list) list"
  rv_ResourceAttributes :: "ResourceAttributes option"
  rv_NonResourceAttributes :: "NonResourceAttributes option"

text \<open>
  The selector parsers of the Kubernetes libraries are parameters: they accept a raw
  selector or return an error; the requirements they produce are not used further on.
\<close>

record SelectorParsers =
  ParseSelector :: "string \<Rightarrow> unit result"
  ParseToRequirements :: "string \<Rightarrow> unit result"

definition parse_selector :: "(string \<Rightarrow> unit result) \<Rightarrow> string option \<Rightarrow> unit result" where
  "parse_selector parse raw = (case raw of None \<Rightarrow> Inr () | Some s \<Rightarrow> parse s)"

definition review_attributes :: "ReviewSpec \<Rightarrow> Attributes" where
  "review_attributes spec =
     (let user = \<lparr>user_Name = rv_User spec, user_UID = rv_UID spec, user_Groups = rv_Groups spec, user_Extra = rv_Extra spec\<rparr>;
          attrs = \<lparr>GetUser = user, GetVerb = [], GetNamespace = [], GetAPIGroup = [], GetAPIVersion = [], GetResource = [],
                   GetSubresource = [], GetName = [], IsResourceRequest = False, GetPath = []\<rparr>;
          attrs = (case rv_ResourceAttributes spec of None \<Rightarrow> attrs
                   | Some ra \<Rightarrow> attrs\<lparr>GetVerb := ra_Verb ra, GetNamespace := ra_Namespace ra, GetAPIGroup := ra_Group ra,
                       GetAPIVersion := ra_Version ra, GetResource := ra_Resource ra, GetSubresource := ra_Subresource ra,
                       GetName := ra_Name ra, IsResourceRequest := True\<rparr>)
      in case rv_NonResourceAttributes spec of None \<Rightarrow> attrs
         | Some na \<Rightarrow> attrs\<lparr>GetVerb := na_Verb na, GetPath := na_Path na, IsResourceRequest := False\<rparr>)"

definition handle_review ::
    "('w, 'z) SubjectAccessReviewAuthorizer_scheme \<Rightarrow> SelectorParsers \<Rightarrow> ReviewSpec \<Rightarrow> 'w \<Rightarrow> Status" where
  "handle_review o' parsers spec w =
     (if rv_ResourceAttributes spec \<noteq> None \<and> rv_NonResourceAttributes spec \<noteq> None
      then Denied ''must specify oneof resource or non-resource attributes, not both''
      else
     (case parse_selector (ParseSelector parsers) (Option.bind (rv_ResourceAttributes spec) ra_FieldSelector) of
        Inl err \<Rightarrow> Errored err
      | Inr _ \<Rightarrow>
     (case parse_selector (ParseToRequirements parsers) (Option.bind (rv_ResourceAttributes spec) ra_LabelSelector) of
        Inl err \<Rightarrow> Errored err
      | Inr _ \<Rightarrow>
     (case Authorize o' (review_attributes spec) w of (decision, reason, err) \<Rightarrow>
       (case err of
          Some e \<Rightarrow> Errored e
        | None \<Rightarrow> \<lparr>Allowed = (decision = DecisionAllow), StatusDenied = (decision = DecisionDeny), Reason = reason, EvaluationError = []\<rparr>)))))"

definition decisionFromResponse :: "Status \<Rightarrow> string" where
  "decisionFromResponse resp =
     (if EvaluationError resp \<noteq> [] then ''error''
      else if Allowed resp then ''allowed''
      else if StatusDenied resp then ''denied''
      else ''no_opinion'')"


section \<open>The HTTP entry point\<close>

text \<open>
  \<open>ServeHTTP\<close>: a missing or unreadable body, another content type and a body that is
  not a SubjectAccessReview are answered with an evaluation error before the handler is
  called. The decoder is a parameter. The result is the status written to the client and
  the labels \<open>(decision, scope, resourceGroup)\<close> of the request's metrics. A body is
  \<open>None\<close> when the request has none, and a failed read is an \<open>Inl\<close>.
\<close>

record HTTPRequest =
  http_Body :: "string result option"
  http_ContentType :: string

definition scopeFromResponse :: "Status \<Rightarrow> string" where
  "scopeFromResponse resp = ''unknown''"

definition ServeHTTP ::
    "(ReviewSpec \<Rightarrow> 'w \<Rightarrow> Status) \<Rightarrow> (string \<Rightarrow> ReviewSpec result) \<Rightarrow> HTTPRequest \<Rightarrow> 'w \<Rightarrow>
     Status \<times> string \<times> string \<times> string" where
  "ServeHTTP Handle Decode r w =
     (case http_Body r of
        None \<Rightarrow> (Errored (ErrorString ''request body is empty''), ''error'', [], [])
      | Some (Inl err) \<Rightarrow> (Errored err, ''error'', [], [])
      | Some (Inr body) \<Rightarrow>
          if http_ContentType r \<noteq> ''application/json''
          then (Errored (ErrorString (''contentType='' @ http_ContentType r @ '', expected application/json'')), ''error'', [], [])
          else (case Decode body of
              Inl err \<Rightarrow> (Errored err, ''error'', [], [])
            | Inr spec \<Rightarrow>
                let resourceGroup = (case rv_ResourceAttributes spec of None \<Rightarrow> [] | Some ra \<Rightarrow> ra_Group ra);
                    reviewResponse = Handle spec w
                in (reviewResponse, decisionFromResponse reviewResponse, scopeFromResponse reviewResponse, resourceGroup)))"

section \<open>What a decision rests on\<close>

text \<open>
  The specification side: the parent of a request, the objects a request of a user may be
  granted on, when its namespace is admitted and when its permission is registered.
\<close>

definition request_target :: "('w, 'z) SubjectAccessReviewAuthorizer_scheme \<Rightarrow> ProtectedResource \<Rightarrow> Attributes \<Rightarrow> string" where
  "request_target o' pr attributes =
     (if GetName attributes \<noteq> [] \<and>
         (GetVerb attributes \<notin> {''list'', ''create'', ''watch''} \<or>
          EnableSubresourceAuthorization o' \<and> GetSubresource attributes \<noteq> [])
      then ObjectName (ServiceRef_Name (pr_Spec pr)) (spec_Kind (pr_Spec pr)) (GetName attributes)
      else case extractParentContext o' attributes of
          Some p \<Rightarrow> ObjectName (pc_apiGroup p) (pc_kind p) (pc_name p)
        | None \<Rightarrow> buildRootResource pr)"

definition scope_objects :: "('w, 'z) SubjectAccessReviewAuthorizer_scheme \<Rightarrow> Attributes \<Rightarrow> string set" where
  "scope_objects o' attributes =
     (case extractParentContext o' attributes of None \<Rightarrow> {}
      | Some p \<Rightarrow> {TypeRoot @ '':'' @ pc_apiGroup p @ ''/'' @ pc_kind p, ObjectName (pc_apiGroup p) (pc_kind p) (pc_name p)})"

definition checked_objects :: "('w, 'z) SubjectAccessReviewAuthorizer_scheme \<Rightarrow> ProtectedResource \<Rightarrow> Attributes \<Rightarrow> string set" where
  "checked_objects o' pr attributes =
     {request_target o' pr attributes, buildRootResource pr} \<union> scope_objects o' attributes"

definition namespace_admitted :: "('w, 'z) SubjectAccessReviewAuthorizer_scheme \<Rightarrow> Attributes \<Rightarrow> bool" where
  "namespace_admitted o' attributes \<longleftrightarrow>
     (\<forall>p. extractParentContext o' attributes = Some p \<and> pc_apiGroup p = ''resourcemanager.miloapis.com'' \<and>
          pc_kind p = ''Organization'' \<longrightarrow>
        (if GetNamespace attributes = []
         then isResourceNamespaced o' (GetAPIGroup attributes) (GetAPIVersion attributes) (GetResource attributes) = Inr False
         else GetNamespace attributes = ''organization-'' @ pc_name p))"

definition registers :: "('w, 'z) SubjectAccessReviewAuthorizer_scheme \<Rightarrow> ProtectedResource \<Rightarrow> Attributes \<Rightarrow> bool" where
  "registers o' pr attributes \<longleftrightarrow>
     (if EnableSubresourceAuthorization o'
      then \<not> pr_DeletionTimestamp pr \<and>
           (\<exists>p. wf_permission p \<and> Permission_String p = buildPermissionString o' attributes \<and> Defined (pr_Spec pr) p True)
      else GetVerb attributes \<in> set (spec_Permissions (pr_Spec pr)))"

definition request_key :: "('w, 'z) SubjectAccessReviewAuthorizer_scheme \<Rightarrow> Attributes \<Rightarrow> string \<Rightarrow> CheckRequestTupleKey" where
  "request_key o' attributes object =
     \<lparr>check_User = ''iam.miloapis.com/InternalUser:'' @ user_UID (GetUser attributes),
      check_Relation = HashPermission (buildPermissionString o' attributes), check_Object = object\<rparr>"

definition request_model :: "('w, 'z) SubjectAccessReviewAuthorizer_scheme \<Rightarrow> string" where
  "request_model o' = (case ModelIDWatcher o' of None \<Rightarrow> [] | Some w \<Rightarrow> Watcher_GetModelID w)"

text \<open>The documented behaviour of BatchCheck: one answer per check, under its correlation ID.\<close>

definition batch_answers ::
    "('w, 'z) SubjectAccessReviewAuthorizer_scheme \<Rightarrow> (string \<Rightarrow> string \<Rightarrow> CheckRequestTupleKey \<Rightarrow> 'w \<Rightarrow> bool) \<Rightarrow> 'w \<Rightarrow> bool" where
  "batch_answers o' allowed w \<longleftrightarrow>
     (\<forall>rq. \<exists>results. BatchCheck o' rq w = Inr results \<and>
        set results = (\<lambda>i. (item_CorrelationId i, allowed (bc_StoreId rq) (bc_AuthorizationModelId rq) (item_TupleKey i) w)) ` set (bc_Checks rq))"

lemma buildParentResource_eq:
  "buildParentResource o' attributes =
     (case extractParentContext o' attributes of
        Some p \<Rightarrow> Inr (ObjectName (pc_apiGroup p) (pc_kind p) (pc_name p))
      | None \<Rightarrow> Inl (ErrorString ''parent resource not found in extra data''))"
  by (auto simp: buildParentResource_def extractParentContext_def ObjectName_def Let_def split: option.splits)

lemma buildResourceObject_hit:
  assumes "GetByAPIGroupAndResource (Cache o') (getEffectiveAPIGroup attributes) (GetResource attributes) = Some pr"
  shows "buildResourceObject o' attributes = Inr (request_target o' pr attributes)"
  using assms
  by (auto simp: buildResourceObject_def getProtectedResource_def request_target_def buildParentResource_eq ObjectName_def Let_def
      split: option.splits)

lemma validatePermission_iff:
  "validatePermissionWithServiceDefaulting o' attributes =
     Inr (\<exists>pr. GetByAPIGroupAndResource (Cache o') (getEffectiveAPIGroup attributes) (GetResource attributes) = Some pr \<and>
          registers o' pr attributes)"
proof (cases "GetByAPIGroupAndResource (Cache o') (getEffectiveAPIGroup attributes) (GetResource attributes)")
  case None
  then show ?thesis by (simp add: validatePermissionWithServiceDefaulting_def)
next
  case (Some pr)
  show ?thesis
  proof (cases "Parse (buildPermissionString o' attributes)")
    case None
    then have "\<nexists>p. wf_permission p \<and> Permission_String p = buildPermissionString o' attributes"
      by (metis Parse_String option.distinct(1))
    with Some None show ?thesis
      by (auto simp: validatePermissionWithServiceDefaulting_def registers_def)
  next
    case (Some q)
    then have "(\<exists>p. wf_permission p \<and> Permission_String p = buildPermissionString o' attributes \<and> Defined (pr_Spec pr) p True)
        \<longleftrightarrow> Defined (pr_Spec pr) q True"
      using Parse_Some_sound[OF Some] Parse_String by (metis option.inject)
    with Some \<open>GetByAPIGroupAndResource _ _ _ = Some pr\<close> show ?thesis
      by (auto simp: validatePermissionWithServiceDefaulting_def registers_def)
  qed
qed

lemma validateOrganizationNamespace_iff:
  assumes "ac_parentContext ctx = extractParentContext o' attributes"
  shows "(\<exists>u. validateOrganizationNamespace o' ctx attributes = Inr u) \<longleftrightarrow> namespace_admitted o' attributes"
  using assms
  by (auto simp: validateOrganizationNamespace_def namespace_admitted_def isOrganizationScope_def Let_def go_calls
      split: option.splits)

text \<open>Every request the authorizer sends, as the set of its checks.\<close>

definition batch_request :: "('w, 'z) SubjectAccessReviewAuthorizer_scheme \<Rightarrow> ProtectedResource \<Rightarrow> Attributes \<Rightarrow> BatchCheckRequest \<Rightarrow> bool" where
  "batch_request o' pr attributes rq \<longleftrightarrow>
     bc_StoreId rq = FGAStoreID o' \<and> bc_AuthorizationModelId rq = request_model o' \<and>
     item_TupleKey ` set (bc_Checks rq) = request_key o' attributes ` checked_objects o' pr attributes"

definition admissible :: "('w, 'z) SubjectAccessReviewAuthorizer_scheme \<Rightarrow> ProtectedResource \<Rightarrow> Attributes \<Rightarrow> bool" where
  "admissible o' pr attributes \<longleftrightarrow>
     user_UID (GetUser attributes) \<noteq> [] \<and> namespace_admitted o' attributes \<and>
     GetByAPIGroupAndResource (Cache o') (getEffectiveAPIGroup attributes) (GetResource attributes) = Some pr \<and>
     registers o' pr attributes"

lemma request_key_simps [simp]:
  "check_Object (request_key o' attributes x) = x"
  "(request_key o' attributes x)\<lparr>check_Object := y\<rparr> = request_key o' attributes y"
  by (simp_all add: request_key_def)

lemma scopeChecks_keys:
  assumes "ac_parentContext ctx = extractParentContext o' attributes" and "cr_TupleKey cr = request_key o' attributes t"
  shows "insert (request_key o' attributes t) (item_TupleKey ` set (scopeChecks ctx cr)) =
    insert (request_key o' attributes t) (request_key o' attributes ` scope_objects o' attributes)"
proof (cases "extractParentContext o' attributes")
  case None
  with assms show ?thesis by (simp add: scopeChecks_def scope_objects_def)
next
  case (Some p)
  with assms show ?thesis by (auto simp: scopeChecks_def scope_objects_def TypeRoot_def ObjectName_def Let_def)
qed

lemma Authorize_admissible:
  assumes "admissible o' pr attributes"
  shows "\<exists>rq. batch_request o' pr attributes rq \<and>
    Authorize o' attributes w =
      (case BatchCheck o' rq w of Inl err \<Rightarrow> (DecisionNoOpinion, [], Some err)
       | Inr results \<Rightarrow> (if list_ex snd results then DecisionAllow else DecisionDeny, [], None))"
proof -
  let ?ctx = "\<lparr>ac_userUID = user_UID (GetUser attributes), ac_permission = buildPermissionString o' attributes,
    ac_parentContext = extractParentContext o' attributes, ac_namespace = GetNamespace attributes\<rparr>"
  let ?target = "request_target o' pr attributes"
  let ?cr = "\<lparr>cr_StoreId = FGAStoreID o', cr_AuthorizationModelId = request_model o', cr_TupleKey = request_key o' attributes ?target\<rparr>"
  let ?checks = "[\<lparr>item_TupleKey = request_key o' attributes ?target, item_CorrelationId = ''instance''\<rparr>,
    \<lparr>item_TupleKey = request_key o' attributes (buildRootResource pr), item_CorrelationId = ''root''\<rparr>] @ scopeChecks ?ctx ?cr"
  let ?rq = "\<lparr>bc_StoreId = FGAStoreID o', bc_AuthorizationModelId = request_model o', bc_Checks = ?checks\<rparr>"
  note hit = assms[unfolded admissible_def]
  have ctx: "buildAuthorizationContext o' attributes = Inr ?ctx"
    using hit by (simp add: buildAuthorizationContext_def Let_def)
  obtain u where ns: "validateOrganizationNamespace o' ?ctx attributes = Inr u"
    using hit validateOrganizationNamespace_iff[of ?ctx o' attributes] by auto
  have perm: "validatePermissionWithServiceDefaulting o' attributes = Inr True"
    using hit by (auto simp: validatePermission_iff)
  have cr: "buildCheckRequest o' attributes ?ctx = Inr ?cr"
    using hit by (simp add: buildCheckRequest_def buildResourceObject_hit[of o' attributes pr] request_key_def request_model_def
        buildHashedPermissionRelation_def)
  have "batch_request o' pr attributes ?rq"
    using scopeChecks_keys[of ?ctx o' attributes ?cr ?target]
    by (simp add: batch_request_def checked_objects_def image_Un insert_commute Un_insert_right del: Un_insert_left) blast
  moreover have "Authorize o' attributes w =
      (case BatchCheck o' ?rq w of Inl err \<Rightarrow> (DecisionNoOpinion, [], Some err)
       | Inr results \<Rightarrow> (if list_ex snd results then DecisionAllow else DecisionDeny, [], None))"
    using hit by (simp add: Authorize_def ctx ns perm cr getProtectedResource_def executeBatchCheck_def Let_def split: sum.splits)
  ultimately show ?thesis by blast
qed

lemma Authorize_inadmissible:
  assumes "\<nexists>pr. admissible o' pr attributes"
  shows "fst (Authorize o' attributes w) = DecisionDeny"
proof (cases "user_UID (GetUser attributes) = []")
  case True
  then show ?thesis by (simp add: Authorize_def buildAuthorizationContext_def Let_def)
next
  case False
  let ?ctx = "\<lparr>ac_userUID = user_UID (GetUser attributes), ac_permission = buildPermissionString o' attributes,
    ac_parentContext = extractParentContext o' attributes, ac_namespace = GetNamespace attributes\<rparr>"
  have ctx: "buildAuthorizationContext o' attributes = Inr ?ctx"
    using False by (simp add: buildAuthorizationContext_def Let_def)
  show ?thesis
  proof (cases "namespace_admitted o' attributes")
    case True
    with False assms have "validatePermissionWithServiceDefaulting o' attributes = Inr False"
      by (auto simp: validatePermission_iff admissible_def)
    then show ?thesis by (auto simp: Authorize_def ctx Let_def split: sum.splits)
  next
    case False
    then obtain e where "validateOrganizationNamespace o' ?ctx attributes = Inl e"
      using validateOrganizationNamespace_iff[of ?ctx o' attributes] by (metis authorizationContext.select_convs(3) sumE)
    then show ?thesis by (simp add: Authorize_def ctx)
  qed
qed

lemma Authorize_allow_checks:
  assumes "batch_answers o' allowed w"
  shows "fst (Authorize o' attributes w) = DecisionAllow \<longleftrightarrow>
    (\<exists>pr. admissible o' pr attributes \<and>
       (\<exists>object \<in> checked_objects o' pr attributes.
          allowed (FGAStoreID o') (request_model o') (request_key o' attributes object) w))"
proof (cases "\<exists>pr. admissible o' pr attributes")
  case False
  then show ?thesis using Authorize_inadmissible[of o' attributes w] by auto
next
  case True
  then obtain pr where pr: "admissible o' pr attributes" by blast
  then have uniq: "admissible o' pr' attributes \<Longrightarrow> pr' = pr" for pr' by (simp add: admissible_def)
  obtain rq where rq: "batch_request o' pr attributes rq"
    and run: "Authorize o' attributes w = (case BatchCheck o' rq w of Inl err \<Rightarrow> (DecisionNoOpinion, [], Some err)
       | Inr results \<Rightarrow> (if list_ex snd results then DecisionAllow else DecisionDeny, [], None))"
    using Authorize_admissible[OF pr] by blast
  obtain results where res: "BatchCheck o' rq w = Inr results"
    and set: "set results = (\<lambda>i. (item_CorrelationId i, allowed (bc_StoreId rq) (bc_AuthorizationModelId rq) (item_TupleKey i) w)) ` set (bc_Checks rq)"
    using assms unfolding batch_answers_def by blast
  have ids: "bc_StoreId rq = FGAStoreID o'" "bc_AuthorizationModelId rq = request_model o'"
    using rq by (simp_all add: batch_request_def)
  have keys: "item_TupleKey ` set (bc_Checks rq) = request_key o' attributes ` checked_objects o' pr attributes"
    using rq by (simp add: batch_request_def)
  have "fst (Authorize o' attributes w) = DecisionAllow \<longleftrightarrow> list_ex snd results" by (simp add: run res)
  also have "\<dots> \<longleftrightarrow> (\<exists>k \<in> item_TupleKey ` set (bc_Checks rq). allowed (FGAStoreID o') (request_model o') k w)"
    by (simp add: list_ex_iff set ids)
  also have "\<dots> \<longleftrightarrow> (\<exists>object \<in> checked_objects o' pr attributes. allowed (FGAStoreID o') (request_model o') (request_key o' attributes object) w)"
    by (simp only: keys) simp
  finally show ?thesis using pr uniq by metis
qed

text \<open>
  C3. When BatchCheck answers every check it is sent, \<open>Authorize\<close> allows a request
  exactly when the user has a UID, the namespace is admitted for the organization of the
  request, the permission is registered by the cached ProtectedResource, and OpenFGA
  allows the user the hashed permission on one of: the object of the request, the root
  object of its kind, the root object of the parent's kind, the parent itself.
\<close>

theorem Authorize_allow_iff:
  assumes "batch_answers o' allowed w"
  shows "fst (Authorize o' attributes w) = DecisionAllow \<longleftrightarrow>
    (\<exists>pr. admissible o' pr attributes \<and>
       (\<exists>object \<in> checked_objects o' pr attributes.
          allowed (FGAStoreID o') (request_model o') (request_key o' attributes object) w))"
  using assms by (rule Authorize_allow_checks)
section \<open>Failing closed\<close>

lemma Authorize_allow_batch:
  assumes "Authorize o' attributes w = (DecisionAllow, reason, err)"
  shows "err = None \<and> (\<exists>pr rq results. admissible o' pr attributes \<and> batch_request o' pr attributes rq \<and>
    BatchCheck o' rq w = Inr results \<and> (\<exists>c. (c, True) \<in> set results))"
proof -
  from assms Authorize_inadmissible[of o' attributes w] obtain pr where pr: "admissible o' pr attributes" by fastforce
  obtain rq where "batch_request o' pr attributes rq"
    and "Authorize o' attributes w = (case BatchCheck o' rq w of Inl err \<Rightarrow> (DecisionNoOpinion, [], Some err)
       | Inr results \<Rightarrow> (if list_ex snd results then DecisionAllow else DecisionDeny, [], None))"
    using Authorize_admissible[OF pr] by blast
  with assms pr show ?thesis by (fastforce simp: list_ex_iff split: sum.splits if_splits)
qed

lemma handle_review_allowed:
  assumes "Allowed (handle_review o' parsers spec w)"
  shows "\<not> StatusDenied (handle_review o' parsers spec w) \<and> EvaluationError (handle_review o' parsers spec w) = [] \<and>
    (\<exists>reason. Authorize o' (review_attributes spec) w = (DecisionAllow, reason, None))"
  using assms
  by (auto simp: handle_review_def Denied_def Errored_def AuthorizationResponse_def split: if_splits sum.splits prod.splits option.splits)

text \<open>
  C12. Whatever the service, the decoder and the selector parsers do, a response says
  allowed only when a well-formed JSON review was decoded, is admissible, and a
  BatchCheck on the review's own user, permission and objects came back without error
  and with a positive answer; the response then carries no denial and no error, and is
  counted as allowed. Every failure on the way leaves the request not allowed.
\<close>

theorem ServeHTTP_fails_closed:
  assumes "ServeHTTP (handle_review o' parsers) Decode r w = (st, decision, scope, resourceGroup)" and "Allowed st"
  shows "\<not> StatusDenied st \<and> EvaluationError st = [] \<and> decision = ''allowed'' \<and>
    (\<exists>body spec pr rq results c.
       http_Body r = Some (Inr body) \<and> http_ContentType r = ''application/json'' \<and> Decode body = Inr spec \<and>
       admissible o' pr (review_attributes spec) \<and> batch_request o' pr (review_attributes spec) rq \<and>
       BatchCheck o' rq w = Inr results \<and> (c, True) \<in> set results)"
proof -
  from assms obtain body spec where req: "http_Body r = Some (Inr body)" "http_ContentType r = ''application/json''" "Decode body = Inr spec"
    and st: "st = handle_review o' parsers spec w" and d: "decision = decisionFromResponse st"
    by (auto simp: ServeHTTP_def Errored_def AuthorizationResponse_def Let_def split: option.splits sum.splits if_splits)
  note ok = handle_review_allowed[OF assms(2)[unfolded st]]
  then obtain reason where auth: "Authorize o' (review_attributes spec) w = (DecisionAllow, reason, None)" by blast
  have "decision = ''allowed''" using ok assms(2) d st by (simp add: decisionFromResponse_def)
  with ok st req Authorize_allow_batch[OF auth] show ?thesis by blast
qed

text \<open>
  C6. A request that comes through an organization is refused with an error unless it
  names the organization's own namespace, or names none and its resource is known to be
  cluster-scoped, whatever the service would answer: no organization reaches into the
  namespace of another.
\<close>

theorem organization_isolation:
  assumes "extractParentContext o' attributes = Some p"
    and "pc_apiGroup p = ''resourcemanager.miloapis.com''" and "pc_kind p = ''Organization''"
    and "GetNamespace attributes \<noteq> ''organization-'' @ pc_name p"
    and "GetNamespace attributes = [] \<Longrightarrow>
      isResourceNamespaced o' (GetAPIGroup attributes) (GetAPIVersion attributes) (GetResource attributes) \<noteq> Inr False"
  shows "\<exists>e. Authorize o' attributes w = (DecisionDeny, [], Some e)"
proof (cases "user_UID (GetUser attributes) = []")
  case True
  then show ?thesis by (simp add: Authorize_def buildAuthorizationContext_def Let_def)
next
  case False
  let ?ctx = "\<lparr>ac_userUID = user_UID (GetUser attributes), ac_permission = buildPermissionString o' attributes,
    ac_parentContext = extractParentContext o' attributes, ac_namespace = GetNamespace attributes\<rparr>"
  have "\<not> namespace_admitted o' attributes" using assms by (auto simp: namespace_admitted_def)
  then obtain e where "validateOrganizationNamespace o' ?ctx attributes = Inl e"
    using validateOrganizationNamespace_iff[of ?ctx o' attributes] by (metis authorizationContext.select_convs(3) sumE)
  then show ?thesis using False by (simp add: Authorize_def buildAuthorizationContext_def Let_def)
qed

section \<open>Only registered permissions\<close>

lemma Permission_String_cacheKey:
  "Permission_String \<lparr>perm_APIGroup = g, perm_Resource = r, perm_Subresource = [], perm_Verb = v\<rparr> = cacheKey g r @ ''.'' @ v"
  by (simp add: Permission_String_def cacheKey_def)

lemma registers_enumerated:
  assumes "registers o' pr attributes" and "wf_spec (pr_Spec pr)"
    and key: "pr_key pr = cacheKey (getEffectiveAPIGroup attributes) (GetResource attributes)"
  shows "buildPermissionString o' attributes \<in> set (Enumerate (pr_Spec pr) (EnableSubresourceAuthorization o'))"
proof (cases "EnableSubresourceAuthorization o'")
  case True
  with assms(1) obtain p where "Permission_String p = buildPermissionString o' attributes" "Defined (pr_Spec pr) p True"
    by (auto simp: registers_def)
  then have "p \<in> enumerated (pr_Spec pr) True" using Defined_iff_enumerated[OF assms(2)] by simp
  moreover have "spec_Plural (pr_Spec pr) \<noteq> []" using assms(2) by (simp add: wf_spec_def)
  ultimately show ?thesis using True \<open>Permission_String p = _\<close>[symmetric] by (simp add: set_Enumerate)
next
  case False
  let ?p = "\<lparr>perm_APIGroup = ServiceRef_Name (pr_Spec pr), perm_Resource = spec_Plural (pr_Spec pr),
    perm_Subresource = [], perm_Verb = GetVerb attributes\<rparr>"
  have "?p \<in> enumerated (pr_Spec pr) False" using assms(1) False by (simp add: registers_def enumerated_def)
  moreover have "buildPermissionString o' attributes = Permission_String ?p"
    using key[symmetric] False unfolding pr_key_def
    by (simp add: buildPermissionString_def buildPermission_def Permission_String_cacheKey)
  moreover have "spec_Plural (pr_Spec pr) \<noteq> []" using assms(2) by (simp add: wf_spec_def)
  ultimately show ?thesis using False by (simp add: set_Enumerate)
qed

text \<open>
  C24. With a cache maintained by the informer handlers over well-formed registrations,
  an allowed request asks for a permission that a ProtectedResource living in the
  cluster enumerates, the list the authorization model gives relations to; with
  subresources enabled, the registration is also not being deleted.
\<close>

theorem Authorize_only_registered:
  assumes "cache_step\<^sup>*\<^sup>* ((\<lambda>_. None), empty_cache) (live, Cache o')"
    and "\<And>n pr. live n = Some pr \<Longrightarrow> wf_spec (pr_Spec pr)"
    and "fst (Authorize o' attributes w) = DecisionAllow"
  shows "\<exists>n pr. live n = Some pr \<and>
    buildPermissionString o' attributes \<in> set (Enumerate (pr_Spec pr) (EnableSubresourceAuthorization o')) \<and>
    (EnableSubresourceAuthorization o' \<longrightarrow> \<not> pr_DeletionTimestamp pr)"
proof -
  obtain reason err where "Authorize o' attributes w = (DecisionAllow, reason, err)"
    using assms(3) by (metis prod.collapse)
  from Authorize_allow_batch[OF this] obtain pr where adm: "admissible o' pr attributes" by blast
  then have reg: "registers o' pr attributes"
    and hit: "map_of (index (Cache o')) (cacheKey (getEffectiveAPIGroup attributes) (GetResource attributes)) = Some pr"
    by (simp_all add: admissible_def GetByAPIGroupAndResource_def)
  from cache_sound[OF assms(1)] hit obtain n where n: "live n = Some pr"
    and key: "pr_key pr = cacheKey (getEffectiveAPIGroup attributes) (GetResource attributes)"
    by (auto simp: prc.sound_def)
  have "EnableSubresourceAuthorization o' \<Longrightarrow> \<not> pr_DeletionTimestamp pr" using reg by (simp add: registers_def)
  with registers_enumerated[OF reg assms(2)[OF n] key] n show ?thesis by blast
qed

section \<open>Evaluations\<close>

text \<open>
  A BatchCheck that looks the checks up among the stored tuples of the in-memory service,
  and an authorizer with one cached registration.
\<close>

definition mem_allowed :: "string \<Rightarrow> string \<Rightarrow> CheckRequestTupleKey \<Rightarrow> mem_world \<Rightarrow> bool" where
  "mem_allowed sid mid k w = list_ex (\<lambda>t. t = grant (check_User k) (check_Relation k) (check_Object k)) (mem_tuples w)"

definition mem_BatchCheck :: "BatchCheckRequest \<Rightarrow> mem_world \<Rightarrow> (string \<times> bool) list result" where
  "mem_BatchCheck rq w =
     Inr (map (\<lambda>i. (item_CorrelationId i, mem_allowed (bc_StoreId rq) (bc_AuthorizationModelId rq) (item_TupleKey i) w)) (bc_Checks rq))"

definition example_authorizer :: "mem_world SubjectAccessReviewAuthorizer" where
  "example_authorizer =
     \<lparr>EnableSubresourceAuthorization = True, BatchCheck = mem_BatchCheck, FGAStoreID = ''s'', ModelIDWatcher = None,
      Cache = AddFunc empty_cache (Object (example_pr ''s'' ''K'' ''ks'' [''get''] [])), Discovery = None,
      Keys = \<lparr>ParentAPIGroupExtraKey = ''group'', ParentKindExtraKey = ''kind'', ParentNameExtraKey = ''name''\<rparr>\<rparr>"

definition example_extra :: "string \<Rightarrow> (string \<times> string list) list" where
  "example_extra org = [(''group'', [''resourcemanager.miloapis.com'']), (''kind'', [''Organization'']), (''name'', [org])]"

definition example_review :: "string \<Rightarrow> ReviewSpec" where
  "example_review namespace =
     \<lparr>rv_User = ''ann'', rv_UID = ''u1'', rv_Groups = [], rv_Extra = example_extra ''acme'',
      rv_ResourceAttributes = Some \<lparr>ra_Verb = ''get'', ra_Namespace = namespace, ra_Group = ''s'', ra_Version = ''v1'',
        ra_Resource = ''ks'', ra_Subresource = [], ra_Name = ''n1'', ra_FieldSelector = None, ra_LabelSelector = None\<rparr>,
      rv_NonResourceAttributes = None\<rparr>"

definition example_parsers :: SelectorParsers where
  "example_parsers = \<lparr>ParseSelector = (\<lambda>_. Inr ()), ParseToRequirements = (\<lambda>_. Inr ())\<rparr>"

definition granted_world :: "string \<Rightarrow> mem_world" where
  "granted_world object =
     \<lparr>mem_tuples = [grant ''iam.miloapis.com/InternalUser:u1'' (HashPermission ''s/ks.get'') object],
      mem_models = [], mem_timeouts = 0, mem_model_id = []\<rparr>"

definition example_attributes :: Attributes where
  "example_attributes = review_attributes (example_review ''organization-acme'')"

lemma mem_batch_answers: "batch_answers example_authorizer mem_allowed w"
  by (simp add: batch_answers_def example_authorizer_def mem_BatchCheck_def)

lemma example_allow: "fst (Authorize example_authorizer example_attributes (granted_world ''s/K:n1'')) = DecisionAllow"
  by code_simp

text \<open>A grant on the organization the request comes through is enough; one on another organization is not.\<close>

theorem Authorize_allow_iff_witness:
  "(\<exists>pr. admissible example_authorizer pr example_attributes \<and>
     (\<exists>object \<in> checked_objects example_authorizer pr example_attributes.
        mem_allowed ''s'' [] (request_key example_authorizer example_attributes object)
          (granted_world ''resourcemanager.miloapis.com/Organization:acme''))) \<and>
   \<not> (\<exists>pr. admissible example_authorizer pr example_attributes \<and>
     (\<exists>object \<in> checked_objects example_authorizer pr example_attributes.
        mem_allowed ''s'' [] (request_key example_authorizer example_attributes object)
          (granted_world ''resourcemanager.miloapis.com/Organization:other'')))"
proof -
  let ?w = "granted_world ''resourcemanager.miloapis.com/Organization:acme''"
  let ?v = "granted_world ''resourcemanager.miloapis.com/Organization:other''"
  have ids: "FGAStoreID example_authorizer = ''s''" "request_model example_authorizer = []"
    by (simp_all add: example_authorizer_def request_model_def)
  have "fst (Authorize example_authorizer example_attributes ?w) = DecisionAllow" by code_simp
  moreover have "fst (Authorize example_authorizer example_attributes ?v) \<noteq> DecisionAllow" by code_simp
  ultimately show ?thesis
    using Authorize_allow_iff[OF mem_batch_answers[of ?w], of example_attributes]
      Authorize_allow_iff[OF mem_batch_answers[of ?v], of example_attributes]
    unfolding ids by blast
qed

theorem ServeHTTP_fails_closed_witness:
  "\<exists>rq results c. batch_request example_authorizer (example_pr ''s'' ''K'' ''ks'' [''get''] []) example_attributes rq \<and>
     mem_BatchCheck rq (granted_world ''s/K:n1'') = Inr results \<and> (c, True) \<in> set results"
proof -
  let ?r = "\<lparr>http_Body = Some (Inr ''{}''), http_ContentType = ''application/json''\<rparr>"
  let ?Decode = "\<lambda>_. Inr (example_review ''organization-acme'')"
  obtain st where run: "ServeHTTP (handle_review example_authorizer example_parsers) ?Decode ?r (granted_world ''s/K:n1'') =
      (st, ''allowed'', ''unknown'', ''s'')" and ok: "Allowed st"
  proof
    show "ServeHTTP (handle_review example_authorizer example_parsers) ?Decode ?r (granted_world ''s/K:n1'') =
      (\<lparr>Allowed = True, StatusDenied = False, Reason = [], EvaluationError = []\<rparr>, ''allowed'', ''unknown'', ''s'')" by code_simp
  qed simp
  have "admissible example_authorizer pr example_attributes \<Longrightarrow> pr = example_pr ''s'' ''K'' ''ks'' [''get''] []" for pr
  proof -
    have "GetByAPIGroupAndResource (Cache example_authorizer) (getEffectiveAPIGroup example_attributes) (GetResource example_attributes) =
      Some (example_pr ''s'' ''K'' ''ks'' [''get''] [])" by code_simp
    then show "admissible example_authorizer pr example_attributes \<Longrightarrow> pr = example_pr ''s'' ''K'' ''ks'' [''get''] []"
      by (simp add: admissible_def)
  qed
  moreover have "BatchCheck example_authorizer = mem_BatchCheck" by (simp add: example_authorizer_def)
  ultimately show ?thesis using ServeHTTP_fails_closed[OF run ok] by (auto simp flip: example_attributes_def)
qed

text \<open>The user is granted the object itself, and is refused in the namespace of another organization.\<close>

theorem organization_isolation_witness:
  "\<exists>e. Authorize example_authorizer (review_attributes (example_review ''organization-other'')) (granted_world ''s/K:n1'') =
     (DecisionDeny, [], Some e)"
proof (rule organization_isolation)
  show "extractParentContext example_authorizer (review_attributes (example_review ''organization-other'')) =
    Some \<lparr>pc_apiGroup = ''resourcemanager.miloapis.com'', pc_kind = ''Organization'', pc_name = ''acme''\<rparr>" by code_simp
qed (simp_all add: review_attributes_def example_review_def Let_def)

theorem Authorize_only_registered_witness:
  "\<exists>n pr. [''a'' \<mapsto> example_pr ''s'' ''K'' ''ks'' [''get''] []] n = Some pr \<and>
     ''s/ks.get'' \<in> set (Enumerate (pr_Spec pr) True) \<and> \<not> pr_DeletionTimestamp pr"
proof -
  let ?pr = "example_pr ''s'' ''K'' ''ks'' [''get''] []"
  have "cache_step ((\<lambda>_. None), empty_cache) ([''a'' \<mapsto> ?pr], AddFunc empty_cache (Object ?pr))"
    by (rule cache_step.created) simp
  then have run: "cache_step\<^sup>*\<^sup>* ((\<lambda>_. None), empty_cache) ([''a'' \<mapsto> ?pr], Cache example_authorizer)"
    by (simp add: example_authorizer_def r_into_rtranclp)
  have wf: "wf_spec (pr_Spec pr)" if "[''a'' \<mapsto> ?pr] n = Some pr" for n pr
  proof -
    have "pr = ?pr" using that by (simp split: if_splits)
    moreover have "wf_spec (pr_Spec ?pr)" by code_simp
    ultimately show ?thesis by simp
  qed
  have "buildPermissionString example_authorizer example_attributes = ''s/ks.get''" by code_simp
  moreover have "EnableSubresourceAuthorization example_authorizer" by (simp add: example_authorizer_def)
  ultimately show ?thesis using Authorize_only_registered[OF run wf example_allow] by simp
qed

end
