(* ===== verification/Policy.thy ===== *)
theory Policy
  imports Fga_Client Memory_Store
begin

text \<open>
  \<open>internal/openfga/policy_reconciler.go\<close>: turning a PolicyBinding into permission
  tuples and keeping the store in step with it. The Kubernetes client is a record of
  the three reads the reconciler makes; reads return an error or a value and do not
  change the world.
\<close>

section \<open>Model\<close>

record 'w PolicyK8sClient =
  GetRole :: "string \<Rightarrow> string \<Rightarrow> 'w \<Rightarrow> Role result"
  ListPolicyBindingsByTarget :: "string \<Rightarrow> 'w \<Rightarrow> PolicyBinding list result"
  ListProtectedResources :: "'w \<Rightarrow> ProtectedResource list result"

record 'w PolicyReconciler =
  pol_EnableSubresourceAuthorization :: bool
  pol_StoreID :: string
  pol_Client :: "'w OpenFGAServiceClient"
  pol_K8sClient :: "'w PolicyK8sClient"
  pol_ModelIDProvider :: "'w ModelIDProvider option"
  pol_TargetGuard :: "('w \<Rightarrow> (string, 'w) call) option"

definition getTupleUser :: "Subject \<Rightarrow> string result" where
  "getTupleUser subject =
     (if subject_Kind subject = ''User'' then
        if subject_UID subject = [] then Inl (ErrorString ''user subject must have a UID'')
        else Inr (TypeInternalUser @ '':'' @ subject_Name subject)
      else if subject_Kind subject = ''ServiceAccount'' then
        if subject_UID subject = [] then Inl (ErrorString ''serviceaccount subject must have a UID'')
        else Inr (TypeInternalUser @ '':'' @ subject_UID subject)
      else if subject_Kind subject = ''Group'' then
        if HasPrefix (subject_Name subject) ''system:''
        then Inr (TypeInternalUserGroup @ '':'' @ ReplaceAll (subject_Name subject) (CHR '':'') (CHR ''_'') @ ''#member'')
        else if subject_UID subject = [] then Inl (ErrorString ''group subject must have a UID'')
        else Inr (TypeInternalUserGroup @ '':'' @ subject_UID subject @ ''#member'')
      else Inl (ErrorString (''unsupported subject kind: '' @ subject_Kind subject)))"

definition fetchRole :: "('w, 'z) PolicyReconciler_scheme \<Rightarrow> PolicyBinding \<Rightarrow> 'w \<Rightarrow> Role result" where
  "fetchRole r binding w =
     (let roleNamespace = roleRef_Namespace (pb_RoleRef binding); roleName = roleRef_Name (pb_RoleRef binding)
      in if roleNamespace = []
         then Inl (ErrorString (''RoleRef.Namespace is required but was not provided for Role '' @ quoted roleName @
                '' in PolicyBinding '' @ quoted (pb_Namespace binding @ ''/'' @ pb_Name binding)))
         else (case GetRole (pol_K8sClient r) roleNamespace roleName w of
             Inl err \<Rightarrow>
               if IsNotFound err then Inl (WrapError (''role '' @ quoted roleName @ '' not found'') err)
               else Inl (WrapError (''failed to get role '' @ quoted roleName) err)
           | Inr role \<Rightarrow>
               if pol_EnableSubresourceAuthorization r \<and> role_DeletionTimestamp role
               then Inl (ExternalError None True False (''roles.iam.miloapis.com '' @ role_Name role @ '' not found''))
               else Inr role))"

text \<open>The inner loop over the permissions: which of them become tuples.\<close>

definition granted_permissions :: "bool \<Rightarrow> string set \<Rightarrow> string list \<Rightarrow> string list" where
  "granted_permissions en validPerms effectivePerms =
     filter (\<lambda>permName.
       \<not> (case Parse permName of None \<Rightarrow> False | Some p \<Rightarrow> perm_Subresource p \<noteq> [] \<and> \<not> en) \<and>
       \<not> ((en \<or> validPerms \<noteq> {}) \<and> permName \<notin> validPerms)) effectivePerms"

definition permission_tuple :: "string \<Rightarrow> string \<Rightarrow> string \<Rightarrow> TupleKey" where
  "permission_tuple tupleUser targetObject permName =
     \<lparr>tk_User = tupleUser, tk_Relation = hashPermission permName, tk_Object = targetObject, tk_Condition = None\<rparr>"

fun build_tuples :: "string list \<Rightarrow> string \<Rightarrow> Subject list \<Rightarrow> TupleKey list result" where
  "build_tuples perms targetObject [] = Inr []"
| "build_tuples perms targetObject (subject # subjects) =
     try_pure (getTupleUser subject) (WrapError (''failed to get tuple user for subject '' @ subject_Name subject))
       (\<lambda>tupleUser. try_pure (build_tuples perms targetObject subjects) (\<lambda>e. e)
         (\<lambda>tuples. Inr (map (permission_tuple tupleUser targetObject) perms @ tuples)))"

definition buildPermissionTuples ::
    "('w, 'z) PolicyReconciler_scheme \<Rightarrow> PolicyBinding \<Rightarrow> Role \<Rightarrow> string \<Rightarrow> string set \<Rightarrow> TupleKey list result" where
  "buildPermissionTuples r binding role targetObject validPerms =
     (let effectivePerms = role_EffectivePermissions role;
          effectivePerms = (if length effectivePerms = 0 then role_IncludedPermissions role else effectivePerms)
      in build_tuples (granted_permissions (pol_EnableSubresourceAuthorization r) validPerms effectivePerms)
           targetObject (pb_Subjects binding))"

definition subject_key :: "Subject \<Rightarrow> string" where
  "subject_key s = subject_Kind s @ ''/'' @ subject_Name s"

fun sibling_loop ::
    "('w, 'z) PolicyReconciler_scheme \<Rightarrow> PolicyBinding \<Rightarrow> string \<Rightarrow> string set \<Rightarrow> 'w \<Rightarrow> PolicyBinding list \<Rightarrow>
     TupleKey list result" where
  "sibling_loop r binding targetObject validPerms w [] = Inr []"
| "sibling_loop r binding targetObject validPerms w (other # items) =
     (let triggerSubjects = subject_key ` set (pb_Subjects binding) in
      if pb_DeletionTimestamp other then sibling_loop r binding targetObject validPerms w items
      else if pb_Namespace other = pb_Namespace binding \<and> pb_Name other = pb_Name binding
      then sibling_loop r binding targetObject validPerms w items
      else if \<not> list_ex (\<lambda>s. subject_key s \<in> triggerSubjects) (pb_Subjects other)
      then sibling_loop r binding targetObject validPerms w items
      else (case fetchRole r other w of
          Inl err \<Rightarrow>
            if IsNotFound err then sibling_loop r binding targetObject validPerms w items
            else Inl (WrapError (''failed to fetch role for sibling binding '' @ pb_Namespace other @ ''/'' @ pb_Name other) err)
        | Inr role \<Rightarrow>
            (case buildPermissionTuples r other role targetObject validPerms of
               Inl err \<Rightarrow> sibling_loop r binding targetObject validPerms w items
             | Inr tuples \<Rightarrow>
                 try_pure (sibling_loop r binding targetObject validPerms w items) (\<lambda>e. e)
                   (\<lambda>desired. Inr (tuples @ desired)))))"

definition siblingDesiredTuples ::
    "('w, 'z) PolicyReconciler_scheme \<Rightarrow> PolicyBinding \<Rightarrow> string \<Rightarrow> string set \<Rightarrow> 'w \<Rightarrow> TupleKey list result" where
  "siblingDesiredTuples r binding targetObject validPerms w =
     try_pure (ListPolicyBindingsByTarget (pol_K8sClient r) targetObject w) (WrapError ''failed to list sibling PolicyBindings'')
       (\<lambda>items. sibling_loop r binding targetObject validPerms w items)"

definition getHierarchicalPermissionsForSelector ::
    "('w, 'z) PolicyReconciler_scheme \<Rightarrow> ResourceSelector \<Rightarrow> 'w \<Rightarrow> string set result" where
  "getHierarchicalPermissionsForSelector r selector w =
     try_pure
       (case sel_ResourceRef selector of
          Some ref \<Rightarrow> Inr (ref_APIGroup ref, ref_Kind ref)
        | None \<Rightarrow> (case sel_ResourceKind selector of
            Some rk \<Rightarrow> Inr (kind_APIGroup rk, kind_Kind rk)
          | None \<Rightarrow> Inl (ErrorString ''resourceSelector must specify either resourceRef or resourceKind'')))
       (\<lambda>e. e)
     (\<lambda>(apiGroup, kind).
       try_pure (ListProtectedResources (pol_K8sClient r) w) (WrapError ''failed to list ProtectedResources'')
     (\<lambda>prs.
       try_pure (getResourceGraph prs (pol_EnableSubresourceAuthorization r)) (WrapError ''failed to build resource graph'')
     (\<lambda>resourceGraph.
       let hierarchicalPermissions = calculateHierarchicalPermissions resourceGraph
       in (case map_of hierarchicalPermissions (apiGroup @ ''/'' @ kind) of
           None \<Rightarrow> Inr (set (concat (map snd hierarchicalPermissions)))
         | Some perms \<Rightarrow> Inr (set perms)))))"

fun existing_loop ::
    "('w, 'z) PolicyReconciler_scheme \<Rightarrow> string \<Rightarrow> 'w \<Rightarrow> Subject list \<Rightarrow> TupleKey list result option" where
  "existing_loop r targetObject w [] = Some (Inr [])"
| "existing_loop r targetObject w (subject # subjects) =
     (case getTupleUser subject of
        Inl err \<Rightarrow> Some (Inl (WrapError (''failed to get tuple user for subject '' @ subject_Name subject) err))
      | Inr tupleUser \<Rightarrow>
          (case getTupleKeys (pol_Client r) (pol_StoreID r)
                  \<lparr>rk_User = tupleUser, rk_Relation = [], rk_Object = targetObject\<rparr> w of
             None \<Rightarrow> None
           | Some (Inl err) \<Rightarrow> Some (Inl (WrapError (''failed to get existing tuples for subject '' @ subject_Name subject) err))
           | Some (Inr existing) \<Rightarrow>
               (case existing_loop r targetObject w subjects of
                  None \<Rightarrow> None
                | Some rest \<Rightarrow> Some (try_pure rest (\<lambda>e. e) (\<lambda>more. Inr (existing @ more))))))"

definition getExistingTuples ::
    "('w, 'z) PolicyReconciler_scheme \<Rightarrow> PolicyBinding \<Rightarrow> string \<Rightarrow> 'w \<Rightarrow> TupleKey list result option" where
  "getExistingTuples r binding targetObject w = existing_loop r targetObject w (pb_Subjects binding)"

definition checkTarget :: "('w, 'z) PolicyReconciler_scheme \<Rightarrow> TupleKey list \<Rightarrow> 'w \<Rightarrow> (unit, 'w) call" where
  "checkTarget r added w =
     (if length added = 0 then (Inr (), w)
      else (case pol_TargetGuard r of
          None \<Rightarrow> (Inr (), w)
        | Some guard \<Rightarrow>
            try_call (guard w) (WrapError ''failed to read the binding's target'')
              (\<lambda>reason w. if reason \<noteq> [] then (Inl (TargetNotHeldError reason), w) else (Inr (), w))))"

definition writeGuarded ::
    "('w, 'z) PolicyReconciler_scheme \<Rightarrow> WriteRequest \<Rightarrow> TupleKey list \<Rightarrow> 'w \<Rightarrow> (unit, 'w) call" where
  "writeGuarded r writeReq added w =
     try_call (checkTarget r added w) (\<lambda>e. e)
       (\<lambda>_ w. try_call (writeWithModelTransitionRetry (pol_Client r) writeReq (pol_ModelIDProvider r) w)
                (WrapError ''failed to write permission tuples'') (\<lambda>_ w. (Inr (), w)))"

definition DeletePolicy :: "('w, 'z) PolicyReconciler_scheme \<Rightarrow> PolicyBinding \<Rightarrow> 'w \<Rightarrow> (unit, 'w) comp" where
  "DeletePolicy r binding w =
     go_try (Some (TargetObjectFromResourceSelector (pb_ResourceSelector binding), w))
       (WrapError ''failed to get target object from resource selector'')
     (\<lambda>targetObject w.
       go_try (reading (getExistingTuples r binding targetObject w) w)
         (WrapError ''failed to retrieve existing direct tuples for deletion'')
     (\<lambda>existingTuples w.
       if length existingTuples = 0 then Some (Inr (), w)
       else go_try (Some (getHierarchicalPermissionsForSelector r (pb_ResourceSelector binding) w, w))
              (WrapError ''failed to compute hierarchical permissions'')
     (\<lambda>validPerms w.
       go_try (Some (siblingDesiredTuples r binding targetObject validPerms w, w))
         (WrapError ''failed to compute sibling desired tuples'')
     (\<lambda>stillDesired w.
       let toDelete = snd (diffTuples existingTuples stillDesired)
       in if length toDelete = 0 then Some (Inr (), w)
          else go_try (Some (writeWithModelTransitionRetry (pol_Client r)
                 (delete_request (pol_StoreID r) (ModelIDFrom (pol_ModelIDProvider r) w) toDelete) (pol_ModelIDProvider r) w))
                 (WrapError ''failed to delete policy tuples'') (\<lambda>_ w. Some (Inr (), w))))))"

definition tuple_string :: "TupleKey \<Rightarrow> string" where
  "tuple_string t = tk_User t @ ''|'' @ tk_Relation t @ ''|'' @ tk_Object t"

text \<open>The filter on the removals: tuples a sibling binding still wants stay.\<close>

definition filter_removed ::
    "('w, 'z) PolicyReconciler_scheme \<Rightarrow> PolicyBinding \<Rightarrow> string \<Rightarrow> string set \<Rightarrow> TupleKey list \<Rightarrow> 'w \<Rightarrow> TupleKey list result" where
  "filter_removed r binding targetObject validPerms removed w =
     (if length removed > 0
      then try_pure (siblingDesiredTuples r binding targetObject validPerms w)
             (WrapError ''failed to compute sibling desired tuples'')
             (\<lambda>siblingTuples.
               if length siblingTuples > 0
               then Inr (filter (\<lambda>t. tuple_string t \<notin> tuple_string ` set siblingTuples) removed)
               else Inr removed)
      else Inr removed)"

definition policy_write_request :: "string \<Rightarrow> string \<Rightarrow> TupleKey list \<Rightarrow> TupleKey list \<Rightarrow> WriteRequest" where
  "policy_write_request storeID modelID added removed =
     \<lparr>wr_StoreId = storeID, wr_AuthorizationModelId = modelID,
      wr_Writes = (if length added > 0
                   then Some \<lparr>writes_TupleKeys = added, writes_OnDuplicate = onDuplicateIgnore\<rparr> else None),
      wr_Deletes = (if length removed > 0
                    then Some \<lparr>deletes_TupleKeys = convertTuplesForDelete removed, deletes_OnMissing = onMissingIgnore\<rparr> else None)\<rparr>"

definition reconcilePolicy :: "('w, 'z) PolicyReconciler_scheme \<Rightarrow> PolicyBinding \<Rightarrow> 'w \<Rightarrow> (unit, 'w) comp" where
  "reconcilePolicy r binding w =
     go_try (Some (TargetObjectFromResourceSelector (pb_ResourceSelector binding), w))
       (WrapError ''failed to get target object from resource selector'')
     (\<lambda>targetObject w.
       go_try (Some (getHierarchicalPermissionsForSelector r (pb_ResourceSelector binding) w, w))
         (WrapError ''failed to compute hierarchical permissions'')
     (\<lambda>validPerms w.
       (case fetchRole r binding w of
          Inl err \<Rightarrow>
            if pol_EnableSubresourceAuthorization r \<and> IsNotFound err
            then go_try (DeletePolicy r binding w) (WrapError ''failed to revoke missing role permissions'')
                   (\<lambda>_ w. Some (Inl (WrapError ''failed to fetch role'' err), w))
            else Some (Inl (WrapError ''failed to fetch role'' err), w)
        | Inr role \<Rightarrow>
            go_try (Some (buildPermissionTuples r binding role targetObject validPerms, w))
              (WrapError ''failed to build permission tuples'')
     (\<lambda>desired w.
       go_try (reading (getExistingTuples r binding targetObject w) w) (WrapError ''failed to retrieve existing tuples'')
     (\<lambda>existingTuples w.
       case diffTuples existingTuples desired of (added, removed0) \<Rightarrow>
       go_try (Some (filter_removed r binding targetObject validPerms removed0 w, w)) (\<lambda>e. e)
     (\<lambda>removed w.
       let writeReq = policy_write_request (pol_StoreID r) (ModelIDFrom (pol_ModelIDProvider r) w) added removed
       in if wr_Deletes writeReq = None \<and> wr_Writes writeReq = None then Some (Inr (), w)
          else Some (writeGuarded r writeReq added w)))))))"

definition ReconcilePolicy :: "('w, 'z) PolicyReconciler_scheme \<Rightarrow> PolicyBinding \<Rightarrow> 'w \<Rightarrow> (unit, 'w) comp" where
  "ReconcilePolicy r binding w =
     go_try (reconcilePolicy r binding w) (WrapError ''reconciliation failed'') (\<lambda>_ w. Some (Inr (), w))"


section \<open>Lemmas on the parts\<close>

definition binding_users :: "PolicyBinding \<Rightarrow> string set" where
  "binding_users binding = {u. \<exists>s \<in> set (pb_Subjects binding). getTupleUser s = Inr u}"

text \<open>
  The tuples of a store that are about the binding's subjects and that a read for its
  target returns: those on the target, or on every object of its type when the target has
  an empty name.
\<close>

definition owned :: "TupleKey set \<Rightarrow> PolicyBinding \<Rightarrow> string \<Rightarrow> TupleKey set" where
  "owned S binding target = {t \<in> S. tk_User t \<in> binding_users binding \<and> object_matches target (tk_Object t)}"

lemma getTupleUser_nonempty: "getTupleUser s = Inr u \<Longrightarrow> u \<noteq> []"
  by (auto simp: getTupleUser_def TypeInternalUser_def TypeInternalUserGroup_def split: if_splits)

lemma target_nonempty: "TargetObjectFromResourceSelector sel = Inr t \<Longrightarrow> t \<noteq> []"
  by (auto simp: TargetObjectFromResourceSelector_def ObjectName_def TypeRoot_def split: option.splits)

lemma build_tuples_set:
  "build_tuples perms target ss = Inr ts \<Longrightarrow>
     set ts = (\<Union>u \<in> {u. \<exists>s \<in> set ss. getTupleUser s = Inr u}. permission_tuple u target ` set perms)"
proof (induction ss arbitrary: ts)
  case (Cons s ss)
  from Cons.prems obtain u more where "getTupleUser s = Inr u" "build_tuples perms target ss = Inr more"
    "ts = map (permission_tuple u target) perms @ more"
    by (auto simp: go_calls)
  then show ?case using Cons.IH[of more] by auto
qed simp

lemma build_tuples_users: "build_tuples perms target ss = Inr ts \<Longrightarrow> s \<in> set ss \<Longrightarrow> \<exists>u. getTupleUser s = Inr u"
  by (induction ss arbitrary: ts) (auto simp: go_calls)

text \<open>The permissions a role grants through a binding on a target with the given valid permissions.\<close>

definition role_grants :: "bool \<Rightarrow> string set \<Rightarrow> Role \<Rightarrow> string set" where
  "role_grants en valid role =
     set (granted_permissions en valid
       (if role_EffectivePermissions role = [] then role_IncludedPermissions role else role_EffectivePermissions role))"

lemma buildPermissionTuples_set:
  assumes "buildPermissionTuples r b role target valid = Inr ts"
  shows "set ts = (\<Union>u \<in> binding_users b.
    permission_tuple u target ` role_grants (pol_EnableSubresourceAuthorization r) valid role)"
  using build_tuples_set assms
  by (simp add: buildPermissionTuples_def Let_def binding_users_def role_grants_def)

lemma buildPermissionTuples_fields:
  assumes "buildPermissionTuples r b role target valid = Inr ts" and "t \<in> set ts"
  shows "tk_Object t = target \<and> tk_User t \<in> binding_users b \<and> tk_Condition t = None"
  using assms buildPermissionTuples_set[OF assms(1)] by (auto simp: permission_tuple_def)

lemma tuple_string_cong: "tuple_key t = tuple_key u \<Longrightarrow> tuple_string t = tuple_string u"
  by (simp add: tuple_key_def tuple_string_def)

lemma tuple_key_inj: "tuple_key t = tuple_key u \<Longrightarrow> tk_Condition t = tk_Condition u \<Longrightarrow> t = u"
  by (cases t; cases u) (simp add: tuple_key_def)

text \<open>What the policy reconciler relies on: paged reads, atomic writes, and a provider and a guard that do not touch the store.\<close>

definition policy_service ::
    "('w, 'z) PolicyReconciler_scheme \<Rightarrow> ('w \<Rightarrow> TupleKey set) \<Rightarrow> ('w \<Rightarrow> ReadRequestTupleKey \<Rightarrow> TupleKey list) \<Rightarrow> (string \<Rightarrow> nat) \<Rightarrow> bool" where
  "policy_service r stored listing position \<longleftrightarrow>
     paged_reads (pol_Client r) stored listing position \<and> atomic_writes (pol_Client r) stored \<and>
     provider_keeps (pol_ModelIDProvider r) stored \<and>
     (\<forall>guard w res w'. pol_TargetGuard r = Some guard \<longrightarrow> guard w = (res, w') \<longrightarrow> stored w' = stored w)"

lemma checkTarget_keeps: "policy_service r stored listing position \<Longrightarrow> checkTarget r added w = (res, w') \<Longrightarrow> stored w' = stored w"
  by (auto simp: policy_service_def checkTarget_def try_call_def split: option.splits if_splits prod.splits sum.splits)

text \<open>No stored tuple carries a condition; no code of the repository writes one.\<close>

definition unconditional :: "TupleKey set \<Rightarrow> bool" where
  "unconditional S \<longleftrightarrow> (\<forall>t \<in> S. tk_Condition t = None)"

lemma existing_loop_spec:
  assumes "paged_reads (pol_Client r) stored listing position" and "target \<noteq> []"
  shows "\<exists>res. existing_loop r target w ss = Some res \<and> (\<forall>ts. res = Inr ts \<longrightarrow>
    set ts = {t \<in> stored w. (\<exists>s \<in> set ss. getTupleUser s = Inr (tk_User t)) \<and> object_matches target (tk_Object t)})"
proof (induction ss)
  case (Cons s ss)
  show ?case
  proof (cases "getTupleUser s")
    case (Inr u)
    let ?k = "\<lparr>rk_User = u, rk_Relation = [], rk_Object = target\<rparr>"
    have u: "matching (stored w) ?k = {t \<in> stored w. tk_User t = u \<and> object_matches target (tk_Object t)}"
      using getTupleUser_nonempty[OF Inr] assms(2) by (simp add: matching_def)
    from assms(1) obtain res where res: "getTupleKeys (pol_Client r) (pol_StoreID r) ?k w = Some res"
      "\<And>ts. res = Inr ts \<Longrightarrow> set ts = matching (stored w) ?k"
      using getTupleKeys_listing[of "pol_Client r" stored listing position "pol_StoreID r" ?k w] by blast
    from Cons.IH obtain more where "existing_loop r target w ss = Some more" "\<forall>ts. more = Inr ts \<longrightarrow>
      set ts = {t \<in> stored w. (\<exists>s \<in> set ss. getTupleUser s = Inr (tk_User t)) \<and> object_matches target (tk_Object t)}" by blast
    with Inr res u show ?thesis by (cases res; cases more) auto
  qed simp
qed simp

lemma getExistingTuples_owned:
  assumes "policy_service r stored listing position" and "target \<noteq> []"
  shows "getExistingTuples r b target w \<noteq> None"
    and "getExistingTuples r b target w = Some (Inr ts) \<Longrightarrow> set ts = owned (stored w) b target"
  using existing_loop_spec[of r stored listing position target w "pb_Subjects b"] assms
  by (auto simp: getExistingTuples_def owned_def binding_users_def policy_service_def)

lemma write_effect_policy_request [simp]:
  "write_effect (policy_write_request sid mid added removed) S = {t \<in> S. tuple_key t \<notin> tuple_key ` set removed} \<union> set added"
  by (auto simp: write_effect_def policy_write_request_def delete_keys_def write_keys_def)

lemma keep_unconditional:
  assumes "unconditional S" and "set removed \<subseteq> S"
  shows "{t \<in> S. tuple_key t \<notin> tuple_key ` set removed} = S - set removed"
  using assms tuple_key_inj unfolding unconditional_def by (auto, metis subsetD)

lemma writeGuarded_effect:
  assumes "policy_service r stored listing position" and "writeGuarded r rq added w = (res, w')"
  shows "(res = Inr () \<longrightarrow> stored w' = write_effect rq (stored w)) \<and>
    (stored w' = stored w \<or> stored w' = write_effect rq (stored w))"
proof -
  obtain r0 w0 where check: "checkTarget r added w = (r0, w0)" by fastforce
  obtain r1 w1 where w1: "writeWithModelTransitionRetry (pol_Client r) rq (pol_ModelIDProvider r) w0 = (r1, w1)" by fastforce
  have "(res = Inr () \<longrightarrow> r1 = Inr () \<and> w' = w1) \<and> (w' = w0 \<or> w' = w1)"
    using assms(2) w1 check by (auto simp: writeGuarded_def try_call_def split: sum.splits prod.splits)
  moreover have "(r1 = Inr () \<longrightarrow> stored w1 = write_effect rq (stored w0)) \<and>
      (stored w1 = stored w0 \<or> stored w1 = write_effect rq (stored w0))"
    by (rule transition_retry_effect[OF _ _ w1]) (use assms(1) in \<open>simp_all add: policy_service_def\<close>)
  ultimately show ?thesis using checkTarget_keeps[OF assms(1) check] by auto
qed


section \<open>Reconciling and deleting a binding\<close>

lemma reconcilePolicy_steps:
  assumes "reconcilePolicy r b w = Some (Inr (), w')"
  obtains target valid role desired existing removed
  where "TargetObjectFromResourceSelector (pb_ResourceSelector b) = Inr target"
    and "getHierarchicalPermissionsForSelector r (pb_ResourceSelector b) w = Inr valid"
    and "fetchRole r b w = Inr role" and "buildPermissionTuples r b role target valid = Inr desired"
    and "getExistingTuples r b target w = Some (Inr existing)"
    and "filter_removed r b target valid (snd (diffTuples existing desired)) w = Inr removed"
    and "fst (diffTuples existing desired) = [] \<and> removed = [] \<and> w' = w \<or>
      (\<exists>mid. writeGuarded r (policy_write_request (pol_StoreID r) mid (fst (diffTuples existing desired)) removed)
         (fst (diffTuples existing desired)) w = (Inr (), w'))"
proof -
  from assms obtain target valid where tv: "TargetObjectFromResourceSelector (pb_ResourceSelector b) = Inr target"
    "getHierarchicalPermissionsForSelector r (pb_ResourceSelector b) w = Inr valid"
    by (auto simp: reconcilePolicy_def go_calls)
  with assms obtain role where role: "fetchRole r b w = Inr role"
    by (cases "fetchRole r b w") (auto simp: reconcilePolicy_def go_calls split: if_splits)
  with assms tv obtain desired existing where de: "buildPermissionTuples r b role target valid = Inr desired"
    "getExistingTuples r b target w = Some (Inr existing)"
    by (auto simp: reconcilePolicy_def go_calls reading_def)
  with assms tv role obtain removed where rem: "filter_removed r b target valid (snd (diffTuples existing desired)) w = Inr removed"
    by (auto simp: reconcilePolicy_def go_calls reading_def case_prod_beta)
  show thesis
    by (rule that[OF tv role de rem])
      (use assms tv role de rem in
        \<open>auto simp: reconcilePolicy_def reading_def case_prod_beta policy_write_request_def Let_def split: if_splits\<close>)
qed

text \<open>The removals that remain after the filter.\<close>

lemma filter_removed_set:
  assumes "filter_removed r b target valid removed w = Inr kept" and "set removed \<noteq> {}"
  obtains sib where "siblingDesiredTuples r b target valid w = Inr sib"
    and "set kept = {t \<in> set removed. tuple_string t \<notin> tuple_string ` set sib}"
  using assms by (auto simp: filter_removed_def go_calls split: if_splits)

lemma filter_removed_subset: "filter_removed r b target valid removed w = Inr kept \<Longrightarrow> set kept \<subseteq> set removed"
  by (auto simp: filter_removed_def go_calls split: if_splits)

lemma reconcilePolicy_effect:
  assumes "policy_service r stored listing position" and "unconditional (stored w)"
    and "reconcilePolicy r b w = Some (Inr (), w')"
  obtains target valid role desired
  where "TargetObjectFromResourceSelector (pb_ResourceSelector b) = Inr target"
    and "getHierarchicalPermissionsForSelector r (pb_ResourceSelector b) w = Inr valid"
    and "fetchRole r b w = Inr role" and "buildPermissionTuples r b role target valid = Inr desired"
    and "if owned (stored w) b target \<subseteq> set desired then stored w' = stored w \<union> set desired
      else \<exists>sib. siblingDesiredTuples r b target valid w = Inr sib \<and>
        stored w' = (stored w - {t \<in> owned (stored w) b target - set desired. tuple_string t \<notin> tuple_string ` set sib}) \<union> set desired"
proof -
  from assms(3) obtain target valid role desired existing removed
    where steps: "TargetObjectFromResourceSelector (pb_ResourceSelector b) = Inr target"
      "getHierarchicalPermissionsForSelector r (pb_ResourceSelector b) w = Inr valid"
      "fetchRole r b w = Inr role" "buildPermissionTuples r b role target valid = Inr desired"
    and ex: "getExistingTuples r b target w = Some (Inr existing)"
    and rem: "filter_removed r b target valid (snd (diffTuples existing desired)) w = Inr removed"
    and write_step: "fst (diffTuples existing desired) = [] \<and> removed = [] \<and> w' = w \<or>
      (\<exists>mid. writeGuarded r (policy_write_request (pol_StoreID r) mid (fst (diffTuples existing desired)) removed)
         (fst (diffTuples existing desired)) w = (Inr (), w'))"
    by (rule reconcilePolicy_steps)
  have own: "set existing = owned (stored w) b target"
    using ex by (rule getExistingTuples_owned(2)[OF assms(1) target_nonempty[OF steps(1)]])
  then have sub: "set existing \<subseteq> stored w" by (auto simp: owned_def)
  have rem_sub: "set removed \<subseteq> set existing - set desired"
    using filter_removed_subset[OF rem] by (simp add: diffTuples_sets)
  have stored: "stored w' = (stored w - set removed) \<union> set (fst (diffTuples existing desired))"
    using write_step
  proof
    assume "\<exists>mid. writeGuarded r (policy_write_request (pol_StoreID r) mid (fst (diffTuples existing desired)) removed)
         (fst (diffTuples existing desired)) w = (Inr (), w')"
    then have "stored w' = {t \<in> stored w. tuple_key t \<notin> tuple_key ` set removed} \<union> set (fst (diffTuples existing desired))"
      using writeGuarded_effect[OF assms(1)] by fastforce
    then show ?thesis using keep_unconditional[OF assms(2), of removed] rem_sub sub by blast
  qed simp
  then have eq: "stored w' = (stored w - set removed) \<union> set desired"
    using sub rem_sub by (auto simp: diffTuples_sets)
  show thesis
  proof (rule that[OF steps])
    show "if owned (stored w) b target \<subseteq> set desired then stored w' = stored w \<union> set desired
      else \<exists>sib. siblingDesiredTuples r b target valid w = Inr sib \<and>
        stored w' = (stored w - {t \<in> owned (stored w) b target - set desired. tuple_string t \<notin> tuple_string ` set sib}) \<union> set desired"
    proof (cases "owned (stored w) b target \<subseteq> set desired")
      case True
      then have "set removed = {}" using rem_sub own by (metis Diff_eq_empty_iff subset_empty)
      with eq True show ?thesis by simp
    next
      case False
      then have "set (snd (diffTuples existing desired)) \<noteq> {}" using own by (simp add: diffTuples_sets)
      with rem obtain sib where sib: "siblingDesiredTuples r b target valid w = Inr sib"
        and "set removed = {t \<in> set (snd (diffTuples existing desired)). tuple_string t \<notin> tuple_string ` set sib}"
        by (rule filter_removed_set)
      then have "set removed = {t \<in> set existing - set desired. tuple_string t \<notin> tuple_string ` set sib}"
        unfolding diffTuples_sets by simp
      with sib eq own False show ?thesis by simp
    qed
  qed
qed


lemma DeletePolicy_effect:
  assumes "policy_service r stored listing position" and "unconditional (stored w)"
    and "DeletePolicy r b w = Some (Inr (), w')"
  obtains target where "TargetObjectFromResourceSelector (pb_ResourceSelector b) = Inr target"
    and "if owned (stored w) b target = {} then stored w' = stored w
      else \<exists>valid sib. getHierarchicalPermissionsForSelector r (pb_ResourceSelector b) w = Inr valid \<and>
        siblingDesiredTuples r b target valid w = Inr sib \<and> stored w' = stored w - (owned (stored w) b target - set sib)"
proof -
  from assms(3) obtain target existing where target: "TargetObjectFromResourceSelector (pb_ResourceSelector b) = Inr target"
    and ex: "getExistingTuples r b target w = Some (Inr existing)"
    by (auto simp: DeletePolicy_def go_calls reading_def)
  have own: "set existing = owned (stored w) b target"
    using ex by (rule getExistingTuples_owned(2)[OF assms(1) target_nonempty[OF target]])
  show thesis
  proof (rule that[OF target], cases "existing = []")
    case True
    with own have "owned (stored w) b target = {}" by simp
    with assms(3) target ex True show "if owned (stored w) b target = {} then stored w' = stored w
      else \<exists>valid sib. getHierarchicalPermissionsForSelector r (pb_ResourceSelector b) w = Inr valid \<and>
        siblingDesiredTuples r b target valid w = Inr sib \<and> stored w' = stored w - (owned (stored w) b target - set sib)"
      by (simp add: DeletePolicy_def reading_def)
  next
    case False
    with own have nonempty: "owned (stored w) b target \<noteq> {}" by (metis set_empty)
    from assms(3) target ex False obtain valid sib where vs:
      "getHierarchicalPermissionsForSelector r (pb_ResourceSelector b) w = Inr valid"
      "siblingDesiredTuples r b target valid w = Inr sib"
      by (auto simp: DeletePolicy_def go_calls reading_def)
    let ?del = "snd (diffTuples existing sib)"
    have del: "set ?del = owned (stored w) b target - set sib" by (simp add: diffTuples_sets own)
    have "stored w' = stored w - set ?del"
    proof (cases "?del = []")
      case True
      with assms(3) target ex False vs have "w' = w" by (simp add: DeletePolicy_def reading_def)
      with True show ?thesis by simp
    next
      case more: False
      let ?rq = "delete_request (pol_StoreID r) (ModelIDFrom (pol_ModelIDProvider r) w) ?del"
      have wr: "writeWithModelTransitionRetry (pol_Client r) ?rq (pol_ModelIDProvider r) w = (Inr (), w')"
        using assms(3) target ex False vs more by (auto simp: DeletePolicy_def reading_def go_calls)
      have "stored w' = write_effect ?rq (stored w)"
        using transition_retry_effect[OF _ _ wr, of stored] assms(1) by (simp add: policy_service_def)
      moreover have "set ?del \<subseteq> stored w" unfolding del by (auto simp: owned_def)
      ultimately show ?thesis using keep_unconditional[OF assms(2), of ?del] by simp
    qed
    with vs nonempty del show "if owned (stored w) b target = {} then stored w' = stored w
      else \<exists>valid sib. getHierarchicalPermissionsForSelector r (pb_ResourceSelector b) w = Inr valid \<and>
        siblingDesiredTuples r b target valid w = Inr sib \<and> stored w' = stored w - (owned (stored w) b target - set sib)"
      by simp
  qed
qed

text \<open>What another live binding on the same target asks for.\<close>

definition wanted_by :: "('w, 'z) PolicyReconciler_scheme \<Rightarrow> PolicyBinding \<Rightarrow> string \<Rightarrow> string set \<Rightarrow> 'w \<Rightarrow> TupleKey set" where
  "wanted_by r other target valid w =
     (case fetchRole r other w of Inl _ \<Rightarrow> {}
      | Inr role \<Rightarrow> (case buildPermissionTuples r other role target valid of Inl _ \<Rightarrow> {} | Inr ts \<Rightarrow> set ts))"

definition overlapping :: "PolicyBinding \<Rightarrow> PolicyBinding \<Rightarrow> bool" where
  "overlapping b other \<longleftrightarrow> \<not> pb_DeletionTimestamp other \<and>
     \<not> (pb_Namespace other = pb_Namespace b \<and> pb_Name other = pb_Name b) \<and>
     (\<exists>s \<in> set (pb_Subjects other). subject_key s \<in> subject_key ` set (pb_Subjects b))"

lemma sibling_loop_set:
  "sibling_loop r b target valid w items = Inr sib \<Longrightarrow>
   set sib = (\<Union>other \<in> {o' \<in> set items. overlapping b o'}. wanted_by r other target valid w)"
proof (induction items arbitrary: sib)
  case (Cons other items)
  show ?case
  proof (cases "overlapping b other")
    case False
    with Cons.prems have "sibling_loop r b target valid w items = Inr sib"
      by (auto simp: overlapping_def list_ex_iff Let_def split: if_splits)
    with Cons.IH False show ?thesis by auto
  next
    case True
    then have loop: "sibling_loop r b target valid w (other # items) =
        (case fetchRole r other w of
          Inl err \<Rightarrow> if IsNotFound err then sibling_loop r b target valid w items
            else Inl (WrapError (''failed to fetch role for sibling binding '' @ pb_Namespace other @ ''/'' @ pb_Name other) err)
        | Inr role \<Rightarrow> (case buildPermissionTuples r other role target valid of
               Inl err \<Rightarrow> sibling_loop r b target valid w items
             | Inr tuples \<Rightarrow> try_pure (sibling_loop r b target valid w items) (\<lambda>e. e) (\<lambda>desired. Inr (tuples @ desired))))"
      by (auto simp: overlapping_def list_ex_iff Let_def)
    obtain rest where "sibling_loop r b target valid w items = Inr rest"
      "set sib = wanted_by r other target valid w \<union> set rest"
      using Cons.prems unfolding loop by (auto simp: wanted_by_def go_calls split: sum.splits if_splits)
    with Cons.IH[of rest] True show ?thesis by auto
  qed
qed simp


section \<open>Every outcome\<close>

lemma DeletePolicy_outcome:
  assumes "DeletePolicy r b w = Some (res, w')"
  shows "w' = w \<or> (\<exists>target existing valid sib mid r1.
    TargetObjectFromResourceSelector (pb_ResourceSelector b) = Inr target \<and>
    getExistingTuples r b target w = Some (Inr existing) \<and>
    getHierarchicalPermissionsForSelector r (pb_ResourceSelector b) w = Inr valid \<and>
    siblingDesiredTuples r b target valid w = Inr sib \<and>
    writeWithModelTransitionRetry (pol_Client r) (delete_request (pol_StoreID r) mid (snd (diffTuples existing sib)))
      (pol_ModelIDProvider r) w = (r1, w'))"
  using assms unfolding DeletePolicy_def
  by (elim go_try_Some_cases) (auto simp: reading_def Let_def split: if_splits elim!: go_try_Some_cases)

lemma reconcilePolicy_outcome:
  assumes "reconcilePolicy r b w = Some (res, w')"
  shows "w' = w \<or> (\<exists>r1. DeletePolicy r b w = Some (r1, w')) \<or> (\<exists>target existing valid role desired removed mid r1.
    TargetObjectFromResourceSelector (pb_ResourceSelector b) = Inr target \<and>
    getHierarchicalPermissionsForSelector r (pb_ResourceSelector b) w = Inr valid \<and>
    fetchRole r b w = Inr role \<and> buildPermissionTuples r b role target valid = Inr desired \<and>
    getExistingTuples r b target w = Some (Inr existing) \<and>
    filter_removed r b target valid (snd (diffTuples existing desired)) w = Inr removed \<and>
    writeGuarded r (policy_write_request (pol_StoreID r) mid (fst (diffTuples existing desired)) removed)
      (fst (diffTuples existing desired)) w = (r1, w'))"
  using assms unfolding reconcilePolicy_def
  by (elim go_try_Some_cases)
    (auto simp: reading_def Let_def case_prod_beta split: if_splits sum.splits elim!: go_try_Some_cases)

text \<open>A tuple is shielded from a binding when it is not the binding's, or a sibling wants it.\<close>

definition shielded :: "('w, 'z) PolicyReconciler_scheme \<Rightarrow> ('w \<Rightarrow> TupleKey set) \<Rightarrow> PolicyBinding \<Rightarrow> 'w \<Rightarrow> TupleKey \<Rightarrow> bool" where
  "shielded r stored b w t \<longleftrightarrow> (\<forall>target valid sib.
     TargetObjectFromResourceSelector (pb_ResourceSelector b) = Inr target \<longrightarrow>
     getHierarchicalPermissionsForSelector r (pb_ResourceSelector b) w = Inr valid \<longrightarrow>
     siblingDesiredTuples r b target valid w = Inr sib \<longrightarrow> t \<notin> owned (stored w) b target \<or> t \<in> set sib)"

lemma DeletePolicy_keeps:
  assumes "policy_service r stored listing position" and "unconditional (stored w)"
    and "DeletePolicy r b w = Some (res, w')" and "t \<in> stored w" and "shielded r stored b w t"
  shows "t \<in> stored w'"
  using DeletePolicy_outcome[OF assms(3)]
proof
  assume "\<exists>target existing valid sib mid r1.
    TargetObjectFromResourceSelector (pb_ResourceSelector b) = Inr target \<and>
    getExistingTuples r b target w = Some (Inr existing) \<and>
    getHierarchicalPermissionsForSelector r (pb_ResourceSelector b) w = Inr valid \<and>
    siblingDesiredTuples r b target valid w = Inr sib \<and>
    writeWithModelTransitionRetry (pol_Client r) (delete_request (pol_StoreID r) mid (snd (diffTuples existing sib)))
      (pol_ModelIDProvider r) w = (r1, w')"
  then obtain target existing valid sib mid r1 where
    target: "TargetObjectFromResourceSelector (pb_ResourceSelector b) = Inr target"
    and ex: "getExistingTuples r b target w = Some (Inr existing)"
    and vs: "getHierarchicalPermissionsForSelector r (pb_ResourceSelector b) w = Inr valid"
      "siblingDesiredTuples r b target valid w = Inr sib"
    and wr: "writeWithModelTransitionRetry (pol_Client r) (delete_request (pol_StoreID r) mid (snd (diffTuples existing sib)))
      (pol_ModelIDProvider r) w = (r1, w')" by blast
  have own: "set existing = owned (stored w) b target"
    using ex by (rule getExistingTuples_owned(2)[OF assms(1) target_nonempty[OF target]])
  have del: "set (snd (diffTuples existing sib)) = owned (stored w) b target - set sib"
    by (simp add: diffTuples_sets own)
  then have sub: "set (snd (diffTuples existing sib)) \<subseteq> stored w" by (auto simp: owned_def)
  have "write_effect (delete_request (pol_StoreID r) mid (snd (diffTuples existing sib))) (stored w) =
      stored w - (owned (stored w) b target - set sib)"
    using keep_unconditional[OF assms(2) sub] del by simp
  moreover have "t \<notin> owned (stored w) b target - set sib"
    using assms(5) target vs unfolding shielded_def by blast
  ultimately show ?thesis
    using transition_retry_effect[OF _ _ wr, of stored] assms(1,4) by (auto simp: policy_service_def)
qed (use assms(4) in simp)

lemma reconcilePolicy_keeps:
  assumes "policy_service r stored listing position" and "unconditional (stored w)"
    and "reconcilePolicy r b w = Some (res, w')" and "t \<in> stored w" and "shielded r stored b w t"
  shows "t \<in> stored w'"
proof -
  consider "w' = w" | r1 where "DeletePolicy r b w = Some (r1, w')"
    | target existing valid desired removed mid r1 where
      "TargetObjectFromResourceSelector (pb_ResourceSelector b) = Inr target"
      "getHierarchicalPermissionsForSelector r (pb_ResourceSelector b) w = Inr valid"
      "getExistingTuples r b target w = Some (Inr existing)"
      "filter_removed r b target valid (snd (diffTuples existing desired)) w = Inr removed"
      "writeGuarded r (policy_write_request (pol_StoreID r) mid (fst (diffTuples existing desired)) removed)
        (fst (diffTuples existing desired)) w = (r1, w')"
    using reconcilePolicy_outcome[OF assms(3)] by blast
  then show ?thesis
  proof cases
    case 2
    then show ?thesis by (rule DeletePolicy_keeps[OF assms(1,2) _ assms(4,5)])
  next
    case 3
    have own: "set existing = owned (stored w) b target"
      using 3(3) by (rule getExistingTuples_owned(2)[OF assms(1) target_nonempty[OF 3(1)]])
    have sub: "set removed \<subseteq> owned (stored w) b target - set desired"
      using filter_removed_subset[OF 3(4)] by (simp add: diffTuples_sets own)
    have "t \<notin> set removed"
    proof
      assume t: "t \<in> set removed"
      then have "set (snd (diffTuples existing desired)) \<noteq> {}" using filter_removed_subset[OF 3(4)] by auto
      with 3(4) obtain sib where sib: "siblingDesiredTuples r b target valid w = Inr sib"
        and "set removed = {t \<in> set (snd (diffTuples existing desired)). tuple_string t \<notin> tuple_string ` set sib}"
        by (rule filter_removed_set)
      with t have "t \<notin> set sib" "t \<in> owned (stored w) b target" using sub by auto
      then show False using assms(5) 3(1,2) sib unfolding shielded_def by blast
    qed
    moreover have "{t \<in> stored w. tuple_key t \<notin> tuple_key ` set removed} = stored w - set removed"
      using sub by (intro keep_unconditional[OF assms(2)]) (auto simp: owned_def)
    ultimately show ?thesis using writeGuarded_effect[OF assms(1) 3(5)] assms(4) by auto
  qed (use assms(4) in simp)
qed

text \<open>
  Subjects of two bindings that stand for the same OpenFGA user are the same
  subject, by kind and name.
\<close>

definition subjects_identified :: "PolicyBinding \<Rightarrow> PolicyBinding \<Rightarrow> bool" where
  "subjects_identified b other \<longleftrightarrow> (\<forall>s \<in> set (pb_Subjects b). \<forall>s' \<in> set (pb_Subjects other). \<forall>u.
     getTupleUser s = Inr u \<longrightarrow> getTupleUser s' = Inr u \<longrightarrow> subject_key s = subject_key s')"

lemma wanted_shielded:
  assumes "TargetObjectFromResourceSelector (pb_ResourceSelector b) = Inr target"
    and "getHierarchicalPermissionsForSelector r (pb_ResourceSelector b) w = Inr valid"
    and "ListPolicyBindingsByTarget (pol_K8sClient r) target w = Inr items" and "other \<in> set items"
    and "\<not> pb_DeletionTimestamp other" and "\<not> (pb_Namespace other = pb_Namespace b \<and> pb_Name other = pb_Name b)"
    and "subjects_identified b other" and t: "t \<in> wanted_by r other target valid w"
  shows "shielded r stored b w t"
proof (cases "overlapping b other")
  case True
  then have "t \<in> set sib" if "siblingDesiredTuples r b target valid w = Inr sib" for sib
    using that assms(3,4) t sibling_loop_set[of r b target valid w items sib]
    by (auto simp: siblingDesiredTuples_def go_calls)
  then show ?thesis using assms(1,2) by (simp add: shielded_def)
next
  case False
  have user: "tk_User t \<in> binding_users other"
    using t by (auto simp: wanted_by_def dest: buildPermissionTuples_fields split: sum.splits)
  have "tk_User t \<notin> binding_users b"
  proof
    assume "tk_User t \<in> binding_users b"
    with user obtain s s' where "s \<in> set (pb_Subjects b)" "s' \<in> set (pb_Subjects other)"
      "getTupleUser s = Inr (tk_User t)" "getTupleUser s' = Inr (tk_User t)" by (auto simp: binding_users_def)
    with assms(7) have "subject_key s' \<in> subject_key ` set (pb_Subjects b)"
      unfolding subjects_identified_def by (metis imageI)
    with False assms(5,6) \<open>s' \<in> set (pb_Subjects other)\<close> show False unfolding overlapping_def by blast
  qed
  then show ?thesis by (auto simp: shielded_def owned_def)
qed


section \<open>What the bindings of a target call for\<close>

text \<open>
  The specification, stated without the code's own computation. A binding calls for a tuple
  when its role can be read (with a namespace, and not being deleted once subresources are
  authorized), every subject has a user, and the role grants a permission that counts for
  the target: the permission is in the role's status, or in its spec while the status lists
  none; it names a subresource only if subresources are authorized; and it is one of the
  target's permissions, where any is known.
\<close>

definition bound_role :: "('w, 'z) PolicyReconciler_scheme \<Rightarrow> PolicyBinding \<Rightarrow> 'w \<Rightarrow> Role \<Rightarrow> bool" where
  "bound_role r b w role \<longleftrightarrow>
     roleRef_Namespace (pb_RoleRef b) \<noteq> [] \<and>
     GetRole (pol_K8sClient r) (roleRef_Namespace (pb_RoleRef b)) (roleRef_Name (pb_RoleRef b)) w = Inr role \<and>
     \<not> (pol_EnableSubresourceAuthorization r \<and> role_DeletionTimestamp role)"

definition counts :: "bool \<Rightarrow> string set \<Rightarrow> Role \<Rightarrow> string \<Rightarrow> bool" where
  "counts en valid role p \<longleftrightarrow>
     p \<in> set (if role_EffectivePermissions role = [] then role_IncludedPermissions role else role_EffectivePermissions role) \<and>
     (en \<or> (\<forall>q. Parse p = Some q \<longrightarrow> perm_Subresource q = [])) \<and> (en \<or> valid \<noteq> {} \<longrightarrow> p \<in> valid)"

definition calls_for :: "('w, 'z) PolicyReconciler_scheme \<Rightarrow> PolicyBinding \<Rightarrow> string \<Rightarrow> string set \<Rightarrow> 'w \<Rightarrow> TupleKey set" where
  "calls_for r b target valid w =
     {permission_tuple u target p | u p role. bound_role r b w role \<and> counts (pol_EnableSubresourceAuthorization r) valid role p \<and>
        u \<in> binding_users b \<and> (\<forall>s \<in> set (pb_Subjects b). \<exists>v. getTupleUser s = Inr v)}"

text \<open>The other live bindings on the target, and all they call for.\<close>

definition live_siblings :: "('w, 'z) PolicyReconciler_scheme \<Rightarrow> PolicyBinding \<Rightarrow> string \<Rightarrow> 'w \<Rightarrow> PolicyBinding set" where
  "live_siblings r b target w =
     (case ListPolicyBindingsByTarget (pol_K8sClient r) target w of
        Inl _ \<Rightarrow> {}
      | Inr items \<Rightarrow> {other \<in> set items. \<not> pb_DeletionTimestamp other \<and>
          (pb_Namespace other, pb_Name other) \<noteq> (pb_Namespace b, pb_Name b)})"

definition called_elsewhere :: "('w, 'z) PolicyReconciler_scheme \<Rightarrow> PolicyBinding \<Rightarrow> string \<Rightarrow> string set \<Rightarrow> 'w \<Rightarrow> TupleKey set" where
  "called_elsewhere r b target valid w = (\<Union>other \<in> live_siblings r b target w. calls_for r other target valid w)"

lemma fetchRole_iff: "fetchRole r b w = Inr role \<longleftrightarrow> bound_role r b w role"
  by (auto simp: fetchRole_def bound_role_def Let_def split: sum.splits if_splits)

lemma role_grants_iff: "p \<in> role_grants en valid role \<longleftrightarrow> counts en valid role p"
  by (auto simp: role_grants_def granted_permissions_def counts_def split: option.splits if_splits)

lemma build_tuples_ok_iff: "(\<exists>ts. build_tuples perms target ss = Inr ts) \<longleftrightarrow> (\<forall>s \<in> set ss. \<exists>v. getTupleUser s = Inr v)"
  by (induction ss) (auto simp: go_calls)

lemma buildPermissionTuples_calls_for:
  assumes "fetchRole r b w = Inr role" and "buildPermissionTuples r b role target valid = Inr ts"
  shows "set ts = calls_for r b target valid w"
proof -
  have "\<forall>s \<in> set (pb_Subjects b). \<exists>v. getTupleUser s = Inr v"
    using assms(2) unfolding buildPermissionTuples_def Let_def by (metis build_tuples_ok_iff)
  moreover have "bound_role r b w role' \<longleftrightarrow> role' = role" for role'
    using assms(1) by (auto simp flip: fetchRole_iff)
  ultimately show ?thesis
    unfolding buildPermissionTuples_set[OF assms(2)] calls_for_def by (auto simp: role_grants_iff) blast
qed

lemma wanted_by_calls_for: "wanted_by r b target valid w = calls_for r b target valid w"
proof (cases "fetchRole r b w")
  case (Inl e)
  then have "\<not> bound_role r b w role" for role by (metis fetchRole_iff sum.distinct(1))
  with Inl show ?thesis by (simp add: wanted_by_def calls_for_def)
next
  case (Inr role)
  show ?thesis
  proof (cases "buildPermissionTuples r b role target valid")
    case bad: (Inl e)
    then have "\<not> (\<forall>s \<in> set (pb_Subjects b). \<exists>v. getTupleUser s = Inr v)"
      unfolding buildPermissionTuples_def Let_def by (metis build_tuples_ok_iff sum.distinct(1))
    with Inr bad show ?thesis by (auto simp: wanted_by_def calls_for_def)
  next
    case (Inr ts)
    with \<open>fetchRole r b w = Inr role\<close> show ?thesis by (simp add: wanted_by_def buildPermissionTuples_calls_for)
  qed
qed

lemma calls_for_user: "t \<in> calls_for r b target valid w \<Longrightarrow> tk_User t \<in> binding_users b \<and> tk_Condition t = None"
  by (auto simp: calls_for_def permission_tuple_def)

lemma disjoint_users:
  assumes "subjects_identified b other" and "other \<in> live_siblings r b target w" and "\<not> overlapping b other"
  shows "binding_users b \<inter> binding_users other = {}"
proof -
  have "subject_key s' \<in> subject_key ` set (pb_Subjects b)"
    if "s \<in> set (pb_Subjects b)" "s' \<in> set (pb_Subjects other)" "getTupleUser s = Inr u" "getTupleUser s' = Inr u" for s s' u
    using assms(1) that unfolding subjects_identified_def by (metis imageI)
  with assms(2,3) show ?thesis by (auto simp: overlapping_def live_siblings_def binding_users_def split: sum.splits)
qed

text \<open>
  The code's computation agrees with the specification on the tuples of the binding's own users, the only ones it removes.
\<close>

lemma siblingDesiredTuples_called_elsewhere:
  assumes "siblingDesiredTuples r b target valid w = Inr sib"
    and identified: "\<And>other. other \<in> live_siblings r b target w \<Longrightarrow> subjects_identified b other"
    and "tk_User t \<in> binding_users b"
  shows "t \<in> set sib \<longleftrightarrow> t \<in> called_elsewhere r b target valid w"
proof -
  obtain items where items: "ListPolicyBindingsByTarget (pol_K8sClient r) target w = Inr items"
    and "sibling_loop r b target valid w items = Inr sib"
    using assms(1) by (auto simp: siblingDesiredTuples_def go_calls)
  from sibling_loop_set[OF this(2)] have sib: "set sib = (\<Union>other \<in> {o' \<in> set items. overlapping b o'}. calls_for r other target valid w)"
    by (simp add: wanted_by_calls_for)
  have over: "{o' \<in> set items. overlapping b o'} \<subseteq> live_siblings r b target w"
    using items by (auto simp: live_siblings_def overlapping_def)
  have "overlapping b other \<and> other \<in> set items" if "other \<in> live_siblings r b target w" "t \<in> calls_for r other target valid w" for other
    using disjoint_users[OF identified[OF that(1)] that(1)] calls_for_user[OF that(2)] assms(3) that(1) items
    by (auto simp: live_siblings_def)
  with over show ?thesis unfolding sib called_elsewhere_def by blast
qed

text \<open>No name in a stored tuple contains the separator of \<open>tuple_string\<close>; names and UIDs of API objects cannot.\<close>

definition separable :: "TupleKey set \<Rightarrow> bool" where
  "separable S \<longleftrightarrow> (\<forall>t \<in> S. CHR ''|'' \<notin> set (tk_User t) \<union> set (tk_Relation t) \<union> set (tk_Object t))"

lemma append_sep_eq:
  assumes "x \<notin> set xs" and "x \<notin> set ys" and "xs @ x # us = ys @ x # vs"
  shows "xs = ys \<and> us = vs"
  using assms
proof (induction xs arbitrary: ys)
  case Nil
  then show ?case by (cases ys) auto
next
  case (Cons a xs)
  then show ?case by (cases ys) auto
qed

lemma tuple_string_separable:
  assumes "tuple_string t = tuple_string t'" and t: "CHR ''|'' \<notin> set (tk_User t) \<union> set (tk_Relation t) \<union> set (tk_Object t)"
    and cond: "tk_Condition t = tk_Condition t'"
  shows "t = t'"
proof -
  have "count_list (tuple_string t') (CHR ''|'') = 2"
    using t unfolding assms(1)[symmetric] by (simp add: tuple_string_def count_list_append)
  then have "CHR ''|'' \<notin> set (tk_User t') \<union> set (tk_Relation t') \<union> set (tk_Object t')"
    by (simp add: tuple_string_def count_list_append count_list_0_iff)
  moreover from this have "tk_User t = tk_User t' \<and> tk_Relation t @ CHR ''|'' # tk_Object t = tk_Relation t' @ CHR ''|'' # tk_Object t'"
    using assms(1) t by (intro append_sep_eq) (simp_all add: tuple_string_def)
  moreover from calculation have "tk_Relation t = tk_Relation t' \<and> tk_Object t = tk_Object t'"
    using t by (intro append_sep_eq[of "CHR ''|''"]) simp_all
  ultimately have "tuple_key t = tuple_key t'" by (simp add: tuple_key_def)
  then show ?thesis using cond by (rule tuple_key_inj)
qed

section \<open>Properties\<close>

text \<open>
  C4. A successful reconciliation of a binding leaves, of the tuples of its users on its
  target, exactly those the binding itself calls for and those already stored that another
  live binding on the target calls for; every other tuple stays as it was. (Subjects of two
  bindings that stand for one OpenFGA user are taken to have the same kind and name;
  \<open>getTupleUser_system_group_clash\<close> shows system groups for which the code breaks that.
  Names in stored tuples are taken to be free of the separator \<open>|\<close>.)
\<close>

theorem ReconcilePolicy_exact:
  assumes "policy_service r stored listing position" and "unconditional (stored w)" and "separable (stored w)"
    and identified: "\<And>target other. TargetObjectFromResourceSelector (pb_ResourceSelector b) = Inr target \<Longrightarrow>
      other \<in> live_siblings r b target w \<Longrightarrow> subjects_identified b other"
    and run: "ReconcilePolicy r b w = Some (Inr (), w')"
  shows "\<exists>target valid role.
    TargetObjectFromResourceSelector (pb_ResourceSelector b) = Inr target \<and>
    getHierarchicalPermissionsForSelector r (pb_ResourceSelector b) w = Inr valid \<and> bound_role r b w role \<and>
    (\<forall>s \<in> set (pb_Subjects b). \<exists>u. getTupleUser s = Inr u) \<and>
    stored w' = (stored w - (owned (stored w) b target - called_elsewhere r b target valid w)) \<union> calls_for r b target valid w"
proof -
  have "reconcilePolicy r b w = Some (Inr (), w')" using run by (auto simp: ReconcilePolicy_def go_calls)
  with assms(1,2) obtain target valid role desired
    where target: "TargetObjectFromResourceSelector (pb_ResourceSelector b) = Inr target"
      and valid: "getHierarchicalPermissionsForSelector r (pb_ResourceSelector b) w = Inr valid"
      and role: "fetchRole r b w = Inr role" and built: "buildPermissionTuples r b role target valid = Inr desired"
      and eff: "if owned (stored w) b target \<subseteq> set desired then stored w' = stored w \<union> set desired
        else \<exists>sib. siblingDesiredTuples r b target valid w = Inr sib \<and>
          stored w' = (stored w - {t \<in> owned (stored w) b target - set desired. tuple_string t \<notin> tuple_string ` set sib}) \<union> set desired"
    by (rule reconcilePolicy_effect)
  note desired = buildPermissionTuples_calls_for[OF role built]
  have users: "\<forall>s \<in> set (pb_Subjects b). \<exists>u. getTupleUser s = Inr u"
    using built unfolding buildPermissionTuples_def Let_def by (metis build_tuples_ok_iff)
  have same: "tuple_string t \<in> tuple_string ` set sib \<longleftrightarrow> t \<in> called_elsewhere r b target valid w"
    if sib: "siblingDesiredTuples r b target valid w = Inr sib" and t: "t \<in> owned (stored w) b target" for t sib
  proof -
    have "tk_Condition t' = None" if "t' \<in> set sib" for t'
      using sib that sibling_loop_set calls_for_user by (fastforce simp: siblingDesiredTuples_def go_calls wanted_by_calls_for)
    then have "tuple_string t \<in> tuple_string ` set sib \<longleftrightarrow> t \<in> set sib"
      using t assms(2,3) tuple_string_separable unfolding owned_def unconditional_def separable_def by (auto, metis)
    also have "\<dots> \<longleftrightarrow> t \<in> called_elsewhere r b target valid w"
      using t by (intro siblingDesiredTuples_called_elsewhere[OF sib identified[OF target]]) (auto simp: owned_def)
    finally show ?thesis .
  qed
  have "stored w' = (stored w - (owned (stored w) b target - called_elsewhere r b target valid w)) \<union> set desired"
  proof (cases "owned (stored w) b target \<subseteq> set desired")
    case True
    with eff show ?thesis by auto
  next
    case False
    with eff same show ?thesis by auto
  qed
  with target valid role users desired show ?thesis by (auto simp flip: fetchRole_iff)
qed

text \<open>
  C22. A successful deletion of a binding removes exactly the tuples of its users on its
  target that no other live binding on the target calls for. (Subjects of two bindings that
  stand for one OpenFGA user are taken to have the same kind and name, as in C4.)
\<close>

theorem DeletePolicy_exact:
  assumes "policy_service r stored listing position" and "unconditional (stored w)"
    and identified: "\<And>target other. TargetObjectFromResourceSelector (pb_ResourceSelector b) = Inr target \<Longrightarrow>
      other \<in> live_siblings r b target w \<Longrightarrow> subjects_identified b other"
    and run: "DeletePolicy r b w = Some (Inr (), w')"
  shows "\<exists>target. TargetObjectFromResourceSelector (pb_ResourceSelector b) = Inr target \<and>
    (if owned (stored w) b target = {} then stored w' = stored w
     else \<exists>valid. getHierarchicalPermissionsForSelector r (pb_ResourceSelector b) w = Inr valid \<and>
       stored w' = stored w - (owned (stored w) b target - called_elsewhere r b target valid w))"
proof -
  from assms(1,2) run obtain target where target: "TargetObjectFromResourceSelector (pb_ResourceSelector b) = Inr target"
    and eff: "if owned (stored w) b target = {} then stored w' = stored w
      else \<exists>valid sib. getHierarchicalPermissionsForSelector r (pb_ResourceSelector b) w = Inr valid \<and>
        siblingDesiredTuples r b target valid w = Inr sib \<and> stored w' = stored w - (owned (stored w) b target - set sib)"
    by (rule DeletePolicy_effect)
  have "owned (stored w) b target - set sib = owned (stored w) b target - called_elsewhere r b target valid w"
    if "siblingDesiredTuples r b target valid w = Inr sib" for valid sib
    using siblingDesiredTuples_called_elsewhere[OF that identified[OF target]] by (auto simp: owned_def)
  with eff have "if owned (stored w) b target = {} then stored w' = stored w
      else \<exists>valid. getHierarchicalPermissionsForSelector r (pb_ResourceSelector b) w = Inr valid \<and>
        stored w' = stored w - (owned (stored w) b target - called_elsewhere r b target valid w)"
    by (simp split: if_splits) metis
  with target show ?thesis by blast
qed

text \<open>
  C9. Whatever the outcome, failures included, neither reconciling nor deleting a
  binding removes a stored tuple that another live binding on the same target calls for,
  provided that subjects of the two that stand for the same OpenFGA user have the same
  kind and name (\<open>getTupleUser_system_group_clash\<close> shows system groups that do not).
\<close>

theorem policy_keeps_sibling_grants:
  assumes "policy_service r stored listing position" and "unconditional (stored w)"
    and "TargetObjectFromResourceSelector (pb_ResourceSelector b) = Inr target"
    and "getHierarchicalPermissionsForSelector r (pb_ResourceSelector b) w = Inr valid"
    and other: "other \<in> live_siblings r b target w" and "subjects_identified b other"
    and "t \<in> calls_for r other target valid w" and "t \<in> stored w"
    and "ReconcilePolicy r b w = Some (res, w') \<or> DeletePolicy r b w = Some (res, w')"
  shows "t \<in> stored w'"
proof -
  from other obtain items where "ListPolicyBindingsByTarget (pol_K8sClient r) target w = Inr items" "other \<in> set items"
    "\<not> pb_DeletionTimestamp other" "\<not> (pb_Namespace other = pb_Namespace b \<and> pb_Name other = pb_Name b)"
    by (auto simp: live_siblings_def split: sum.splits)
  then have "shielded r stored b w t"
    using assms(3,4,6,7) by (intro wanted_shielded[of b target r w valid items other]) (auto simp: wanted_by_calls_for)
  moreover from assms(9) have "(\<exists>r1. reconcilePolicy r b w = Some (r1, w')) \<or> DeletePolicy r b w = Some (res, w')"
    by (auto simp: ReconcilePolicy_def elim!: go_try_Some_cases)
  ultimately show ?thesis
    using reconcilePolicy_keeps[OF assms(1,2)] DeletePolicy_keeps[OF assms(1,2)] assms(8) by blast
qed

text \<open>
  Only the users of the binding's current subjects are looked at: a stored tuple of any other user
  survives every reconcile and every deletion of the binding, also when it was written for a
  subject that has since been taken off the binding.
\<close>

theorem former_subject_keeps_tuples:
  assumes "policy_service r stored listing position" and "unconditional (stored w)"
    and "ReconcilePolicy r b w = Some (res, w') \<or> DeletePolicy r b w = Some (res, w')"
    and "t \<in> stored w" and "tk_User t \<notin> binding_users b"
  shows "t \<in> stored w'"
proof -
  have "shielded r stored b w t" using assms(5) by (simp add: shielded_def owned_def)
  moreover from assms(3) have "(\<exists>r1. reconcilePolicy r b w = Some (r1, w')) \<or> DeletePolicy r b w = Some (res, w')"
    by (auto simp: ReconcilePolicy_def elim!: go_try_Some_cases)
  ultimately show ?thesis
    using reconcilePolicy_keeps[OF assms(1,2)] DeletePolicy_keeps[OF assms(1,2)] assms(4) by blast
qed


lemma reading_None_iff [simp]: "reading m w = None \<longleftrightarrow> m = None"
  by (simp add: reading_def)

lemma DeletePolicy_returns:
  assumes "policy_service r stored listing position"
  shows "DeletePolicy r b w \<noteq> None"
  using getExistingTuples_owned(1)[OF assms target_nonempty]
  by (auto simp: DeletePolicy_def go_try_None_iff Let_def simp del: not_None_eq not_Some_eq split: if_splits)

lemma reconcilePolicy_returns:
  assumes "policy_service r stored listing position"
  shows "reconcilePolicy r b w \<noteq> None"
  using getExistingTuples_owned(1)[OF assms target_nonempty] DeletePolicy_returns[OF assms]
  by (auto simp: reconcilePolicy_def go_try_None_iff Let_def case_prod_beta simp del: not_None_eq not_Some_eq
      split: sum.splits if_splits)

text \<open>
  Reconciling or deleting a binding always returns: no read loop runs forever and
  no retry is repeated.
\<close>

theorem ReconcilePolicy_returns:
  assumes "policy_service r stored listing position"
  shows "(\<exists>res w'. ReconcilePolicy r b w = Some (res, w')) \<and> (\<exists>res w'. DeletePolicy r b w = Some (res, w'))"
proof -
  have "ReconcilePolicy r b w \<noteq> None" "DeletePolicy r b w \<noteq> None"
    using reconcilePolicy_returns[OF assms] DeletePolicy_returns[OF assms]
    by (simp_all add: ReconcilePolicy_def go_try_None_iff)
  then show ?thesis by auto
qed

section \<open>An example\<close>

definition example_role :: "string \<Rightarrow> string list \<Rightarrow> Role" where
  "example_role name perms =
     \<lparr>role_Namespace = ''ns'', role_Name = name, role_UID = name, role_DeletionTimestamp = False,
      role_IncludedPermissions = perms, role_InheritedRoles = [], role_EffectivePermissions = perms\<rparr>"

definition example_binding :: "string \<Rightarrow> string \<Rightarrow> PolicyBinding" where
  "example_binding name role =
     \<lparr>pb_Namespace = ''ns'', pb_Name = name, pb_DeletionTimestamp = False,
      pb_RoleRef = \<lparr>roleRef_Name = role, roleRef_Namespace = ''ns''\<rparr>,
      pb_Subjects = [\<lparr>subject_Kind = ''User'', subject_Name = ''alice'', subject_UID = ''1'', subject_Namespace = []\<rparr>],
      pb_ResourceSelector =
        \<lparr>sel_ResourceRef = Some \<lparr>ref_APIGroup = ''rm.io'', ref_Kind = ''Org'', ref_Name = ''acme'', ref_UID = ''2'', ref_Namespace = []\<rparr>,
         sel_ResourceKind = None\<rparr>\<rparr>"

definition example_K8sClient :: "'w PolicyK8sClient" where
  "example_K8sClient =
     \<lparr>GetRole = (\<lambda>ns n w. Inr (if n = ''viewer'' then example_role n [''c.io/vms.list''] else example_role n [''rm.io/orgs.get''])),
      ListPolicyBindingsByTarget = (\<lambda>target w. Inr [example_binding ''b1'' ''viewer'', example_binding ''b2'' ''reader'']),
      ListProtectedResources = (\<lambda>w. Inr example_prs)\<rparr>"

lemma example_K8sClient_simps [simp]:
  "GetRole example_K8sClient ns n w = Inr (if n = ''viewer'' then example_role n [''c.io/vms.list''] else example_role n [''rm.io/orgs.get''])"
  "ListPolicyBindingsByTarget example_K8sClient target w = Inr [example_binding ''b1'' ''viewer'', example_binding ''b2'' ''reader'']"
  "ListProtectedResources example_K8sClient w = Inr example_prs"
  by (simp_all add: example_K8sClient_def)

definition example_policy :: "mem_world PolicyReconciler" where
  "example_policy =
     \<lparr>pol_EnableSubresourceAuthorization = False, pol_StoreID = ''s'', pol_Client = mem_client, pol_K8sClient = example_K8sClient,
      pol_ModelIDProvider = Some mem_provider, pol_TargetGuard = None\<rparr>"

text \<open>The store holds the grant of the second binding and a stale one, of alice on \<open>rm.io/Org:acme\<close>.\<close>

definition example_store :: mem_world where
  "example_store =
     \<lparr>mem_tuples = [permission_tuple (TypeInternalUser @ '':alice'') ''rm.io/Org:acme'' ''rm.io/orgs.get'',
                    permission_tuple (TypeInternalUser @ '':alice'') ''rm.io/Org:acme'' ''stale''],
      mem_models = [], mem_timeouts = 0, mem_model_id = []\<rparr>"

lemma example_run_ok: "map_option fst (ReconcilePolicy example_policy (example_binding ''b1'' ''viewer'') example_store) = Some (Inr ())"
  by code_simp


definition example_result :: mem_world where
  "example_result = snd (the (ReconcilePolicy example_policy (example_binding ''b1'' ''viewer'') example_store))"

lemma example_run: "ReconcilePolicy example_policy (example_binding ''b1'' ''viewer'') example_store = Some (Inr (), example_result)"
  using example_run_ok by (auto simp: example_result_def)

lemma example_service: "policy_service example_policy mem_stored mem_listing length"
  by (simp add: policy_service_def example_policy_def mem_paged_reads mem_atomic_writes mem_provider_keeps)

lemma example_unconditional: "unconditional (mem_stored example_store)"
  by (simp add: unconditional_def mem_stored_def example_store_def permission_tuple_def)

text \<open>The run grants what the binding's role says, keeps the sibling's grant and removes the stale tuple.\<close>

lemma example_result_store:
  "mem_tuples example_result =
     [permission_tuple (TypeInternalUser @ '':alice'') ''rm.io/Org:acme'' ''rm.io/orgs.get'',
      permission_tuple (TypeInternalUser @ '':alice'') ''rm.io/Org:acme'' ''c.io/vms.list'']"
  by code_simp


lemma example_separable: "separable (mem_stored example_store)"
  unfolding separable_def mem_stored_def example_store_def by code_simp

lemma example_identified:
  "other \<in> live_siblings example_policy (example_binding ''b1'' ''viewer'') target w \<Longrightarrow> subjects_identified (example_binding ''b1'' ''viewer'') other"
  by (auto simp: live_siblings_def example_policy_def example_K8sClient_def subjects_identified_def example_binding_def)

abbreviation alice_tuple :: "string \<Rightarrow> TupleKey" where
  "alice_tuple \<equiv> permission_tuple (TypeInternalUser @ '':alice'') ''rm.io/Org:acme''"

lemma example_target: "TargetObjectFromResourceSelector (pb_ResourceSelector (example_binding ''b1'' ''viewer'')) = Inr ''rm.io/Org:acme''"
  by code_simp

lemma example_valid:
  "getHierarchicalPermissionsForSelector example_policy (pb_ResourceSelector (example_binding ''b1'' ''viewer'')) example_store =
     Inr (set [''c.io/vms.list'', ''rm.io/orgs.get'', ''rm.io/projects.get''])"
  by code_simp

lemma example_calls:
  "calls_for example_policy (example_binding ''b1'' ''viewer'') ''rm.io/Org:acme''
     (set [''c.io/vms.list'', ''rm.io/orgs.get'', ''rm.io/projects.get'']) example_store = {alice_tuple ''c.io/vms.list''}"
  "calls_for example_policy (example_binding ''b2'' ''reader'') ''rm.io/Org:acme''
     (set [''c.io/vms.list'', ''rm.io/orgs.get'', ''rm.io/projects.get'']) example_store = {alice_tuple ''rm.io/orgs.get''}"
  unfolding wanted_by_calls_for[symmetric] by code_simp+

lemma example_siblings:
  "live_siblings example_policy (example_binding ''b1'' ''viewer'') target w = {example_binding ''b2'' ''reader''}"
  by (auto simp: live_siblings_def example_policy_def example_K8sClient_def example_binding_def)

lemma example_owned:
  "owned (mem_stored example_store) (example_binding ''b1'' ''viewer'') ''rm.io/Org:acme'' = {alice_tuple ''rm.io/orgs.get'', alice_tuple ''stale''}"
  by (auto simp: owned_def mem_stored_def example_store_def permission_tuple_def binding_users_def example_binding_def getTupleUser_def object_matches_def)

text \<open>The run grants what the binding calls for, keeps the sibling's grant and removes the stale tuple.\<close>

theorem ReconcilePolicy_exact_witness:
  "mem_stored example_result =
     (mem_stored example_store - ({alice_tuple ''rm.io/orgs.get'', alice_tuple ''stale''} - {alice_tuple ''rm.io/orgs.get''})) \<union>
     {alice_tuple ''c.io/vms.list''}"
  using ReconcilePolicy_exact[OF example_service example_unconditional example_separable example_identified example_run]
  by (auto simp: example_target example_valid example_calls example_siblings example_owned called_elsewhere_def simp del: set_simps)

definition example_deleted :: mem_world where
  "example_deleted = snd (the (DeletePolicy example_policy (example_binding ''b1'' ''viewer'') example_store))"

lemma example_delete_run: "DeletePolicy example_policy (example_binding ''b1'' ''viewer'') example_store = Some (Inr (), example_deleted)"
proof -
  have "map_option fst (DeletePolicy example_policy (example_binding ''b1'' ''viewer'') example_store) = Some (Inr ())"
    by code_simp
  then show ?thesis by (auto simp: example_deleted_def)
qed

theorem DeletePolicy_exact_witness:
  "mem_stored example_deleted =
     mem_stored example_store - ({alice_tuple ''rm.io/orgs.get'', alice_tuple ''stale''} - {alice_tuple ''rm.io/orgs.get''})"
  using DeletePolicy_exact[OF example_service example_unconditional example_identified example_delete_run]
  by (auto simp: example_target example_valid example_calls example_siblings example_owned called_elsewhere_def simp del: set_simps)

theorem ReconcilePolicy_returns_witness:
  "\<exists>res w'. ReconcilePolicy example_policy (example_binding ''b2'' ''reader'') example_store = Some (res, w')"
  using ReconcilePolicy_returns[OF example_service, of "example_binding ''b2'' ''reader''" example_store] by blast

theorem policy_keeps_sibling_grants_witness: "alice_tuple ''rm.io/orgs.get'' \<in> mem_stored example_result"
proof (rule policy_keeps_sibling_grants[OF example_service example_unconditional example_target example_valid])
  show "example_binding ''b2'' ''reader'' \<in> live_siblings example_policy (example_binding ''b1'' ''viewer'') ''rm.io/Org:acme'' example_store"
    by (simp add: example_siblings)
  then show "subjects_identified (example_binding ''b1'' ''viewer'') (example_binding ''b2'' ''reader'')" by (rule example_identified)
  show "ReconcilePolicy example_policy (example_binding ''b1'' ''viewer'') example_store = Some (Inr (), example_result) \<or>
      DeletePolicy example_policy (example_binding ''b1'' ''viewer'') example_store = Some (Inr (), example_result)"
    using example_run by blast
  show "alice_tuple ''rm.io/orgs.get'' \<in> calls_for example_policy (example_binding ''b2'' ''reader'') ''rm.io/Org:acme''
      (set [''c.io/vms.list'', ''rm.io/orgs.get'', ''rm.io/projects.get'']) example_store"
    unfolding example_calls by simp
qed (simp add: mem_stored_def example_store_def)

text \<open>Bob was taken off the binding; his tuple outlives its reconcile.\<close>

theorem former_subject_keeps_tuples_witness:
  "\<exists>w'. ReconcilePolicy example_policy (example_binding ''b1'' ''viewer'')
       (example_store\<lparr>mem_tuples := [permission_tuple (TypeInternalUser @ '':bob'') ''rm.io/Org:acme'' ''c.io/vms.list'']\<rparr>) = Some (Inr (), w') \<and>
     permission_tuple (TypeInternalUser @ '':bob'') ''rm.io/Org:acme'' ''c.io/vms.list'' \<in> mem_stored w'"
proof -
  let ?t = "permission_tuple (TypeInternalUser @ '':bob'') ''rm.io/Org:acme'' ''c.io/vms.list''"
  let ?w = "example_store\<lparr>mem_tuples := [?t]\<rparr>"
  have "map_option fst (ReconcilePolicy example_policy (example_binding ''b1'' ''viewer'') ?w) = Some (Inr ())" by code_simp
  then obtain w' where run: "ReconcilePolicy example_policy (example_binding ''b1'' ''viewer'') ?w = Some (Inr (), w')" by auto
  have "unconditional (mem_stored ?w)" "?t \<in> mem_stored ?w" by (simp_all add: unconditional_def mem_stored_def permission_tuple_def)
  moreover have "tk_User ?t \<notin> binding_users (example_binding ''b1'' ''viewer'')"
    by (simp add: permission_tuple_def binding_users_def example_binding_def getTupleUser_def)
  ultimately show ?thesis using former_subject_keeps_tuples[OF example_service] run by blast
qed

text \<open>
  Escaping the colons of a system group's name is not injective: two different
  system groups can stand for the same OpenFGA user set.
\<close>

theorem getTupleUser_system_group_clash:
  "\<exists>s s'. subject_Kind s = ''Group'' \<and> subject_Kind s' = ''Group'' \<and> subject_Name s \<noteq> subject_Name s' \<and>
     HasPrefix (subject_Name s) ''system:'' \<and> HasPrefix (subject_Name s') ''system:'' \<and>
     getTupleUser s = getTupleUser s' \<and> (\<exists>u. getTupleUser s = Inr u)"
proof -
  let ?s = "\<lambda>n. \<lparr>subject_Kind = ''Group'', subject_Name = n, subject_UID = [], subject_Namespace = []\<rparr>"
  have "getTupleUser (?s ''system:a:b'') = Inr (TypeInternalUserGroup @ '':system_a_b#member'')"
    and "getTupleUser (?s ''system:a_b'') = Inr (TypeInternalUserGroup @ '':system_a_b#member'')"
    by (simp_all add: getTupleUser_def HasPrefix_def ReplaceAll_def)
  then show ?thesis
    by (intro exI[of _ "?s ''system:a:b''"] exI[of _ "?s ''system:a_b''"]) (simp add: HasPrefix_def)
qed

end
