(* ===== verification/Model_Typing.thy ===== *)
theory Model_Typing
  imports Model_Reconciler Policy
begin

text \<open>
  When the models and tuples of the controllers pass the checks of the authorization
  service. \<open>wf_model\<close> and \<open>accepts\<close> are the documented validation of OpenFGA
  models and tuple writes; the theory characterises the registrations whose model is
  valid, and shows that the tuples of a binding fit the model built from the same
  registrations.
\<close>

section \<open>Valid models\<close>

definition has_relation :: "AuthorizationModel \<Rightarrow> string \<Rightarrow> string \<Rightarrow> bool" where
  "has_relation m t r \<longleftrightarrow> (\<exists>td \<in> set (am_TypeDefinitions m). td_Type td = t \<and> r \<in> fst ` set (td_Relations td))"

text \<open>A reference to a type, or to a relation of a type, must resolve.\<close>

definition reference_ok :: "AuthorizationModel \<Rightarrow> RelationReference \<Rightarrow> bool" where
  "reference_ok m ref \<longleftrightarrow>
     (case rr_Relation ref of None \<Rightarrow> rr_Type ref \<in> td_Type ` set (am_TypeDefinitions m)
      | Some r \<Rightarrow> has_relation m (rr_Type ref) r)"

definition refs :: "TypeDefinition \<Rightarrow> string \<Rightarrow> RelationReference list" where
  "refs td r = (case map_of (md_Relations (td_Metadata td)) r of None \<Rightarrow> [] | Some md \<Rightarrow> rm_DirectlyRelatedUserTypes md)"

fun assignable :: "Userset \<Rightarrow> bool" where
  "assignable (Userset_This _) = True"
| "assignable (Userset_Union us) = (\<exists>u \<in> set us. assignable u)"
| "assignable _ = False"

text \<open>
  A computed userset names a relation of the same type. A tuple-to-userset goes through a
  directly assigned relation to plain objects, one of whose types has the target relation.
\<close>

fun rewrite_ok :: "AuthorizationModel \<Rightarrow> TypeDefinition \<Rightarrow> Userset \<Rightarrow> bool" where
  "rewrite_ok m td (Userset_This _) = True"
| "rewrite_ok m td (Userset_ComputedUserset r) = (r \<in> fst ` set (td_Relations td))"
| "rewrite_ok m td (Userset_TupleToUserset ts r) =
     ((\<exists>x. map_of (td_Relations td) ts = Some (Userset_This x)) \<and> (\<forall>ref \<in> set (refs td ts). rr_Relation ref = None) \<and>
      (\<exists>ref \<in> set (refs td ts). has_relation m (rr_Type ref) r))"
| "rewrite_ok m td (Userset_Union us) = (us \<noteq> [] \<and> (\<forall>u \<in> set us. rewrite_ok m td u))"

definition wf_type :: "AuthorizationModel \<Rightarrow> TypeDefinition \<Rightarrow> bool" where
  "wf_type m td \<longleftrightarrow> distinct (map fst (td_Relations td)) \<and>
     (\<forall>(r, u) \<in> set (td_Relations td). rewrite_ok m td u \<and> (assignable u \<longleftrightarrow> refs td r \<noteq> []) \<and>
        (\<forall>ref \<in> set (refs td r). reference_ok m ref))"

definition wf_model :: "AuthorizationModel \<Rightarrow> bool" where
  "wf_model m \<longleftrightarrow> distinct (map td_Type (am_TypeDefinitions m)) \<and> (\<forall>td \<in> set (am_TypeDefinitions m). wf_type m td)"

section \<open>The definitions of a created model\<close>

lemma created_definition_cases:
  assumes "createExpectedAuthorizationModel en prs = Inr m" and "prs \<noteq> []" and "td \<in> set (am_TypeDefinitions m)"
  obtains (user) "td = getUserTypeDefinition"
    | (user_group) "td = getUserGroupTypeDefinition"
    | (root) ps where "td = getRootTypeDefinition ps" and "set ps = model_permissions prs en TypeRoot"
    | (resource) t ps n spec where "t \<in> reachable_types prs - {TypeRoot}" and "td = getResourceTypeDefinition ps n"
        and "set ps = model_permissions prs en t" and "ResourceType n = t"
        and "registered (sort_protected_resources prs) t = Some spec" and "ParentResources n = sort (fqParentResources spec)"
proof -
  let ?prs = "sort_protected_resources prs"
  from assms(1,2) obtain g where g: "getResourceGraph ?prs en = Inr g"
    and m: "am_TypeDefinitions m = [getUserTypeDefinition, getUserGroupTypeDefinition] @
      map (\<lambda>t. the (map_of (type_map (calculateHierarchicalPermissions g) g) t)) (sorted_list_of_set (reachable_types prs - {TypeRoot})) @
      [getRootTypeDefinition (sort (remdups (concat (map snd (calculateHierarchicalPermissions g)))))]"
    by (rule createExpectedAuthorizationModel_graph)
  from assms(3) consider "td = getUserTypeDefinition" | "td = getUserGroupTypeDefinition"
    | "td = getRootTypeDefinition (sort (remdups (concat (map snd (calculateHierarchicalPermissions g)))))"
    | t where "t \<in> reachable_types prs - {TypeRoot}" "td = the (map_of (type_map (calculateHierarchicalPermissions g) g) t)"
    by (auto simp: m finite_reachable)
  then show thesis
  proof cases
    case 3
    have "set (sort (remdups (concat (map snd (calculateHierarchicalPermissions g))))) = model_permissions prs en TypeRoot"
      using hierarchical_all_permissions[OF g] by (simp add: model_permissions_def Let_def hierarchy_set_cong[of ?prs prs])
    with 3 show thesis by (rule root)
  next
    case 4
    obtain n where "td = getResourceTypeDefinition (sorted_list_of_set (model_permissions prs en t)) n" "ResourceType n = t"
      "\<exists>spec. registered ?prs t = Some spec \<and> ParentResources n = sort (fqParentResources spec)"
      using resource_type_relations[OF g 4] by metis
    with resource[of t] 4(1) finite_model_permissions show thesis by fastforce
  qed (use user user_group in auto)
qed

lemma created_has_relation:
  assumes "createExpectedAuthorizationModel en prs = Inr m" and "prs \<noteq> []" and "t \<in> insert TypeRoot (reachable_types prs)"
    and "p \<in> model_permissions prs en t" and "t \<notin> {TypeInternalUser, TypeInternalUserGroup}"
  shows "has_relation m t (hashPermission p)"
proof -
  have "t \<in> td_Type ` set (am_TypeDefinitions m)"
    using arg_cong[OF created_types[OF assms(1,2)], of set] assms(3) finite_reachable[of prs] by auto
  then obtain td where td: "td \<in> set (am_TypeDefinitions m)" "td_Type td = t" by blast
  then have "map_of (td_Relations td) (hashPermission p) \<noteq> None"
    using created_relations[OF assms(1,2) td(1), of p] assms(4,5) by (auto split: if_splits)
  then have "hashPermission p \<in> fst ` set (td_Relations td)" by (simp add: map_of_eq_None_iff)
  with td show ?thesis by (auto simp: has_relation_def)
qed

section \<open>Which registrations give a valid model\<close>

text \<open>Neither registered types nor declared parents are one of the two subject types.\<close>

definition reserved_free :: "ProtectedResource list \<Rightarrow> bool" where
  "reserved_free prs \<longleftrightarrow> (\<forall>pr \<in> set prs. insert (fqType (pr_Spec pr)) (set (fqParentResources (pr_Spec pr))) \<inter>
     {TypeInternalUser, TypeInternalUserGroup} = {})"

text \<open>Every parent that a type of the model declares is itself a type of the model.\<close>

definition parents_known :: "ProtectedResource list \<Rightarrow> bool" where
  "parents_known prs \<longleftrightarrow> (\<forall>t \<in> reachable_types prs - {TypeRoot}. \<forall>spec. registered (sort_protected_resources prs) t = Some spec \<longrightarrow>
     set (fqParentResources spec) \<subseteq> insert TypeRoot (reachable_types prs))"

lemma reachable_registered: "t \<in> reachable_types prs \<Longrightarrow> \<exists>pr \<in> set prs. active pr \<and> fqType (pr_Spec pr) = t"
proof -
  assume "t \<in> reachable_types prs"
  then have "t \<in> dom (registered prs)"
    unfolding reachable_types_def using parentless_registered child_registered by (metis ImageE rtranclE)
  then show ?thesis by (auto dest: registered_active)
qed

lemma reserved_reachable:
  assumes "reserved_free prs" and "t \<in> reachable_types prs"
  shows "t \<notin> {TypeInternalUser, TypeInternalUserGroup}"
  using reachable_registered[OF assms(2)] assms(1) by (auto simp: reserved_free_def)

lemma types_differ [simp]:
  "TypeInternalUser \<noteq> TypeInternalUserGroup" "TypeInternalUser \<noteq> TypeRoot" "TypeInternalUserGroup \<noteq> TypeRoot"
  "TypeRoot \<noteq> TypeInternalUser" "TypeRoot \<noteq> TypeInternalUserGroup"
  by (simp_all add: TypeInternalUser_def TypeInternalUserGroup_def TypeRoot_def)

lemma model_permissions_root:
  assumes "createExpectedAuthorizationModel en prs = Inr m" and "prs \<noteq> []" and "t \<in> reachable_types prs - {TypeRoot}"
  shows "model_permissions prs en t \<subseteq> model_permissions prs en TypeRoot"
proof
  fix p
  assume "p \<in> model_permissions prs en t"
  then obtain u where u: "(t, u) \<in> (child_rel prs)\<^sup>*" "p \<in> permissions_of (registered (sort_protected_resources prs)) en u"
    using assms(3) by (auto simp: model_permissions_def Let_def)
  from assms(1,2) obtain g where g: "getResourceGraph (sort_protected_resources prs) en = Inr g"
    by (rule createExpectedAuthorizationModel_graph)
  have cong: "child_rel (sort_protected_resources prs) = child_rel prs" "parentless (sort_protected_resources prs) = parentless prs"
    by (simp_all add: child_rel_def parentless_def)
  from assms(3) obtain r where r: "r \<in> parentless prs" "(r, t) \<in> (child_rel prs)\<^sup>*" by (auto simp: reachable_types_def)
  then have "(t, TypeRoot) \<notin> (child_rel prs)\<^sup>*"
    using root_above_parentless[OF g, of r] assms(3) by (auto simp: root_above_def cong)
  then have "u \<noteq> TypeRoot" using u(1) by auto
  moreover have "u \<in> reachable_types prs" using r u(1) by (auto simp: reachable_types_def intro: rtrancl_trans)
  ultimately show "p \<in> model_permissions prs en TypeRoot" using u(2) by (auto simp: model_permissions_def Let_def)
qed

lemma model_permissions_parent:
  assumes "createExpectedAuthorizationModel en prs = Inr m" and "prs \<noteq> []" and "t \<in> reachable_types prs - {TypeRoot}"
    and "registered (sort_protected_resources prs) t = Some spec" and "P \<in> set (fqParentResources spec)"
  shows "model_permissions prs en t \<subseteq> model_permissions prs en P"
proof (cases "P = TypeRoot \<or> P = t")
  case True
  then show ?thesis using model_permissions_root[OF assms(1-3)] by auto
next
  case False
  then have "(P, t) \<in> child_rel prs" using registered_active[OF assms(4)] assms(5) by (auto simp: child_rel_def)
  then have "(child_rel prs)\<^sup>* `` {t} \<subseteq> (child_rel prs)\<^sup>* `` {P}" by (auto intro: converse_rtrancl_into_rtrancl)
  then show ?thesis using False assms(3) by (auto simp: model_permissions_def Let_def)
qed

lemma created_type_set:
  assumes "createExpectedAuthorizationModel en prs = Inr m" and "prs \<noteq> []"
  shows "td_Type ` set (am_TypeDefinitions m) = {TypeInternalUser, TypeInternalUserGroup, TypeRoot} \<union> reachable_types prs"
  using arg_cong[OF created_types[OF assms], of set] finite_reachable[of prs] by auto

lemma created_subject_types:
  assumes "createExpectedAuthorizationModel en prs = Inr m"
  shows "getUserTypeDefinition \<in> set (am_TypeDefinitions m)" and "getUserGroupTypeDefinition \<in> set (am_TypeDefinitions m)"
  using assms
  by (auto simp: createExpectedAuthorizationModel_def getMinimalAuthorizationModel_def go_calls Let_def split: if_splits)

lemma permission_refs_ok:
  assumes "createExpectedAuthorizationModel en prs = Inr m"
  shows "\<forall>ref \<in> set (rm_DirectlyRelatedUserTypes permission_metadata). reference_ok m ref"
  using created_subject_types[OF assms]
  by (force simp: permission_metadata_def reference_ok_def has_relation_def getUserTypeDefinition_def getUserGroupTypeDefinition_def)

lemma subject_types_wf:
  assumes "createExpectedAuthorizationModel en prs = Inr m"
  shows "wf_type m getUserTypeDefinition" and "wf_type m getUserGroupTypeDefinition"
  using created_subject_types[OF assms]
  by (force simp: wf_type_def getUserTypeDefinition_def getUserGroupTypeDefinition_def refs_def reference_ok_def RelationMember_def
      RelationAssignee_def)+

lemma root_type_wf:
  assumes "createExpectedAuthorizationModel en prs = Inr m"
  shows "wf_type m (getRootTypeDefinition ps)"
proof -
  have "rewrite_ok m td u \<and> (assignable u \<longleftrightarrow> refs td r \<noteq> []) \<and> (\<forall>ref \<in> set (refs td r). reference_ok m ref)"
    if "td = getRootTypeDefinition ps" "(r, u) \<in> set (td_Relations td)" for td r u
  proof -
    have "map_of (td_Relations td) r = Some u" using that distinct_type_definition(2) by simp
    then have "u = Userset_This (Some ())" "refs td r = rm_DirectlyRelatedUserTypes permission_metadata"
      using that(1) by (auto simp: getRootTypeDefinition_simps refs_def split: if_splits)
    then show ?thesis using permission_refs_ok[OF assms] by (simp add: permission_metadata_def)
  qed
  then show ?thesis using distinct_type_definition(2) by (auto simp: wf_type_def)
qed


lemma parent_not_hashed [simp]: "RelationParent \<noteq> hashPermission p"
  using hashPermission_not_parent[of p] by metis

lemma wf_type_reference:
  "wf_type m td \<Longrightarrow> (r, u) \<in> set (td_Relations td) \<Longrightarrow> ref \<in> set (refs td r) \<Longrightarrow> reference_ok m ref"
  unfolding wf_type_def by blast

lemma refs_parent:
  assumes "ParentResources n \<noteq> []"
  shows "refs (getResourceTypeDefinition ps n) RelationParent =
    map (\<lambda>P. \<lparr>rr_Type = P, rr_Relation = None\<rparr>) (sort (ParentResources n))"
  using assms by (auto simp: refs_def getResourceTypeDefinition_relations getResourceParentRelatedTypes_def)

lemma resource_type_wf:
  assumes created: "createExpectedAuthorizationModel en prs = Inr m" "prs \<noteq> []" and free: "reserved_free prs"
    and known: "set (fqParentResources spec) \<subseteq> insert TypeRoot (reachable_types prs)"
    and t: "t \<in> reachable_types prs - {TypeRoot}" and spec: "registered (sort_protected_resources prs) t = Some spec"
    and ps: "set ps = model_permissions prs en t" and n: "ParentResources n = sort (fqParentResources spec)"
  shows "wf_type m (getResourceTypeDefinition ps n)" (is "wf_type m ?td")
proof -
  have parent_ref: "reference_ok m \<lparr>rr_Type = P, rr_Relation = None\<rparr>" if "P \<in> set (fqParentResources spec)" for P
    using that known created_type_set[OF created] by (auto simp: reference_ok_def)
  have parent_rel: "\<exists>ref \<in> set (refs ?td RelationParent). has_relation m (rr_Type ref) (hashPermission p)"
    if "ParentResources n \<noteq> []" "p \<in> set ps" for p
  proof -
    from that(1) obtain P where P: "P \<in> set (fqParentResources spec)" unfolding n by (metis list.set_sel(1) set_sort)
    have "p \<in> model_permissions prs en P" using model_permissions_parent[OF created t spec P] that(2) ps by auto
    moreover have "P \<notin> {TypeInternalUser, TypeInternalUserGroup}"
      using registered_active[OF spec] P free by (auto simp: reserved_free_def)
    ultimately have "has_relation m P (hashPermission p)" using created_has_relation[OF created] P known by blast
    then show ?thesis using P that(1) by (auto simp: refs_parent n)
  qed
  have "rewrite_ok m ?td u \<and> (assignable u \<longleftrightarrow> refs ?td r \<noteq> []) \<and> (\<forall>ref \<in> set (refs ?td r). reference_ok m ref)"
    if "(r, u) \<in> set (td_Relations ?td)" for r u
  proof -
    have u: "map_of (td_Relations ?td) r = Some u" using that distinct_type_definition(1) by simp
    show ?thesis
    proof (cases "r \<in> hashPermission ` set ps")
      case True
      then obtain p where p: "p \<in> set ps" "r = hashPermission p" by blast
      have "refs ?td r = rm_DirectlyRelatedUserTypes permission_metadata"
        using True by (simp add: refs_def getResourceTypeDefinition_relations)
      moreover have "u = permission_userset n r" using u True by (simp add: getResourceTypeDefinition_relations)
      moreover have "map_of (td_Relations ?td) RelationParent = Some (Userset_This None)" if "ParentResources n \<noteq> []"
        using that by (auto simp: getResourceTypeDefinition_relations)
      ultimately show ?thesis using permission_refs_ok[OF created(1)] parent_rel[OF _ p(1)] p(2)
        by (auto simp: permission_userset_def permission_metadata_def refs_parent Let_def)
    next
      case False
      then have "r = RelationParent" "ParentResources n \<noteq> []" "u = Userset_This None"
        using u by (auto simp: getResourceTypeDefinition_relations split: if_splits)
      then show ?thesis using parent_ref by (auto simp: refs_parent n simp flip: set_empty)
    qed
  qed
  then show ?thesis using distinct_type_definition(1) by (auto simp: wf_type_def)
qed

lemma created_model_wf_iff:
  assumes created: "createExpectedAuthorizationModel en prs = Inr m" and free: "reserved_free prs"
  shows "wf_model m \<longleftrightarrow> parents_known prs"
proof (cases "prs = []")
  case True
  then have "am_TypeDefinitions m = [getUserTypeDefinition, getUserGroupTypeDefinition]"
    using created by (auto simp: createExpectedAuthorizationModel_def getMinimalAuthorizationModel_def)
  moreover have "reachable_types prs = {}" using True by (simp add: reachable_types_def parentless_def)
  ultimately show ?thesis using subject_types_wf[OF created]
    by (simp add: wf_model_def parents_known_def) (simp add: getUserTypeDefinition_def getUserGroupTypeDefinition_def)
next
  case False
  show ?thesis
  proof
    assume known: "parents_known prs"
    have "wf_type m td" if "td \<in> set (am_TypeDefinitions m)" for td
      using created False that
    proof (cases rule: created_definition_cases)
      case (resource t ps n spec)
      with known show ?thesis using resource_type_wf[OF created False free, of spec t ps n] by (auto simp: parents_known_def)
    qed (use subject_types_wf[OF created] root_type_wf[OF created] in auto)
    moreover have "distinct (map td_Type (am_TypeDefinitions m))"
      using reserved_reachable[OF free] by (auto simp: created_types[OF created False] finite_reachable)
    ultimately show "wf_model m" by (simp add: wf_model_def)
  next
    assume wf: "wf_model m"
    show "parents_known prs"
      unfolding parents_known_def
    proof (intro ballI allI impI subsetI)
      fix t spec P
      assume t: "t \<in> reachable_types prs - {TypeRoot}" and spec: "registered (sort_protected_resources prs) t = Some spec"
        and P: "P \<in> set (fqParentResources spec)"
      have "t \<in> td_Type ` set (am_TypeDefinitions m)" using t created_type_set[OF created False] by auto
      then obtain td where td: "td \<in> set (am_TypeDefinitions m)" "td_Type td = t" by blast
      have "reference_ok m \<lparr>rr_Type = P, rr_Relation = None\<rparr>"
        using created False td(1)
      proof (cases rule: created_definition_cases)
        case (resource t' ps n spec')
        then have n: "ParentResources n = sort (fqParentResources spec)" using td(2) spec by (auto simp: getResourceTypeDefinition_simps)
        then have "ParentResources n \<noteq> []" using P by (auto simp flip: set_empty)
        then have "(RelationParent, Userset_This None) \<in> set (td_Relations td)" and ref: "\<lparr>rr_Type = P, rr_Relation = None\<rparr> \<in> set (refs td RelationParent)"
          using P n resource(2) by (auto simp: refs_parent getResourceTypeDefinition_relations intro!: map_of_SomeD)
        then show ?thesis using wf_type_reference wf td(1) unfolding wf_model_def by blast
      qed (use t td(2) reserved_reachable[OF free, of t] in \<open>auto simp: getUserTypeDefinition_def getUserGroupTypeDefinition_def getRootTypeDefinition_simps\<close>)
      then have "P \<in> {TypeInternalUser, TypeInternalUserGroup, TypeRoot} \<union> reachable_types prs"
        using created_type_set[OF created False] by (auto simp: reference_ok_def)
      then show "P \<in> insert TypeRoot (reachable_types prs)"
        using registered_active[OF spec] P free by (auto simp: reserved_free_def)
    qed
  qed
qed


text \<open>
  C11. The model built from registrations that keep clear of the subject types passes the
  service's validation (every reference resolves, every rewrite leads to a relation that
  exists, type and relation names are unique) exactly when every parent that a type of the
  model declares is itself in the model.
\<close>

theorem createExpectedAuthorizationModel_wf:
  assumes created: "createExpectedAuthorizationModel en prs = Inr m" and free: "reserved_free prs"
  shows "wf_model m \<longleftrightarrow> parents_known prs"
  using assms by (rule created_model_wf_iff)

section \<open>Tuples that fit the model\<close>

text \<open>
  The check of a written tuple: the object's type has the relation, the relation can be
  assigned directly, and one of its user types fits.
\<close>

definition user_fits :: "RelationReference \<Rightarrow> string \<Rightarrow> bool" where
  "user_fits ref u \<longleftrightarrow> HasPrefix u (rr_Type ref @ '':'') \<and>
     (case rr_Relation ref of None \<Rightarrow> True | Some r \<Rightarrow> \<exists>i. u = rr_Type ref @ '':'' @ i @ ''#'' @ r)"

definition accepts :: "AuthorizationModel \<Rightarrow> TupleKey \<Rightarrow> bool" where
  "accepts m t \<longleftrightarrow>
     (case Cut (tk_Object t) (CHR '':'') of (objectType, _, found) \<Rightarrow> found \<and>
        (\<exists>td \<in> set (am_TypeDefinitions m). td_Type td = objectType \<and>
           (\<exists>u. map_of (td_Relations td) (tk_Relation t) = Some u \<and> assignable u) \<and>
           (\<exists>ref \<in> set (refs td (tk_Relation t)). user_fits ref (tk_User t))))"

lemma map_of_relationsByType:
  assumes "distinct (map td_Type tds)" and "td \<in> set tds"
  shows "map_of (foldl (\<lambda>m td. AList.update (td_Type td) (fst ` set (td_Relations td)) m) acc tds) (td_Type td) =
    Some (fst ` set (td_Relations td))"
proof -
  have skip: "map_of (foldl (\<lambda>m td. AList.update (td_Type td) (fst ` set (td_Relations td)) m) acc tds) t = map_of acc t"
    if "t \<notin> td_Type ` set tds" for acc tds t
    using that by (induction tds arbitrary: acc) (auto simp: update_conv')
  show ?thesis using assms by (induction tds arbitrary: acc) (auto simp: update_conv' skip)
qed

lemma accepts_supported:
  assumes "distinct (map td_Type (am_TypeDefinitions m))" and "\<forall>t \<in> set ts. accepts m t"
  shows "modelSupportsTupleWrites (Some m) ts"
proof -
  have "case Cut (tk_Object t) (CHR '':'') of (objectType, _, found) \<Rightarrow> found \<and>
      (case map_of (relationsByType m) objectType of None \<Rightarrow> False | Some relations \<Rightarrow> tk_Relation t \<in> relations)"
    if acc: "accepts m t" for t
  proof -
    obtain T x found where cut: "Cut (tk_Object t) (CHR '':'') = (T, x, found)" using prod_cases3 by blast
    with acc obtain td u where "found" "td \<in> set (am_TypeDefinitions m)" "td_Type td = T" "map_of (td_Relations td) (tk_Relation t) = Some u"
      by (auto simp: accepts_def)
    moreover from this have "tk_Relation t \<in> fst ` set (td_Relations td)" by (force dest: map_of_SomeD)
    ultimately show ?thesis
      using map_of_relationsByType[OF assms(1), of td "[]"] by (auto simp: cut relationsByType_def)
  qed
  with assms(2) show ?thesis by (simp add: modelSupportsTupleWrites_def list_all_iff)
qed

section \<open>The tuples of a binding\<close>

text \<open>No type is registered twice with different specifications.\<close>

definition one_per_type :: "ProtectedResource list \<Rightarrow> bool" where
  "one_per_type prs \<longleftrightarrow> (\<forall>pr \<in> set prs. \<forall>pr' \<in> set prs. active pr \<longrightarrow> active pr' \<longrightarrow>
     fqType (pr_Spec pr) = fqType (pr_Spec pr') \<longrightarrow> pr_Spec pr = pr_Spec pr')"

lemma registered_iff:
  assumes "one_per_type prs"
  shows "registered prs t = Some spec \<longleftrightarrow> (\<exists>pr \<in> set prs. active pr \<and> fqType (pr_Spec pr) = t \<and> pr_Spec pr = spec)"
proof
  assume "\<exists>pr \<in> set prs. active pr \<and> fqType (pr_Spec pr) = t \<and> pr_Spec pr = spec"
  then obtain pr where pr: "pr \<in> set prs" "active pr" "fqType (pr_Spec pr) = t" "pr_Spec pr = spec" by blast
  then have "t \<in> dom (registered prs)" by (auto simp: dom_registered)
  then obtain spec' where spec': "registered prs t = Some spec'" by blast
  from registered_active[OF this] assms pr show "registered prs t = Some spec" unfolding spec' one_per_type_def by auto
qed (auto dest: registered_active)

lemma registered_sort:
  assumes "one_per_type prs"
  shows "registered (sort_protected_resources prs) = registered prs"
proof
  fix t
  have "one_per_type (sort_protected_resources prs)" using assms by (simp add: one_per_type_def)
  then have "registered (sort_protected_resources prs) t = Some spec \<longleftrightarrow> registered prs t = Some spec" for spec
    by (simp add: registered_iff assms)
  then show "registered (sort_protected_resources prs) t = registered prs t" by (metis not_None_eq)
qed

text \<open>The type of the object a binding's tuples are on.\<close>

definition selector_type :: "ResourceSelector \<Rightarrow> string" where
  "selector_type sel = (case sel_ResourceRef sel of Some ref \<Rightarrow> ref_APIGroup ref @ ''/'' @ ref_Kind ref | None \<Rightarrow> TypeRoot)"

lemma valid_permissions_in_model:
  assumes "createExpectedAuthorizationModel (pol_EnableSubresourceAuthorization r) prs = Inr m" and "prs \<noteq> []" and "one_per_type prs"
    and "ListProtectedResources (pol_K8sClient r) w = Inr prs" and "getHierarchicalPermissionsForSelector r sel w = Inr valid"
    and "selector_type sel \<in> insert TypeRoot (reachable_types prs)"
  shows "valid \<subseteq> model_permissions prs (pol_EnableSubresourceAuthorization r) (selector_type sel)"
proof -
  let ?en = "pol_EnableSubresourceAuthorization r"
  note reg = registered_sort[OF assms(3)]
  let ?valid = "\<lambda>g K. case map_of (calculateHierarchicalPermissions g) K of
    None \<Rightarrow> set (concat (map snd (calculateHierarchicalPermissions g))) | Some perms \<Rightarrow> set perms"
  define K where "K = (case sel_ResourceRef sel of Some ref \<Rightarrow> selector_type sel
    | None \<Rightarrow> (case sel_ResourceKind sel of Some rk \<Rightarrow> kind_APIGroup rk @ ''/'' @ kind_Kind rk | None \<Rightarrow> []))"
  have "\<exists>g. getResourceGraph prs ?en = Inr g \<and> (if map_of (calculateHierarchicalPermissions g) K = None
      then Inr (set (concat (map snd (calculateHierarchicalPermissions g)))) else Inr (set (the (map_of (calculateHierarchicalPermissions g) K)))) =
      (Inr valid :: string set result)"
    using assms(4,5)
    by (cases "sel_ResourceRef sel"; cases "sel_ResourceKind sel"; cases "getResourceGraph prs ?en")
       (auto simp: getHierarchicalPermissionsForSelector_def Let_def K_def selector_type_def split: option.splits)
  then obtain g where g: "getResourceGraph prs ?en = Inr g" and v: "(if map_of (calculateHierarchicalPermissions g) K = None
      then Inr (set (concat (map snd (calculateHierarchicalPermissions g)))) else Inr (set (the (map_of (calculateHierarchicalPermissions g) K)))) =
      (Inr valid :: string set result)" by blast
  from v have valid: "valid = ?valid g K" by (cases "map_of (calculateHierarchicalPermissions g) K") simp_all
  have all: "set (concat (map snd (calculateHierarchicalPermissions g))) = model_permissions prs ?en TypeRoot"
    using hierarchical_all_permissions[OF g] by (simp add: model_permissions_def Let_def reg)
  have own: "valid = model_permissions prs ?en K" if "K \<in> reachable_types prs - {TypeRoot}"
  proof -
    have "inherited (registered prs) (child_rel prs) ?en K = model_permissions prs ?en K"
      using that by (simp add: model_permissions_def inherited_def reg)
    then show ?thesis
      using that hierarchical_map_of[OF g, of K] finite_model_permissions[of K prs ?en] by (simp add: valid)
  qed
  have "valid = model_permissions prs ?en TypeRoot" if "K \<notin> reachable_types prs - {TypeRoot}"
    using that hierarchical_map_of[OF g, of K] by (simp only: valid all) simp
  with own assms(6) model_permissions_root[OF assms(1,2), of K] show ?thesis
    by (cases "K \<in> reachable_types prs - {TypeRoot}"; cases "sel_ResourceRef sel") (auto simp: selector_type_def K_def)
qed


lemma binding_user_fits:
  assumes "u \<in> binding_users b"
  shows "\<exists>ref \<in> set (rm_DirectlyRelatedUserTypes permission_metadata). user_fits ref u"
proof -
  from assms obtain s where s: "getTupleUser s = Inr u" by (auto simp: binding_users_def)
  then consider x where "u = TypeInternalUser @ '':'' @ x" | x where "u = TypeInternalUserGroup @ '':'' @ x @ ''#'' @ RelationMember"
    by (auto simp: getTupleUser_def RelationMember_def split: if_splits)
  then show ?thesis
  proof cases
    case 1
    then have "user_fits \<lparr>rr_Type = TypeInternalUser, rr_Relation = None\<rparr> u" by (simp add: user_fits_def HasPrefix_def)
    then show ?thesis by (simp add: permission_metadata_def)
  next
    case 2
    then have "user_fits \<lparr>rr_Type = TypeInternalUserGroup, rr_Relation = Some RelationMember\<rparr> u"
      by (auto simp: user_fits_def HasPrefix_def)
    then show ?thesis by (simp add: permission_metadata_def)
  qed
qed

lemma created_accepts:
  assumes created: "createExpectedAuthorizationModel en prs = Inr m" "prs \<noteq> []" and "reserved_free prs"
    and T: "T \<in> insert TypeRoot (reachable_types prs)" and "CHR '':'' \<notin> set T" and "p \<in> model_permissions prs en T"
    and "\<exists>ref \<in> set (rm_DirectlyRelatedUserTypes permission_metadata). user_fits ref u"
  shows "accepts m (permission_tuple u (T @ '':'' @ x) p)"
proof -
  have "T \<in> td_Type ` set (am_TypeDefinitions m)" using T created_type_set[OF created] by auto
  then obtain td where td: "td \<in> set (am_TypeDefinitions m)" "td_Type td = T" by blast
  have "T \<notin> {TypeInternalUser, TypeInternalUserGroup}" using T reserved_reachable[OF assms(3)] by auto
  then have "map_of (td_Relations td) (hashPermission p) \<noteq> None \<and>
      (\<forall>u. map_of (td_Relations td) (hashPermission p) = Some u \<longrightarrow> assignable u) \<and>
      refs td (hashPermission p) = rm_DirectlyRelatedUserTypes permission_metadata"
    using created_relations[OF created td(1), of p] td(2) assms(6) by (auto simp: refs_def split: if_splits)
  then have "(\<exists>y. map_of (td_Relations td) (hashPermission p) = Some y \<and> assignable y) \<and> (\<exists>ref \<in> set (refs td (hashPermission p)). user_fits ref u)"
    using assms(7) by auto
  with td have "\<exists>td \<in> set (am_TypeDefinitions m). td_Type td = T \<and> (\<exists>y. map_of (td_Relations td) (hashPermission p) = Some y \<and> assignable y) \<and>
      (\<exists>ref \<in> set (refs td (hashPermission p)). user_fits ref u)" by blast
  then show ?thesis using assms(5) by (simp add: accepts_def permission_tuple_def Cut_append)
qed

text \<open>
  C7. The two controllers agree: for a binding on a type of the model, and registrations
  that define each type once, every tuple that the policy reconciler wants to store fits
  the model built from the same registrations (its relation exists on the target's type
  and accepts the subject's user type), so a write of them is supported by that model.
\<close>

theorem binding_tuples_fit_model:
  assumes created: "createExpectedAuthorizationModel (pol_EnableSubresourceAuthorization r) prs = Inr m" "prs \<noteq> []"
    and prs: "reserved_free prs" "one_per_type prs" "ListProtectedResources (pol_K8sClient r) w = Inr prs"
    and valid: "getHierarchicalPermissionsForSelector r (pb_ResourceSelector binding) w = Inr valid"
      "pol_EnableSubresourceAuthorization r \<or> valid \<noteq> {}"
    and ty: "selector_type (pb_ResourceSelector binding) \<in> insert TypeRoot (reachable_types prs)"
      "CHR '':'' \<notin> set (selector_type (pb_ResourceSelector binding))"
    and target: "TargetObjectFromResourceSelector (pb_ResourceSelector binding) = Inr target"
    and tuples: "buildPermissionTuples r binding role target valid = Inr tuples"
  shows "(\<forall>t \<in> set tuples. accepts m t) \<and> modelSupportsTupleWrites (Some m) tuples"
proof -
  let ?en = "pol_EnableSubresourceAuthorization r" and ?T = "selector_type (pb_ResourceSelector binding)"
  have perms: "valid \<subseteq> model_permissions prs ?en ?T"
    using created prs(2,3) valid(1) ty(1) by (rule valid_permissions_in_model)
  have "role_grants ?en valid role \<subseteq> valid" using valid(2) by (auto simp: role_grants_def granted_permissions_def)
  moreover obtain x where x: "target = ?T @ '':'' @ x"
    using target by (auto simp: TargetObjectFromResourceSelector_def selector_type_def ObjectName_def split: option.splits)
  ultimately have "accepts m t" if "t \<in> set tuples" for t
    using that perms binding_user_fits[of _ binding] created_accepts[OF created prs(1) ty]
    unfolding buildPermissionTuples_set[OF tuples] by blast
  moreover have "distinct (map td_Type (am_TypeDefinitions m))"
    using reserved_reachable[OF prs(1)] by (auto simp: created_types[OF created] finite_reachable)
  ultimately show ?thesis using accepts_supported by blast
qed


section \<open>Evaluations\<close>

lemma example_registrations:
  "reserved_free example_prs" "one_per_type example_prs"
  by (auto simp: reserved_free_def one_per_type_def example_prs_def example_pr_def fqType_def fqParentResources_def TypeInternalUser_def
      TypeInternalUserGroup_def)

text \<open>A machine may belong to an organization or to a kind nobody registered.\<close>

definition dangling_prs :: "ProtectedResource list" where
  "dangling_prs =
     [example_pr ''rm.io'' ''Org'' ''orgs'' [''get''] [],
      example_pr ''c.io'' ''VM'' ''vms'' [''list''] [(''rm.io'', ''Org''), (''x.io'', ''Gone'')]]"

theorem createExpectedAuthorizationModel_wf_witness: "wf_model example_model"
proof -
  have "set (fqParentResources (pr_Spec pr)) \<subseteq> {''rm.io/Org'', ''rm.io/Project''}" if "pr \<in> set example_prs" for pr
    using that by (auto simp: example_prs_def example_pr_def fqParentResources_def)
  moreover have "{''rm.io/Org'', ''rm.io/Project''} \<subseteq> reachable_types example_prs" using example_reachable by auto
  ultimately have "parents_known example_prs"
    unfolding parents_known_def by (auto dest!: registered_active) blast+
  then show ?thesis using createExpectedAuthorizationModel_wf[OF example_model_ok example_registrations(1)] by simp
qed

lemma dangling_created: "\<exists>m. createExpectedAuthorizationModel False dangling_prs = Inr m"
proof -
  have "\<not> isl (getResourceGraph (sort_protected_resources dangling_prs) False)" by code_simp
  then obtain g where "getResourceGraph (sort_protected_resources dangling_prs) False = Inr g"
    by (cases "getResourceGraph (sort_protected_resources dangling_prs) False") auto
  then show ?thesis by (simp add: createExpectedAuthorizationModel_def Let_def dangling_prs_def)
qed

lemma parentlessI: "pr \<in> set prs \<Longrightarrow> active pr \<Longrightarrow> spec_ParentResources (pr_Spec pr) = [] \<Longrightarrow> fqType (pr_Spec pr) \<in> parentless prs"
  by (auto simp: parentless_def)

lemma child_relI:
  "pr \<in> set prs \<Longrightarrow> active pr \<Longrightarrow> p \<in> set (fqParentResources (pr_Spec pr)) \<Longrightarrow> p \<noteq> fqType (pr_Spec pr) \<Longrightarrow>
   (p, fqType (pr_Spec pr)) \<in> child_rel prs"
  by (auto simp: child_rel_def)

text \<open>Such a registration makes the whole model invalid, although the builder accepts it.\<close>

theorem dangling_parent_invalid_model:
  "\<exists>m. createExpectedAuthorizationModel False dangling_prs = Inr m \<and> \<not> wf_model m"
proof -
  let ?vm = "example_pr ''c.io'' ''VM'' ''vms'' [''list''] [(''rm.io'', ''Org''), (''x.io'', ''Gone'')]"
  have free: "reserved_free dangling_prs" "one_per_type dangling_prs"
    by (auto simp: reserved_free_def one_per_type_def dangling_prs_def example_pr_def fqType_def fqParentResources_def TypeInternalUser_def
        TypeInternalUserGroup_def)
  have vm: "?vm \<in> set dangling_prs" "active ?vm" "fqType (pr_Spec ?vm) = ''c.io/VM''"
    by (simp_all add: dangling_prs_def example_pr_def fqType_def active_def)
  let ?org = "example_pr ''rm.io'' ''Org'' ''orgs'' [''get''] []"
  have org: "?org \<in> set dangling_prs" "active ?org" "fqType (pr_Spec ?org) = ''rm.io/Org''" "spec_ParentResources (pr_Spec ?org) = []"
    by (simp_all add: dangling_prs_def example_pr_def fqType_def active_def)
  have "''rm.io/Org'' \<in> parentless dangling_prs" using parentlessI[OF org(1,2,4)] org(3) by simp
  moreover have "''rm.io/Org'' \<in> set (fqParentResources (pr_Spec ?vm))" by (simp add: example_pr_def fqParentResources_def)
  then have "(''rm.io/Org'', ''c.io/VM'') \<in> child_rel dangling_prs" using child_relI[OF vm(1,2)] vm(3) by simp
  ultimately have "''c.io/VM'' \<in> reachable_types dangling_prs - {TypeRoot}" by (auto simp: reachable_types_def TypeRoot_def)
  moreover have "registered (sort_protected_resources dangling_prs) ''c.io/VM'' = Some (pr_Spec ?vm)"
    using vm by (auto simp: registered_sort[OF free(2)] registered_iff[OF free(2)])
  moreover have "''x.io/Gone'' \<in> set (fqParentResources (pr_Spec ?vm))" by (simp add: example_pr_def fqParentResources_def)
  moreover have "''x.io/Gone'' \<notin> insert TypeRoot (reachable_types dangling_prs)"
    using reachable_registered[of "''x.io/Gone''" dangling_prs] by (auto simp: TypeRoot_def dangling_prs_def example_pr_def fqType_def)
  ultimately have "\<not> parents_known dangling_prs" unfolding parents_known_def by blast
  moreover obtain m where m: "createExpectedAuthorizationModel False dangling_prs = Inr m" using dangling_created by blast
  moreover have "wf_model m \<longleftrightarrow> parents_known dangling_prs" using m free(1) by (rule created_model_wf_iff)
  ultimately show ?thesis by blast
qed

theorem binding_tuples_fit_model_witness:
  "modelSupportsTupleWrites (Some example_model)
     [permission_tuple (TypeInternalUser @ '':alice'') ''rm.io/Org:acme'' ''c.io/vms.list'']"
proof -
  let ?b = "example_binding ''b1'' ''viewer''" and ?valid = "set [''c.io/vms.list'', ''rm.io/orgs.get'', ''rm.io/projects.get'']"
  have "createExpectedAuthorizationModel (pol_EnableSubresourceAuthorization example_policy) example_prs = Inr example_model"
    "ListProtectedResources (pol_K8sClient example_policy) example_store = Inr example_prs"
    using example_model_ok by (simp_all add: example_policy_def)
  moreover have "getHierarchicalPermissionsForSelector example_policy (pb_ResourceSelector ?b) example_store = Inr ?valid" by code_simp
  moreover have "selector_type (pb_ResourceSelector ?b) \<in> insert TypeRoot (reachable_types example_prs)"
    "CHR '':'' \<notin> set (selector_type (pb_ResourceSelector ?b))"
    using example_reachable by (auto simp: selector_type_def example_binding_def)
  moreover have "TargetObjectFromResourceSelector (pb_ResourceSelector ?b) = Inr ''rm.io/Org:acme''" by code_simp
  moreover have "buildPermissionTuples example_policy ?b (example_role ''viewer'' [''c.io/vms.list'']) ''rm.io/Org:acme'' ?valid =
      Inr [permission_tuple (TypeInternalUser @ '':alice'') ''rm.io/Org:acme'' ''c.io/vms.list'']" by code_simp
  ultimately show ?thesis
    using binding_tuples_fit_model[OF _ example_prs_nonempty example_registrations] by (metis empty_iff list.set_intros(1))
qed

end
