(* ===== verification/Check_Semantics.thy ===== *)
theory Check_Semantics
  imports Webhook Model_Typing
begin

text \<open>
  What a Check of the authorization service means on the models and tuples of the
  controllers. The service is not part of the repository; \<open>fga_check\<close> states its documented
  evaluation of a model (the union, computed and tuple-to-userset rewrites and the
  usersets of directly assigned tuples, over the stored tuples that fit the model) as an
  inductive predicate, which the theorems use as a hypothesis about the service. For the
  models that the builder creates, the recursion is solved: a permission holds on an
  object exactly when it is granted on it or on an object reached through its parents.
\<close>

section \<open>Evaluation of a model\<close>

definition object_type :: "string \<Rightarrow> string" where
  "object_type object = fst (Cut object (CHR '':''))"

text \<open>Stored tuples that do not fit the model are ignored; no tuple of the repository carries a condition.\<close>

definition usable :: "AuthorizationModel \<Rightarrow> TupleKey set \<Rightarrow> TupleKey set" where
  "usable m S = {t \<in> S. accepts m t \<and> tk_Condition t = None}"

inductive fga_check :: "AuthorizationModel \<Rightarrow> TupleKey set \<Rightarrow> string \<Rightarrow> string \<Rightarrow> string \<Rightarrow> bool"
  and fga_rewrite :: "AuthorizationModel \<Rightarrow> TupleKey set \<Rightarrow> string \<Rightarrow> Userset \<Rightarrow> string \<Rightarrow> string \<Rightarrow> bool"
  for m S u where
  relation: "td \<in> set (am_TypeDefinitions m) \<Longrightarrow> td_Type td = object_type obj \<Longrightarrow> map_of (td_Relations td) r = Some rw \<Longrightarrow>
    fga_rewrite m S u rw r obj \<Longrightarrow> fga_check m S u r obj"
| direct: "t \<in> usable m S \<Longrightarrow> tk_User t = u \<Longrightarrow> tk_Relation t = r \<Longrightarrow> tk_Object t = obj \<Longrightarrow>
    fga_rewrite m S u (Userset_This x) r obj"
| userset: "t \<in> usable m S \<Longrightarrow> tk_User t = obj' @ ''#'' @ r' \<Longrightarrow> tk_Relation t = r \<Longrightarrow> tk_Object t = obj \<Longrightarrow>
    fga_check m S u r' obj' \<Longrightarrow> fga_rewrite m S u (Userset_This x) r obj"
| computed: "fga_check m S u r' obj \<Longrightarrow> fga_rewrite m S u (Userset_ComputedUserset r') r obj"
| tuple_to_userset: "t \<in> usable m S \<Longrightarrow> tk_Relation t = ts \<Longrightarrow> tk_Object t = obj \<Longrightarrow> fga_check m S u r' (tk_User t) \<Longrightarrow>
    fga_rewrite m S u (Userset_TupleToUserset ts r') r obj"
| union: "rw \<in> set us \<Longrightarrow> fga_rewrite m S u rw r obj \<Longrightarrow> fga_rewrite m S u (Userset_Union us) r obj"

inductive_cases fga_checkE: "fga_check m S u r obj"
inductive_cases fga_thisE: "fga_rewrite m S u (Userset_This x) r obj"

lemma this_cases [consumes 1, case_names direct userset]:
  assumes "fga_rewrite m S u (Userset_This x) r obj"
  obtains t where "t \<in> usable m S" and "tk_User t = u" and "tk_Relation t = r" and "tk_Object t = obj"
    | t obj' r' where "t \<in> usable m S" and "tk_User t = obj' @ ''#'' @ r'" and "tk_Relation t = r" and "tk_Object t = obj"
      and "fga_check m S u r' obj'"
  using assms by (rule fga_thisE) auto

section \<open>Grants and parents\<close>

text \<open>The object named by a stored \<open>parent\<close> tuple.\<close>

definition parent_link :: "AuthorizationModel \<Rightarrow> TupleKey set \<Rightarrow> string \<Rightarrow> string \<Rightarrow> bool" where
  "parent_link m S obj obj' \<longleftrightarrow> (\<exists>t \<in> usable m S. tk_Object t = obj \<and> tk_Relation t = RelationParent \<and> tk_User t = obj')"

definition member_of :: "AuthorizationModel \<Rightarrow> TupleKey set \<Rightarrow> string \<Rightarrow> string \<Rightarrow> bool" where
  "member_of m S u g \<longleftrightarrow> (\<exists>t \<in> usable m S. tk_Object t = g \<and> tk_Relation t = RelationMember \<and> tk_User t = u)"

text \<open>A relation stored for the user, or for the members of a group the user is in.\<close>

definition granted :: "AuthorizationModel \<Rightarrow> TupleKey set \<Rightarrow> string \<Rightarrow> string \<Rightarrow> string \<Rightarrow> bool" where
  "granted m S u r obj \<longleftrightarrow> (\<exists>t \<in> usable m S. tk_Object t = obj \<and> tk_Relation t = r \<and>
     (tk_User t = u \<or> (\<exists>g. tk_User t = g @ ''#'' @ RelationMember \<and> member_of m S u g)))"

text \<open>Neither types nor declared parents contain a colon, as no API group and no kind does.\<close>

definition colon_free :: "ProtectedResource list \<Rightarrow> bool" where
  "colon_free prs \<longleftrightarrow> (\<forall>pr \<in> set prs. \<forall>t \<in> insert (fqType (pr_Spec pr)) (set (fqParentResources (pr_Spec pr))). CHR '':'' \<notin> set t)"

section \<open>Lemmas on types\<close>

lemma object_type_prefix:
  assumes "HasPrefix obj (T @ '':'')" and "CHR '':'' \<notin> set T"
  shows "object_type obj = T"
proof -
  have "take (length (T @ '':'')) obj = T @ '':''" using assms(1) by (simp add: HasPrefix_def)
  then have "obj = (T @ '':'') @ drop (length (T @ '':'')) obj" by (metis append_take_drop_id)
  then have "obj = T @ CHR '':'' # drop (length (T @ '':'')) obj" by simp
  then show ?thesis using Cut_append[OF assms(2)] by (metis fst_conv object_type_def)
qed

lemma subject_types_colon_free:
  "CHR '':'' \<notin> set TypeInternalUser" "CHR '':'' \<notin> set TypeInternalUserGroup" "CHR '':'' \<notin> set TypeRoot"
  by (simp_all add: TypeInternalUser_def TypeInternalUserGroup_def TypeRoot_def)

lemma usable_typed:
  assumes "t \<in> usable m S"
  obtains td rw ref where "td \<in> set (am_TypeDefinitions m)" and "td_Type td = object_type (tk_Object t)"
    and "map_of (td_Relations td) (tk_Relation t) = Some rw" and "assignable rw"
    and "ref \<in> set (refs td (tk_Relation t))" and "user_fits ref (tk_User t)"
  using assms by (auto simp: usable_def accepts_def object_type_def split: prod.splits)

text \<open>A userset user splits where its last \<open>#\<close> is.\<close>

lemma userset_user_split:
  assumes "a @ ''#'' @ b = c @ ''#'' @ d" and "CHR ''#'' \<notin> set d"
  shows "a = c \<and> b = d \<or> (\<exists>x. b = x @ ''#'' @ d)"
proof -
  from assms(1) consider us where "a = c @ us" "us @ CHR ''#'' # b = CHR ''#'' # d" | us where "c = a @ us" "CHR ''#'' # b = us @ CHR ''#'' # d"
    by (auto simp: append_eq_append_conv2)
  then show ?thesis
  proof cases
    case 1
    then show ?thesis using assms(2) by (cases us) auto
  next
    case 2
    then show ?thesis by (cases us) auto
  qed
qed

lemma prefix_userset:
  assumes "HasPrefix (a @ ''#'' @ b) p" and "CHR ''#'' \<notin> set p"
  shows "HasPrefix a p"
proof -
  have "take (length p) (a @ ''#'' @ b) = p" using assms(1) by (simp add: HasPrefix_def)
  then have p: "take (length p) a @ take (length p - length a) (''#'' @ b) = p" by simp
  then have "length p \<le> length a"
  proof (rule_tac ccontr)
    assume "\<not> length p \<le> length a"
    then have "CHR ''#'' \<in> set (take (length p - length a) (''#'' @ b))" by (cases "length p - length a") auto
    then have "CHR ''#'' \<in> set p" using p by (metis UnCI set_append)
    with assms(2) show False by blast
  qed
  then show ?thesis using p by (simp add: HasPrefix_def)
qed

section \<open>Checks on a created model\<close>

lemma created_distinct:
  assumes "createExpectedAuthorizationModel en prs = Inr m" and "prs \<noteq> []" and "reserved_free prs"
  shows "distinct (map td_Type (am_TypeDefinitions m))"
  using reserved_reachable[OF assms(3)] by (auto simp: created_types[OF assms(1,2)] finite_reachable)

text \<open>The two subject types: users have no relations, and only users are members of groups.\<close>

lemma created_subject_definitions:
  assumes "createExpectedAuthorizationModel en prs = Inr m" and "prs \<noteq> []" and "reserved_free prs" and "td \<in> set (am_TypeDefinitions m)"
  shows "td_Type td = TypeInternalUser \<Longrightarrow> td = getUserTypeDefinition"
    and "td_Type td = TypeInternalUserGroup \<Longrightarrow> td = getUserGroupTypeDefinition"
proof -
  have inj: "inj_on td_Type (set (am_TypeDefinitions m))" using created_distinct[OF assms(1-3)] by (simp add: distinct_map)
  show "td_Type td = TypeInternalUser \<Longrightarrow> td = getUserTypeDefinition"
    and "td_Type td = TypeInternalUserGroup \<Longrightarrow> td = getUserGroupTypeDefinition"
    using created_subject_types[OF assms(1)] assms(4)
    by (auto intro!: inj_onD[OF inj] simp: getUserTypeDefinition_def getUserGroupTypeDefinition_def)
qed

lemma check_user_object:
  assumes "createExpectedAuthorizationModel en prs = Inr m" and "prs \<noteq> []" and "reserved_free prs"
    and "HasPrefix obj (TypeInternalUser @ '':'')"
  shows "\<not> fga_check m S u r obj"
proof
  assume "fga_check m S u r obj"
  then obtain td rw where td: "td \<in> set (am_TypeDefinitions m)" "td_Type td = object_type obj" "map_of (td_Relations td) r = Some rw"
    by (rule fga_checkE)
  moreover have "object_type obj = TypeInternalUser" using assms(4) subject_types_colon_free(1) by (rule object_type_prefix)
  ultimately have "td = getUserTypeDefinition" using created_subject_definitions(1)[OF assms(1-3)] by simp
  with td(3) show False by (simp add: getUserTypeDefinition_def)
qed

lemma check_member_iff:
  assumes created: "createExpectedAuthorizationModel en prs = Inr m" "prs \<noteq> []" "reserved_free prs"
    and g: "object_type g = TypeInternalUserGroup"
  shows "fga_check m S u RelationMember g \<longleftrightarrow> member_of m S u g"
proof
  assume "fga_check m S u RelationMember g"
  then obtain td rw where td: "td \<in> set (am_TypeDefinitions m)" "td_Type td = object_type g" "map_of (td_Relations td) RelationMember = Some rw"
    and rw: "fga_rewrite m S u rw RelationMember g" by (rule fga_checkE)
  from td(1,2) g have "td = getUserGroupTypeDefinition" using created_subject_definitions(2)[OF created] by simp
  with td(3) rw have "fga_rewrite m S u (Userset_This (Some ())) RelationMember g" by (simp add: getUserGroupTypeDefinition_def)
  then show "member_of m S u g"
  proof (cases rule: this_cases)
    case (userset t obj' r')
    from userset(1) obtain td ref where t: "td \<in> set (am_TypeDefinitions m)" "td_Type td = object_type (tk_Object t)"
      "ref \<in> set (refs td (tk_Relation t))" "user_fits ref (tk_User t)" by (rule usable_typed)
    then have "td = getUserGroupTypeDefinition" using created_subject_definitions(2)[OF created] g userset(4) by simp
    with t(3,4) userset(2,3) have "HasPrefix (obj' @ ''#'' @ r') (TypeInternalUser @ '':'')"
      by (auto simp: refs_def getUserGroupTypeDefinition_def user_fits_def)
    then have "HasPrefix obj' (TypeInternalUser @ '':'')" by (rule prefix_userset) (simp add: TypeInternalUser_def)
    with userset check_user_object[OF created] show ?thesis by blast
  qed (auto simp: member_of_def)
next
  assume "member_of m S u g"
  then obtain t where t: "t \<in> usable m S" "tk_Object t = g" "tk_Relation t = RelationMember" "tk_User t = u" by (auto simp: member_of_def)
  from created_subject_types(2)[OF created(1)] show "fga_check m S u RelationMember g"
    by (rule fga_check_fga_rewrite.relation) (use t g in \<open>auto simp: getUserGroupTypeDefinition_def intro: fga_check_fga_rewrite.direct\<close>)
qed

lemma hashed_not_member [simp]: "hashPermission p \<noteq> RelationMember" "hashPermission p \<noteq> RelationAssignee"
proof -
  show "hashPermission p \<noteq> RelationMember" using length_hashPermission[of p] by (auto simp: RelationMember_def)
  have "CHR ''s'' \<notin> set (hashPermission p)" using set_EncodeToString unfolding hashPermission_def hextable_def by fastforce
  then show "hashPermission p \<noteq> RelationAssignee" by (auto simp: RelationAssignee_def)
qed

lemma relations_differ [simp]:
  "RelationMember \<noteq> RelationParent" "RelationAssignee \<noteq> RelationParent" "RelationParent \<noteq> RelationMember" "RelationParent \<noteq> RelationAssignee"
  by (simp_all add: RelationMember_def RelationAssignee_def RelationParent_def)

lemma check_group_relation:
  assumes "createExpectedAuthorizationModel en prs = Inr m" and "prs \<noteq> []" and "reserved_free prs"
    and "fga_check m S u r g" and "object_type g = TypeInternalUserGroup"
  shows "r \<in> {RelationMember, RelationAssignee}"
proof -
  from assms(4) obtain td rw where "td \<in> set (am_TypeDefinitions m)" "td_Type td = object_type g" "map_of (td_Relations td) r = Some rw"
    by (rule fga_checkE)
  moreover from this have "td = getUserGroupTypeDefinition" using created_subject_definitions(2)[OF assms(1-3)] assms(5) by simp
  ultimately show ?thesis by (auto simp: getUserGroupTypeDefinition_def split: if_splits)
qed

text \<open>A definition with a permission relation is that of a resource type or of Root.\<close>

lemma hashed_relation_type:
  assumes "createExpectedAuthorizationModel en prs = Inr m" and "prs \<noteq> []" and "reserved_free prs"
    and "td \<in> set (am_TypeDefinitions m)" and "map_of (td_Relations td) (hashPermission p) = Some rw"
  shows "td_Type td \<notin> {TypeInternalUser, TypeInternalUserGroup}"
  using created_subject_definitions[OF assms(1-4)] assms(5)
  by (auto simp: getUserTypeDefinition_def getUserGroupTypeDefinition_def split: if_splits)

lemma permission_userset_member:
  assumes created: "createExpectedAuthorizationModel en prs = Inr m" "prs \<noteq> []" "reserved_free prs"
    and t: "t \<in> usable m S" "tk_Relation t = hashPermission p" "tk_User t = g @ ''#'' @ r" and check: "fga_check m S u r g"
  shows "r = RelationMember \<and> object_type g = TypeInternalUserGroup"
proof -
  from t(1) obtain td rw ref where td: "td \<in> set (am_TypeDefinitions m)" "map_of (td_Relations td) (tk_Relation t) = Some rw"
    and ref: "ref \<in> set (refs td (tk_Relation t))" "user_fits ref (tk_User t)" by (rule usable_typed)
  have "refs td (hashPermission p) = rm_DirectlyRelatedUserTypes permission_metadata"
    using created_relations[OF created(1,2) td(1) hashed_relation_type[OF created td(1)], of p rw p] td(2) t(2)
    by (auto simp: refs_def split: if_splits)
  with ref t(2,3) consider "HasPrefix (g @ ''#'' @ r) (TypeInternalUser @ '':'')"
    | i where "HasPrefix (g @ ''#'' @ r) (TypeInternalUserGroup @ '':'')"
        "g @ ''#'' @ r = (TypeInternalUserGroup @ '':'' @ i) @ ''#'' @ RelationMember"
    by (auto simp: permission_metadata_def user_fits_def)
  then show ?thesis
  proof cases
    case 1
    then have "HasPrefix g (TypeInternalUser @ '':'')" by (rule prefix_userset) (simp add: TypeInternalUser_def)
    with check check_user_object[OF created] show ?thesis by blast
  next
    case 2
    from 2(1) have "HasPrefix g (TypeInternalUserGroup @ '':'')" by (rule prefix_userset) (simp add: TypeInternalUserGroup_def)
    then have g: "object_type g = TypeInternalUserGroup" using subject_types_colon_free(2) by (rule object_type_prefix)
    from 2(2) have "r = RelationMember \<or> (\<exists>x. r = x @ ''#'' @ RelationMember)"
      by (rule userset_user_split[THEN disj_forward]) (auto simp: RelationMember_def)
    with check_group_relation[OF created check g] g show ?thesis
      by (auto simp: RelationMember_def RelationAssignee_def append_eq_Cons_conv)
  qed
qed

text \<open>A usable parent tuple: the object's type declares the parent's type, and both are told by the objects' names.\<close>

lemma parent_link_types:
  assumes created: "createExpectedAuthorizationModel en prs = Inr m" "prs \<noteq> []" "reserved_free prs" and colon: "colon_free prs"
    and link: "parent_link m S obj obj'"
  obtains spec where "object_type obj \<in> reachable_types prs - {TypeRoot}"
    and "registered (sort_protected_resources prs) (object_type obj) = Some spec"
    and "object_type obj' \<in> set (fqParentResources spec)" and "has_parents prs (object_type obj)"
proof -
  from link obtain t where t: "t \<in> usable m S" "tk_Object t = obj" "tk_Relation t = RelationParent" "tk_User t = obj'"
    by (auto simp: parent_link_def)
  from t(1) obtain td rw ref where td: "td \<in> set (am_TypeDefinitions m)" "td_Type td = object_type obj"
      "map_of (td_Relations td) RelationParent = Some rw"
    and ref: "ref \<in> set (refs td RelationParent)" "user_fits ref obj'"
    by (rule usable_typed) (use t in auto)
  from created(1,2) td(1) show thesis
  proof (cases rule: created_definition_cases)
    case (resource T ps n spec)
    then have T: "T = object_type obj" using td(2) by (simp add: getResourceTypeDefinition_simps)
    have parents: "ParentResources n \<noteq> []"
      using td(3) unfolding resource(2) by (auto simp: getResourceTypeDefinition_relations split: if_splits)
    with ref resource have P: "rr_Type ref \<in> set (fqParentResources spec)" "HasPrefix obj' (rr_Type ref @ '':'')"
      by (auto simp: refs_parent user_fits_def)
    then have "CHR '':'' \<notin> set (rr_Type ref)"
      using registered_active[OF resource(5)] colon by (auto simp: colon_free_def)
    with P have "object_type obj' \<in> set (fqParentResources spec)" by (simp add: object_type_prefix)
    moreover have "has_parents prs T" using resource(1,5,6) parents by (auto simp: has_parents_def)
    ultimately show thesis using that resource(1,5) T by auto
  qed (use td(3) in \<open>auto simp: getUserTypeDefinition_def getUserGroupTypeDefinition_def getRootTypeDefinition_simps
        split: if_splits\<close>)
qed

lemma parent_link_relation:
  assumes created: "createExpectedAuthorizationModel en prs = Inr m" "prs \<noteq> []" "reserved_free prs" and colon: "colon_free prs"
    and link: "parent_link m S obj obj'" and rel: "has_relation m (object_type obj) (hashPermission p)"
    and known: "object_type obj' \<in> td_Type ` set (am_TypeDefinitions m)"
  shows "has_relation m (object_type obj') (hashPermission p)"
proof -
  from created colon link obtain spec where T: "object_type obj \<in> reachable_types prs - {TypeRoot}"
    and spec: "registered (sort_protected_resources prs) (object_type obj) = Some spec" and P: "object_type obj' \<in> set (fqParentResources spec)"
    by (rule parent_link_types)
  from rel obtain td where td: "td \<in> set (am_TypeDefinitions m)" "td_Type td = object_type obj"
      "hashPermission p \<in> fst ` set (td_Relations td)"
    by (auto simp: has_relation_def)
  then have "map_of (td_Relations td) (hashPermission p) \<noteq> None" by (simp add: map_of_eq_None_iff)
  moreover have "td_Type td \<notin> {TypeInternalUser, TypeInternalUserGroup}" using T td(2) reserved_reachable[OF created(3)] by auto
  ultimately obtain q where q: "hashPermission p = hashPermission q" "q \<in> model_permissions prs en (object_type obj)"
    using created_relations[OF created(1,2) td(1), of p] td(2) by (auto split: if_splits)
  have "q \<in> model_permissions prs en (object_type obj')" using model_permissions_parent[OF created(1,2) T spec P] q(2) by blast
  moreover have "object_type obj' \<notin> {TypeInternalUser, TypeInternalUserGroup}"
    using registered_active[OF spec] P created(3) by (auto simp: reserved_free_def)
  moreover from this known have "object_type obj' \<in> insert TypeRoot (reachable_types prs)" using created_type_set[OF created(1,2)] by auto
  ultimately show ?thesis using created_has_relation[OF created(1,2)] q(1) by metis
qed

lemma usable_relation:
  assumes "t \<in> usable m S"
  shows "has_relation m (object_type (tk_Object t)) (tk_Relation t)"
proof -
  from assms obtain td rw where "td \<in> set (am_TypeDefinitions m)" "td_Type td = object_type (tk_Object t)"
    "map_of (td_Relations td) (tk_Relation t) = Some rw" by (rule usable_typed)
  then show ?thesis by (force simp: has_relation_def dest: map_of_SomeD)
qed

lemma granted_typed: "granted m S u r obj \<Longrightarrow> has_relation m (object_type obj) r"
  unfolding granted_def using usable_relation by blast

lemma parent_link_typed: "parent_link m S obj obj' \<Longrightarrow> has_relation m (object_type obj) RelationParent"
  unfolding parent_link_def using usable_relation by metis

lemma has_relation_type: "has_relation m T r \<Longrightarrow> T \<in> td_Type ` set (am_TypeDefinitions m)"
  by (auto simp: has_relation_def)

lemma member_relation_type:
  assumes "createExpectedAuthorizationModel en prs = Inr m" and "prs \<noteq> []" and "has_relation m T RelationMember"
  shows "T = TypeInternalUserGroup"
proof -
  from assms(3) obtain td where td: "td \<in> set (am_TypeDefinitions m)" "td_Type td = T" "map_of (td_Relations td) RelationMember \<noteq> None"
    by (auto simp: has_relation_def map_of_eq_None_iff)
  from assms(1,2) td(1) show ?thesis
    by (cases rule: created_definition_cases)
      (use td(2,3) in \<open>auto simp: getUserTypeDefinition_def getUserGroupTypeDefinition_def getRootTypeDefinition_simps
        getResourceTypeDefinition_relations hashed_not_member[symmetric] split: if_splits\<close>)
qed

text \<open>The rewrite of a permission relation, evaluated on an object.\<close>

lemma check_permission_cases:
  assumes created: "createExpectedAuthorizationModel en prs = Inr m" "prs \<noteq> []" "reserved_free prs"
    and rel: "has_relation m (object_type obj) (hashPermission p)"
  shows "fga_check m S u (hashPermission p) obj \<longleftrightarrow>
    fga_rewrite m S u (if has_parents prs (object_type obj)
      then Userset_Union [Userset_This (Some ()), Userset_TupleToUserset RelationParent (hashPermission p)]
      else Userset_This (Some ())) (hashPermission p) obj" (is "_ \<longleftrightarrow> fga_rewrite m S u ?rw _ _")
proof -
  have *: "map_of (td_Relations td) (hashPermission p) = Some ?rw"
    if "td \<in> set (am_TypeDefinitions m)" "td_Type td = object_type obj" "map_of (td_Relations td) (hashPermission p) = Some rw" for td rw
    using created_relations[OF created(1,2) that(1) hashed_relation_type[OF created that(1,3)], of p] that by (auto split: if_splits)
  from rel obtain td rw where "td \<in> set (am_TypeDefinitions m)" "td_Type td = object_type obj"
      "map_of (td_Relations td) (hashPermission p) = Some rw"
    by (auto simp: has_relation_def) (metis map_of_eq_None_iff not_None_eq fst_conv image_eqI)
  with * show ?thesis by (metis fga_checkE fga_check_fga_rewrite.relation option.inject)
qed

lemma this_permission_iff:
  assumes created: "createExpectedAuthorizationModel en prs = Inr m" "prs \<noteq> []" "reserved_free prs"
  shows "fga_rewrite m S u (Userset_This x) (hashPermission p) obj \<longleftrightarrow> granted m S u (hashPermission p) obj"
proof
  assume "fga_rewrite m S u (Userset_This x) (hashPermission p) obj"
  then show "granted m S u (hashPermission p) obj"
  proof (cases rule: this_cases)
    case (userset t g r)
    then have "r = RelationMember \<and> object_type g = TypeInternalUserGroup" using permission_userset_member[OF created] by blast
    with userset check_member_iff[OF created] show ?thesis by (auto simp: granted_def)
  qed (auto simp: granted_def)
next
  assume "granted m S u (hashPermission p) obj"
  then obtain t where t: "t \<in> usable m S" "tk_Object t = obj" "tk_Relation t = hashPermission p"
    and "tk_User t = u \<or> (\<exists>g. tk_User t = g @ ''#'' @ RelationMember \<and> member_of m S u g)"
    by (auto simp: granted_def)
  then show "fga_rewrite m S u (Userset_This x) (hashPermission p) obj"
  proof (elim disjE exE conjE)
    fix g assume g: "tk_User t = g @ ''#'' @ RelationMember" "member_of m S u g"
    then have "has_relation m (object_type g) RelationMember" unfolding member_of_def using usable_relation by metis
    then have "object_type g = TypeInternalUserGroup" by (rule member_relation_type[OF created(1,2)])
    then have "fga_check m S u RelationMember g" using check_member_iff[OF created] g(2) by simp
    with t g(1) show ?thesis by (auto intro: fga_check_fga_rewrite.userset)
  qed (use t in \<open>auto intro: fga_check_fga_rewrite.direct\<close>)
qed

lemma ttu_cases:
  assumes "fga_rewrite m S u (Userset_TupleToUserset RelationParent r') r obj"
  obtains obj' where "parent_link m S obj obj'" and "fga_check m S u r' obj'"
  using assms by (cases rule: fga_rewrite.cases) (auto simp: parent_link_def)

lemma check_permission_step:
  assumes created: "createExpectedAuthorizationModel en prs = Inr m" "prs \<noteq> []" "reserved_free prs" and colon: "colon_free prs"
    and rel: "has_relation m (object_type obj) (hashPermission p)"
  shows "fga_check m S u (hashPermission p) obj \<longleftrightarrow>
    granted m S u (hashPermission p) obj \<or> (\<exists>obj'. parent_link m S obj obj' \<and> fga_check m S u (hashPermission p) obj')" (is "?check \<longleftrightarrow> ?r")
proof
  let ?ttu = "Userset_TupleToUserset RelationParent (hashPermission p)"
  assume ?check
  then have "fga_rewrite m S u (Userset_This (Some ())) (hashPermission p) obj \<or> fga_rewrite m S u ?ttu (hashPermission p) obj"
    unfolding check_permission_cases[OF created rel] by (auto split: if_splits elim: fga_rewrite.cases)
  then show ?r unfolding this_permission_iff[OF created] by (auto elim: ttu_cases)
next
  assume ?r
  then show ?check
  proof
    assume "granted m S u (hashPermission p) obj"
    then show ?check unfolding check_permission_cases[OF created rel]
      by (auto simp: this_permission_iff[OF created] intro: fga_check_fga_rewrite.union)
  next
    assume "\<exists>obj'. parent_link m S obj obj' \<and> fga_check m S u (hashPermission p) obj'"
    then obtain obj' where link: "parent_link m S obj obj'" and "fga_check m S u (hashPermission p) obj'" by blast
    then have "fga_rewrite m S u (Userset_TupleToUserset RelationParent (hashPermission p)) (hashPermission p) obj"
      by (auto simp: parent_link_def intro: fga_check_fga_rewrite.tuple_to_userset)
    moreover have "has_parents prs (object_type obj)" using created colon link by (rule parent_link_types)
    ultimately show ?check unfolding check_permission_cases[OF created rel]
      by (auto intro: fga_check_fga_rewrite.union)
  qed
qed

text \<open>The rewrites that a permission relation of a created model is made of.\<close>

definition permission_rewrites :: "string \<Rightarrow> Userset set" where
  "permission_rewrites r = (let leaves = {Userset_This (Some ()), Userset_TupleToUserset RelationParent r}
     in leaves \<union> {Userset_Union us | us. set us \<subseteq> leaves})"

lemma check_reaches_grant:
  assumes created: "createExpectedAuthorizationModel en prs = Inr m" "prs \<noteq> []" "reserved_free prs"
  shows "fga_check m S u r obj \<Longrightarrow> r = hashPermission p \<Longrightarrow>
      \<exists>obj'. (parent_link m S)\<^sup>*\<^sup>* obj obj' \<and> granted m S u r obj'"
    and "fga_rewrite m S u rw r obj \<Longrightarrow> r = hashPermission p \<Longrightarrow> rw \<in> permission_rewrites r \<Longrightarrow>
      \<exists>obj'. (parent_link m S)\<^sup>*\<^sup>* obj obj' \<and> granted m S u r obj'"
proof (induction rule: fga_check_fga_rewrite.inducts)
  case (relation td obj r rw)
  then have "rw \<in> permission_rewrites r"
    using created_relations[OF created(1,2) relation(1) hashed_relation_type[OF created relation(1)], of p rw p]
    by (auto simp: permission_rewrites_def Let_def split: if_splits)
  with relation show ?case by blast
next
  case (direct t r obj x)
  then have "granted m S u r obj" by (auto simp: granted_def)
  then show ?case by blast
next
  case (userset t obj' r' r obj x)
  then have "fga_rewrite m S u (Userset_This x) r obj" by (auto intro: fga_check_fga_rewrite.userset)
  then show ?case using userset.prems this_permission_iff[OF created] by blast
next
  case (tuple_to_userset t ts obj r' r)
  then have "ts = RelationParent" "r' = r" by (auto simp: permission_rewrites_def Let_def)
  with tuple_to_userset obtain obj' where "(parent_link m S)\<^sup>*\<^sup>* (tk_User t) obj'" "granted m S u r obj'" by blast
  moreover have "parent_link m S obj (tk_User t)"
    using tuple_to_userset \<open>ts = RelationParent\<close> unfolding parent_link_def by blast
  ultimately show ?case by (meson converse_rtranclp_into_rtranclp)
next
  case (union rw us r obj)
  then have "rw \<in> permission_rewrites r" by (auto simp: permission_rewrites_def Let_def)
  with union show ?case by blast
qed (auto simp: permission_rewrites_def Let_def)

text \<open>
  The closed form: a user has a permission on an object exactly when the object's type has
  the permission and a tuple grants it, to the user or a group of the user, on the object or
  on one that its parents lead to.
\<close>

lemma check_permission_iff:
  assumes created: "createExpectedAuthorizationModel en prs = Inr m" "prs \<noteq> []" "reserved_free prs" and colon: "colon_free prs"
  shows "fga_check m S u (hashPermission p) obj \<longleftrightarrow> has_relation m (object_type obj) (hashPermission p) \<and>
    (\<exists>obj'. (parent_link m S)\<^sup>*\<^sup>* obj obj' \<and> granted m S u (hashPermission p) obj')"
proof
  assume check: "fga_check m S u (hashPermission p) obj"
  then have "has_relation m (object_type obj) (hashPermission p)"
    by (auto simp: has_relation_def elim!: fga_checkE dest!: map_of_SomeD) (metis fst_conv imageI)
  with check_reaches_grant(1)[OF created check refl] show "has_relation m (object_type obj) (hashPermission p) \<and>
    (\<exists>obj'. (parent_link m S)\<^sup>*\<^sup>* obj obj' \<and> granted m S u (hashPermission p) obj')" by blast
next
  assume "has_relation m (object_type obj) (hashPermission p) \<and>
    (\<exists>obj'. (parent_link m S)\<^sup>*\<^sup>* obj obj' \<and> granted m S u (hashPermission p) obj')"
  then obtain obj' where "(parent_link m S)\<^sup>*\<^sup>* obj obj'" "granted m S u (hashPermission p) obj'"
    and "has_relation m (object_type obj) (hashPermission p)" by blast
  then show "fga_check m S u (hashPermission p) obj"
  proof (induction rule: converse_rtranclp_induct)
    case base
    then show ?case using check_permission_step[OF created colon] by blast
  next
    case (step obj obj1)
    have "object_type obj1 \<in> td_Type ` set (am_TypeDefinitions m)"
      using step.hyps(2) step.prems(1) has_relation_type granted_typed parent_link_typed by (metis converse_rtranclpE)
    then have "has_relation m (object_type obj1) (hashPermission p)"
      using parent_link_relation[OF created colon step.hyps(1) step.prems(2)] by blast
    with step show ?case using check_permission_step[OF created colon] by blast
  qed
qed

end
