(* ===== verification/Access.thy ===== *)
theory Access
  imports Check_Semantics
begin

text \<open>
  The controllers and the webhook together: what the stored tuples are once every
  PolicyBinding has been reconciled, and what this means for the requests the webhook
  answers. The lemmas combine the effect of \<open>ReconcilePolicy\<close> with the closed form of
  a Check on a created model.
\<close>

section \<open>Reconciling all bindings\<close>

text \<open>The controller works through the bindings one by one; a failed reconcile is retried, so the run ends when each one has succeeded.\<close>

fun reconcile_all :: "('w, 'z) PolicyReconciler_scheme \<Rightarrow> PolicyBinding list \<Rightarrow> 'w \<Rightarrow> 'w option" where
  "reconcile_all r [] w = Some w"
| "reconcile_all r (b # bs) w = (case ReconcilePolicy r b w of Some (Inr _, w') \<Rightarrow> reconcile_all r bs w' | _ \<Rightarrow> None)"

text \<open>Roles do not change during the run, and the index by target lists the bindings of the cluster.\<close>

definition reads_fixed :: "('w, 'z) PolicyReconciler_scheme \<Rightarrow> PolicyBinding list \<Rightarrow> bool" where
  "reads_fixed r bs \<longleftrightarrow>
     (\<forall>ns n w w'. GetRole (pol_K8sClient r) ns n w = GetRole (pol_K8sClient r) ns n w') \<and>
     (\<forall>target w items. ListPolicyBindingsByTarget (pol_K8sClient r) target w = Inr items \<longrightarrow>
        set items \<subseteq> {b \<in> set bs. TargetObjectFromResourceSelector (pb_ResourceSelector b) = Inr target})"

definition role_permissions :: "Role \<Rightarrow> string set" where
  "role_permissions role =
     set (if role_EffectivePermissions role = [] then role_IncludedPermissions role else role_EffectivePermissions role)"

text \<open>A live binding on the tuple's object, to a role with a permission of the tuple's relation, for a subject that is the tuple's user.\<close>

definition called_for :: "('w, 'z) PolicyReconciler_scheme \<Rightarrow> PolicyBinding list \<Rightarrow> 'w \<Rightarrow> TupleKey \<Rightarrow> bool" where
  "called_for r bs w t \<longleftrightarrow> (\<exists>b \<in> set bs. \<not> pb_DeletionTimestamp b \<and>
     TargetObjectFromResourceSelector (pb_ResourceSelector b) = Inr (tk_Object t) \<and> tk_User t \<in> binding_users b \<and>
     (\<exists>role q. fetchRole r b w = Inr role \<and> q \<in> role_permissions role \<and> tk_Relation t = hashPermission q))"

text \<open>The tuples that a reconcile of the binding compares with what it wants.\<close>

definition concerns :: "PolicyBinding \<Rightarrow> TupleKey \<Rightarrow> bool" where
  "concerns b t \<longleftrightarrow> TargetObjectFromResourceSelector (pb_ResourceSelector b) = Inr (tk_Object t) \<and> tk_User t \<in> binding_users b"

lemma fetchRole_fixed:
  assumes "reads_fixed r bs"
  shows "fetchRole r b w = fetchRole r b w'"
proof -
  have "GetRole (pol_K8sClient r) ns n w = GetRole (pol_K8sClient r) ns n w'" for ns n using assms unfolding reads_fixed_def by blast
  then show ?thesis by (simp add: fetchRole_def Let_def)
qed

lemma called_for_fixed: "reads_fixed r bs \<Longrightarrow> called_for r bs w t \<longleftrightarrow> called_for r bs w' t"
  using fetchRole_fixed[of r bs _ w w'] by (simp add: called_for_def)

lemma role_grants_permissions: "role_grants en valid role \<subseteq> role_permissions role"
  by (auto simp: role_grants_def role_permissions_def granted_permissions_def)

lemma desired_called_for:
  assumes "buildPermissionTuples r b role target valid = Inr ts" and "t \<in> set ts" and "fetchRole r b w = Inr role" and "b \<in> set bs"
    and "\<not> pb_DeletionTimestamp b" and "TargetObjectFromResourceSelector (pb_ResourceSelector b) = Inr target"
  shows "called_for r bs w t"
proof -
  from assms(1,2) obtain u q where "u \<in> binding_users b" "q \<in> role_grants (pol_EnableSubresourceAuthorization r) valid role"
    "t = permission_tuple u target q" by (auto simp: buildPermissionTuples_set)
  moreover from this have "q \<in> role_permissions role" using role_grants_permissions by blast
  ultimately show ?thesis using assms(3-6) unfolding called_for_def permission_tuple_def by (intro bexI[of _ b]) auto
qed

lemma sibling_called_for:
  assumes "siblingDesiredTuples r b target valid w = Inr sib" and "t \<in> set sib" and fixed: "reads_fixed r bs"
  shows "called_for r bs w t \<and> tk_Object t = target \<and> tk_Condition t = None"
proof -
  from assms(1) obtain items where items: "ListPolicyBindingsByTarget (pol_K8sClient r) target w = Inr items"
    and loop: "sibling_loop r b target valid w items = Inr sib" by (auto simp: siblingDesiredTuples_def go_calls)
  from assms(2) obtain other where other: "other \<in> set items" "overlapping b other" "t \<in> wanted_by r other target valid w"
    by (auto simp: sibling_loop_set[OF loop])
  then obtain role ts where "fetchRole r other w = Inr role" "buildPermissionTuples r other role target valid = Inr ts" "t \<in> set ts"
    by (auto simp: wanted_by_def split: sum.splits)
  moreover have "other \<in> set bs" "TargetObjectFromResourceSelector (pb_ResourceSelector other) = Inr target"
    using fixed items other(1) unfolding reads_fixed_def by blast+
  ultimately show ?thesis
    using desired_called_for other(2) buildPermissionTuples_fields unfolding overlapping_def by metis
qed

lemma tuple_string_inject:
  assumes "tuple_string t = tuple_string t'" and "tk_Object t = tk_Object t'" and "length (tk_Relation t) = length (tk_Relation t')"
    and "tk_Condition t = tk_Condition t'"
  shows "t = t'"
  using assms by (cases t; cases t') (simp add: tuple_string_def)

text \<open>After a reconcile, no tuple that concerns the binding is left without a binding that calls for it.\<close>

lemma ReconcilePolicy_leaves_called_for:
  assumes service: "policy_service r stored listing position" "unconditional (stored w)" and fixed: "reads_fixed r bs"
    and b: "b \<in> set bs" "\<not> pb_DeletionTimestamp b" and run: "ReconcilePolicy r b w = Some (Inr (), w')"
    and t: "t \<in> stored w'" "tk_Relation t = hashPermission p"
  shows "called_for r bs w t \<or> t \<in> stored w \<and> \<not> concerns b t"
proof -
  have "reconcilePolicy r b w = Some (Inr (), w')" using run by (auto simp: ReconcilePolicy_def go_calls)
  from service this obtain target valid role desired
    where target: "TargetObjectFromResourceSelector (pb_ResourceSelector b) = Inr target" and role: "fetchRole r b w = Inr role"
      and built: "buildPermissionTuples r b role target valid = Inr desired"
      and eff: "if owned (stored w) b target \<subseteq> set desired then stored w' = stored w \<union> set desired
        else \<exists>sib. siblingDesiredTuples r b target valid w = Inr sib \<and>
          stored w' = (stored w - {t \<in> owned (stored w) b target - set desired. tuple_string t \<notin> tuple_string ` set sib}) \<union> set desired"
    by (rule reconcilePolicy_effect)
  have desired: "called_for r bs w t" if "t \<in> set desired" using built that role b target by (rule desired_called_for)
  show ?thesis
  proof (cases "t \<in> set desired \<or> \<not> concerns b t")
    case True
    with desired eff t(1) show ?thesis by (auto split: if_splits)
  next
    case False
    then have obj: "tk_Object t = target" and "tk_User t \<in> binding_users b" using target by (auto simp: concerns_def)
    from False eff t(1) have stored: "t \<in> stored w" by (auto split: if_splits)
    then have own: "t \<in> owned (stored w) b target - set desired" using False obj \<open>tk_User t \<in> _\<close> by (auto simp: owned_def)
    then have "\<not> owned (stored w) b target \<subseteq> set desired" by blast
    with eff obtain sib where sib: "siblingDesiredTuples r b target valid w = Inr sib"
      and "stored w' = (stored w - {t \<in> owned (stored w) b target - set desired. tuple_string t \<notin> tuple_string ` set sib}) \<union> set desired"
      by auto
    with own t(1) obtain t' where string: "t' \<in> set sib" "tuple_string t = tuple_string t'" by auto
    note t' = sibling_called_for[OF sib string(1) fixed]
    then obtain q where "tk_Relation t' = hashPermission q" by (auto simp: called_for_def)
    then have "t = t'"
      using tuple_string_inject[OF string(2)] t' obj t(2) stored service(2) by (simp add: length_hashPermission unconditional_def)
    with t' show ?thesis by blast
  qed
qed

lemma ReconcilePolicy_unconditional:
  assumes "policy_service r stored listing position" "unconditional (stored w)" and "ReconcilePolicy r b w = Some (Inr (), w')"
  shows "unconditional (stored w')"
proof -
  have "reconcilePolicy r b w = Some (Inr (), w')" using assms(3) by (auto simp: ReconcilePolicy_def go_calls)
  from assms(1,2) this obtain target valid role desired where built: "buildPermissionTuples r b role target valid = Inr desired"
    and eff: "if owned (stored w) b target \<subseteq> set desired then stored w' = stored w \<union> set desired
        else \<exists>sib. siblingDesiredTuples r b target valid w = Inr sib \<and>
          stored w' = (stored w - {t \<in> owned (stored w) b target - set desired. tuple_string t \<notin> tuple_string ` set sib}) \<union> set desired"
    by (rule reconcilePolicy_effect)
  from eff have "stored w' \<subseteq> stored w \<union> set desired" by (cases "owned (stored w) b target \<subseteq> set desired") auto
  with buildPermissionTuples_fields[OF built] assms(2) show ?thesis by (auto simp: unconditional_def)
qed

text \<open>When the tuples of deleted bindings are gone at the start, every tuple at the end is called for.\<close>

lemma reconcile_all_called_for:
  assumes "policy_service r stored listing position" and "reads_fixed r bs" and "\<forall>b \<in> set bs. \<not> pb_DeletionTimestamp b"
  shows "reconcile_all r todo w = Some w' \<Longrightarrow> unconditional (stored w) \<Longrightarrow> set todo \<subseteq> set bs \<Longrightarrow>
    \<forall>t \<in> stored w. \<forall>p. tk_Relation t = hashPermission p \<longrightarrow> called_for r bs w t \<or> (\<exists>b \<in> set todo. concerns b t) \<Longrightarrow>
    t \<in> stored w' \<Longrightarrow> tk_Relation t = hashPermission p \<Longrightarrow> called_for r bs w' t"
proof (induction todo arbitrary: w)
  case (Cons b todo)
  from Cons.prems(1) obtain w1 where w1: "ReconcilePolicy r b w = Some (Inr (), w1)" "reconcile_all r todo w1 = Some w'"
    by (auto split: option.splits prod.splits sum.splits)
  have b: "b \<in> set bs" "\<not> pb_DeletionTimestamp b" using Cons.prems(3) assms(3) by auto
  have "called_for r bs w1 t \<or> (\<exists>b \<in> set todo. concerns b t)" if "t \<in> stored w1" "tk_Relation t = hashPermission p" for t p
    using ReconcilePolicy_leaves_called_for[OF assms(1) Cons.prems(2) assms(2) b w1(1) that] Cons.prems(4) that(2)
      called_for_fixed[OF assms(2), of w1 t w] by auto
  moreover have "unconditional (stored w1)" using assms(1) Cons.prems(2) w1(1) by (rule ReconcilePolicy_unconditional)
  ultimately show ?case using Cons.IH[OF w1(2)] Cons.prems(3,5,6) by simp
qed auto

section \<open>Requests\<close>

text \<open>The documented behaviour of the service: the checks of the authorizer are evaluated on the model in effect and the stored tuples.\<close>

definition evaluates ::
    "('w, 'z) SubjectAccessReviewAuthorizer_scheme \<Rightarrow> (string \<Rightarrow> string \<Rightarrow> CheckRequestTupleKey \<Rightarrow> 'w \<Rightarrow> bool) \<Rightarrow>
     AuthorizationModel \<Rightarrow> ('w \<Rightarrow> TupleKey set) \<Rightarrow> 'w \<Rightarrow> bool" where
  "evaluates o' allowed m stored w \<longleftrightarrow> (\<forall>k. allowed (FGAStoreID o') (request_model o') k w \<longleftrightarrow>
     fga_check m (stored w) (check_User k) (check_Relation k) (check_Object k))"

text \<open>The user with the given UID is the subject of a binding, or a member of the group that is.\<close>

definition stands_for :: "AuthorizationModel \<Rightarrow> TupleKey set \<Rightarrow> string \<Rightarrow> Subject \<Rightarrow> bool" where
  "stands_for m S uid s \<longleftrightarrow>
     subject_Kind s = ''User'' \<and> uid = subject_Name s \<or>
     subject_Kind s = ''ServiceAccount'' \<and> uid = subject_UID s \<or>
     subject_Kind s = ''Group'' \<and> member_of m S (TypeInternalUser @ '':'' @ uid)
       (TypeInternalUserGroup @ '':'' @ (if HasPrefix (subject_Name s) ''system:''
          then ReplaceAll (subject_Name s) (CHR '':'') (CHR ''_'') else subject_UID s))"

lemma not_member_of_user:
  assumes "createExpectedAuthorizationModel en prs = Inr m" and "prs \<noteq> []"
    and "TypeInternalUser @ '':'' @ x = g @ ''#'' @ RelationMember"
  shows "\<not> member_of m S u g"
proof
  assume "member_of m S u g"
  then have "has_relation m (object_type g) RelationMember" unfolding member_of_def using usable_relation by metis
  then have "object_type g = TypeInternalUserGroup" by (rule member_relation_type[OF assms(1,2)])
  moreover have "HasPrefix ((TypeInternalUser @ '':'') @ x) (TypeInternalUser @ '':'')" by (rule HasPrefix_append)
  then have "HasPrefix (g @ ''#'' @ RelationMember) (TypeInternalUser @ '':'')" using assms(3) by simp
  then have "HasPrefix g (TypeInternalUser @ '':'')" by (rule prefix_userset) (simp add: TypeInternalUser_def)
  then have "object_type g = TypeInternalUser" using subject_types_colon_free(1) by (rule object_type_prefix)
  ultimately show False by simp
qed

lemma stands_for_iff:
  assumes "createExpectedAuthorizationModel en prs = Inr m" and "prs \<noteq> []" and "getTupleUser s = Inr tu"
  shows "tu = TypeInternalUser @ '':'' @ uid \<or> (\<exists>g. tu = g @ ''#'' @ RelationMember \<and> member_of m S (TypeInternalUser @ '':'' @ uid) g)
    \<longleftrightarrow> stands_for m S uid s"
proof -
  let ?u = "TypeInternalUser @ '':'' @ uid"
  consider (user) x where "tu = TypeInternalUser @ '':'' @ x" "stands_for m S uid s \<longleftrightarrow> uid = x"
    | (grp) x where "tu = TypeInternalUserGroup @ '':'' @ x @ ''#'' @ RelationMember"
        "stands_for m S uid s \<longleftrightarrow> member_of m S ?u (TypeInternalUserGroup @ '':'' @ x)"
    using assms(3) by (auto simp: getTupleUser_def stands_for_def RelationMember_def split: if_splits)
  then show ?thesis
  proof cases
    case user
    then show ?thesis using not_member_of_user[OF assms(1,2), of x] by auto
  next
    case grp
    have "g = TypeInternalUserGroup @ '':'' @ x" if "tu = g @ ''#'' @ RelationMember" for g using that grp(1) by simp
    moreover have "tu \<noteq> ?u" using grp(1) by (simp add: TypeInternalUser_def TypeInternalUserGroup_def)
    ultimately show ?thesis using grp by auto
  qed
qed

text \<open>A decision of the webhook, in terms of the stored tuples.\<close>

lemma Authorize_allow_grants:
  assumes created: "createExpectedAuthorizationModel en prs = Inr m" "prs \<noteq> []" "reserved_free prs" "colon_free prs"
    and "batch_answers o' allowed w" and "evaluates o' allowed m stored w"
  shows "fst (Authorize o' attributes w) = DecisionAllow \<longleftrightarrow>
    (\<exists>pr. admissible o' pr attributes \<and> (\<exists>obj \<in> checked_objects o' pr attributes.
       has_relation m (object_type obj) (HashPermission (buildPermissionString o' attributes)) \<and>
       (\<exists>obj'. (parent_link m (stored w))\<^sup>*\<^sup>* obj obj' \<and>
          granted m (stored w) (TypeInternalUser @ '':'' @ user_UID (GetUser attributes))
            (HashPermission (buildPermissionString o' attributes)) obj')))"
proof -
  have "allowed (FGAStoreID o') (request_model o') (request_key o' attributes obj) w \<longleftrightarrow>
      fga_check m (stored w) (TypeInternalUser @ '':'' @ user_UID (GetUser attributes))
        (HashPermission (buildPermissionString o' attributes)) obj" for obj
    using assms(6) by (simp add: evaluates_def request_key_def TypeInternalUser_def)
  then show ?thesis unfolding Authorize_allow_checks[OF assms(5)] HashPermission_def check_permission_iff[OF created] by blast
qed

text \<open>The tuples of the hierarchy controller and of the membership controllers fit a created model as well.\<close>

lemma parent_tuple_accepted:
  assumes created: "createExpectedAuthorizationModel en prs = Inr m" "prs \<noteq> []" "reserved_free prs" "colon_free prs"
    and T: "T \<in> reachable_types prs - {TypeRoot}" and spec: "registered (sort_protected_resources prs) T = Some spec"
    and P: "P \<in> set (fqParentResources spec)"
  shows "accepts m \<lparr>tk_User = P @ '':'' @ x, tk_Relation = RelationParent, tk_Object = T @ '':'' @ y, tk_Condition = None\<rparr>"
proof -
  have "T \<in> td_Type ` set (am_TypeDefinitions m)" using T created_type_set[OF created(1,2)] by auto
  then obtain td where td: "td \<in> set (am_TypeDefinitions m)" "td_Type td = T" by blast
  have "CHR '':'' \<notin> set T" using registered_active[OF spec] created(4) by (auto simp: colon_free_def)
  moreover from created(1,2) td(1) have "\<exists>rw ref. map_of (td_Relations td) RelationParent = Some rw \<and> assignable rw \<and>
      ref \<in> set (refs td RelationParent) \<and> user_fits ref (P @ '':'' @ x)"
  proof (cases rule: created_definition_cases)
    case (resource T' ps n spec')
    then have n: "ParentResources n = sort (fqParentResources spec)" using td(2) spec by (auto simp: getResourceTypeDefinition_simps)
    then have ne: "ParentResources n \<noteq> []" using P by (auto simp flip: set_empty)
    have "HasPrefix ((P @ '':'') @ x) (P @ '':'')" by (rule HasPrefix_append)
    then have "user_fits \<lparr>rr_Type = P, rr_Relation = None\<rparr> (P @ '':'' @ x)" by (simp add: user_fits_def)
    with ne n P show ?thesis unfolding resource(2)
      by (intro exI[of _ "Userset_This None"] exI[of _ "\<lparr>rr_Type = P, rr_Relation = None\<rparr>"])
        (auto simp: getResourceTypeDefinition_relations refs_parent)
  qed (use T td(2) reserved_reachable[OF created(3), of T] in \<open>auto simp: getUserTypeDefinition_def getUserGroupTypeDefinition_def getRootTypeDefinition_simps\<close>)
  ultimately show ?thesis using td unfolding accepts_def by (auto simp: Cut_append)
qed

lemma member_tuple_accepted:
  assumes "createExpectedAuthorizationModel en prs = Inr m"
  shows "accepts m \<lparr>tk_User = TypeInternalUser @ '':'' @ x, tk_Relation = RelationMember,
    tk_Object = TypeInternalUserGroup @ '':'' @ y, tk_Condition = None\<rparr>"
proof -
  have "HasPrefix ((TypeInternalUser @ '':'') @ x) (TypeInternalUser @ '':'')" by (rule HasPrefix_append)
  then have "user_fits \<lparr>rr_Type = TypeInternalUser, rr_Relation = None\<rparr> (TypeInternalUser @ '':'' @ x)" by (simp add: user_fits_def)
  then show ?thesis
    using created_subject_types(2)[OF assms] subject_types_colon_free(2) unfolding accepts_def
    by (simp add: Cut_append) (rule bexI[rotated], assumption, simp add: getUserGroupTypeDefinition_def refs_def)
qed

text \<open>A tuple that the policy reconciler stores for a binding on a type of the model is usable.\<close>

lemma desired_usable:
  assumes created: "createExpectedAuthorizationModel (pol_EnableSubresourceAuthorization r) prs = Inr m" "prs \<noteq> []" "reserved_free prs" "colon_free prs"
    and "one_per_type prs" and "ListProtectedResources (pol_K8sClient r) w = Inr prs"
    and valid: "getHierarchicalPermissionsForSelector r (pb_ResourceSelector b) w = Inr valid" "pol_EnableSubresourceAuthorization r \<or> valid \<noteq> {}"
    and ty: "selector_type (pb_ResourceSelector b) \<in> insert TypeRoot (reachable_types prs)"
    and target: "TargetObjectFromResourceSelector (pb_ResourceSelector b) = Inr target"
    and u: "u \<in> binding_users b" and p: "p \<in> role_grants (pol_EnableSubresourceAuthorization r) valid role"
    and stored: "permission_tuple u target p \<in> S"
  shows "permission_tuple u target p \<in> usable m S"
proof -
  let ?en = "pol_EnableSubresourceAuthorization r" and ?T = "selector_type (pb_ResourceSelector b)"
  have "valid \<subseteq> model_permissions prs ?en ?T"
    using created(1,2) assms(5,6) valid(1) ty by (rule valid_permissions_in_model)
  moreover have "role_grants ?en valid role \<subseteq> valid" using valid(2) by (auto simp: role_grants_def granted_permissions_def)
  moreover obtain x where "target = ?T @ '':'' @ x"
    using target by (auto simp: TargetObjectFromResourceSelector_def selector_type_def ObjectName_def split: option.splits)
  moreover have "CHR '':'' \<notin> set ?T"
    using ty subject_types_colon_free(3) reachable_registered[of ?T prs] created(4) by (fastforce simp: colon_free_def)
  ultimately have "accepts m (permission_tuple u target p)"
    using created_accepts[OF created(1-3) ty] binding_user_fits[OF u] p by blast
  with stored show ?thesis by (simp add: usable_def permission_tuple_def)
qed

end
