(* ===== verification/Role_Inheritance.thy ===== *)
theory Role_Inheritance
  imports Api_Types
begin

text \<open>
  Inheritance between Roles: \<open>role_inheritance.go\<close> (which Roles depend on a changed
  one) and the effective permissions of \<open>role_controller.go\<close>. A lookup of a Role is a
  function from namespace and name to a result, a consistent view of the cluster; the
  lists of the API are lists. Both traversals are loops over a graph that may have
  cycles, so they are partial functions whose \<open>None\<close> is not returning, and the
  theorems state that they return.
\<close>

section \<open>Model\<close>

type_synonym ObjectKey = "string \<times> string"
type_synonym 'z role_lookup = "string \<Rightarrow> string \<Rightarrow> ('z Role_scheme) result"

definition role_key :: "'z Role_scheme \<Rightarrow> ObjectKey" where
  "role_key r = (role_Namespace r, role_Name r)"

text \<open>An inherited reference without a namespace means the namespace of the referring Role.\<close>

definition ref_namespace :: "string \<Rightarrow> RoleReference \<Rightarrow> string" where
  "ref_namespace ns ref = (if roleRef_Namespace ref \<noteq> [] then roleRef_Namespace ref else ns)"

subsection \<open>role\_inheritance.go\<close>

text \<open>\<open>reverse[parent]\<close> holds the Roles that directly inherit \<open>parent\<close>.\<close>

definition add_reverse :: "'z Role_scheme \<Rightarrow> (ObjectKey \<Rightarrow> ObjectKey list) \<Rightarrow> ObjectKey \<Rightarrow> ObjectKey list" where
  "add_reverse child =
     fold (\<lambda>ref reverse. let parentKey = (ref_namespace (role_Namespace child) ref, roleRef_Name ref)
                         in reverse(parentKey := reverse parentKey @ [role_key child]))
       (role_InheritedRoles child)"

definition reverse_inheritance :: "'z Role_scheme list \<Rightarrow> ObjectKey \<Rightarrow> ObjectKey list" where
  "reverse_inheritance roles = fold add_reverse roles (\<lambda>_. [])"

text \<open>The inner loop: the children not seen yet, appended to the dependents and to the queue.\<close>

fun visit_children :: "ObjectKey list \<Rightarrow> ObjectKey list \<Rightarrow> ObjectKey list \<Rightarrow> ObjectKey list \<times> ObjectKey list" where
  "visit_children [] dependents queue = (dependents, queue)"
| "visit_children (childKey # ks) dependents queue =
     (if childKey \<notin> set dependents then visit_children ks (dependents @ [childKey]) (queue @ [childKey])
      else visit_children ks dependents queue)"

partial_function (option) dependents_loop ::
    "(ObjectKey \<Rightarrow> ObjectKey list) \<Rightarrow> ObjectKey list \<Rightarrow> ObjectKey list \<Rightarrow> ObjectKey list option" where
  "dependents_loop reverse dependents queue =
     (case queue of
        [] \<Rightarrow> Some dependents
      | current # rest \<Rightarrow>
          (case visit_children (reverse current) dependents rest of
             (dependents, queue) \<Rightarrow> dependents_loop reverse dependents queue))"

definition rolesDependentOnRole :: "'z Role_scheme list result \<Rightarrow> ObjectKey \<Rightarrow> ObjectKey list result option" where
  "rolesDependentOnRole List_Roles changed =
     (case List_Roles of
        Inl err \<Rightarrow> Some (Inl err)
      | Inr roleList \<Rightarrow> map_option Inr (dependents_loop (reverse_inheritance roleList) [changed] [changed]))"

subsection \<open>Effective permissions\<close>

record unresolvedInheritedRole =
  ur_Namespace :: string
  ur_Name :: string

definition unresolved_String :: "unresolvedInheritedRole \<Rightarrow> string" where
  "unresolved_String u = ur_Namespace u @ ''/'' @ ur_Name u"

fun first_seen :: "'a list \<Rightarrow> 'a set \<Rightarrow> 'a list" where
  "first_seen [] seen = []"
| "first_seen (x # xs) seen = (if x \<in> seen then first_seen xs seen else x # first_seen xs (insert x seen))"

definition dedupeUnresolved :: "unresolvedInheritedRole list \<Rightarrow> unresolvedInheritedRole list" where
  "dedupeUnresolved refs =
     (if length refs = 0 then [] else sort_key (\<lambda>u. (ur_Namespace u, ur_Name u)) (first_seen refs {}))"

definition roleIdentifier :: "'z Role_scheme \<Rightarrow> string" where
  "roleIdentifier role = role_Namespace role @ ''/'' @ role_Name role"

text \<open>
  The loop over the inherited references of one Role, with the recursive call on an
  inherited Role in place (\<open>effective_loop_Cons\<close> below folds it). The map
  \<open>visited\<close> is shared by all calls, so it is threaded through; \<open>permissionSet\<close> is a
  list without duplicates.
\<close>

partial_function (option) effective_loop ::
    "'z role_lookup \<Rightarrow> string \<Rightarrow> RoleReference list \<Rightarrow> string list \<Rightarrow> string list \<Rightarrow> unresolvedInheritedRole list \<Rightarrow>
     (string list \<times> unresolvedInheritedRole list \<times> string list) result option" where
  "effective_loop Get ns refs visited permissionSet unresolved =
     (case refs of
        [] \<Rightarrow> Some (Inr (permissionSet, unresolved, visited))
      | ref # rest \<Rightarrow>
          (let namespace = ref_namespace ns ref in
           case Get namespace (roleRef_Name ref) of
             Inl err \<Rightarrow>
               if IsNotFound err
               then effective_loop Get ns rest visited permissionSet
                      (unresolved @ [\<lparr>ur_Namespace = namespace, ur_Name = roleRef_Name ref\<rparr>])
               else Some (Inl (WrapError (''failed to get inherited role '' @ namespace @ ''/'' @ roleRef_Name ref) err))
           | Inr inheritedRole \<Rightarrow>
               if roleIdentifier inheritedRole \<in> set visited
               then effective_loop Get ns rest visited permissionSet unresolved
               else Option.bind (effective_loop Get (role_Namespace inheritedRole) (role_InheritedRoles inheritedRole)
                            (roleIdentifier inheritedRole # visited) (remdups (role_IncludedPermissions inheritedRole)) [])
                 (\<lambda>r. case r of
                     Inl err \<Rightarrow> Some (Inl err)
                   | Inr (inheritedPerms, inheritedUnresolved, visited') \<Rightarrow>
                       effective_loop Get ns rest visited' (List.union inheritedPerms permissionSet)
                         (unresolved @ dedupeUnresolved inheritedUnresolved))))"

definition getAllEffectivePermissions ::
    "'z role_lookup \<Rightarrow> 'z Role_scheme \<Rightarrow> string list \<Rightarrow> (string list \<times> unresolvedInheritedRole list \<times> string list) result option" where
  "getAllEffectivePermissions Get role visited =
     (if roleIdentifier role \<in> set visited then Some (Inr ([], [], visited))
      else (case effective_loop Get (role_Namespace role) (role_InheritedRoles role) (roleIdentifier role # visited)
                   (remdups (role_IncludedPermissions role)) [] of
          None \<Rightarrow> None
        | Some (Inl err) \<Rightarrow> Some (Inl err)
        | Some (Inr (finalPermissions, unresolved, visited')) \<Rightarrow>
            Some (Inr (finalPermissions, dedupeUnresolved unresolved, visited'))))"

declare dependents_loop.simps [code] effective_loop.simps [code]

lemma effective_loop_Nil [simp]:
  "effective_loop Get ns [] visited permissionSet unresolved = Some (Inr (permissionSet, unresolved, visited))"
  by (subst effective_loop.simps) simp

lemma union_Nil [simp]: "List.union [] xs = xs"
  by (simp add: List.union_def)

text \<open>The loop body is the source's: look up, skip what is missing, recurse, collect.\<close>

lemma effective_loop_Cons:
  "effective_loop Get ns (ref # rest) visited permissionSet unresolved =
     (case Get (ref_namespace ns ref) (roleRef_Name ref) of
        Inl err \<Rightarrow>
          if IsNotFound err
          then effective_loop Get ns rest visited permissionSet
                 (unresolved @ [\<lparr>ur_Namespace = ref_namespace ns ref, ur_Name = roleRef_Name ref\<rparr>])
          else Some (Inl (WrapError (''failed to get inherited role '' @ ref_namespace ns ref @ ''/'' @ roleRef_Name ref) err))
      | Inr inheritedRole \<Rightarrow>
          (case getAllEffectivePermissions Get inheritedRole visited of
             None \<Rightarrow> None
           | Some (Inl err) \<Rightarrow> Some (Inl err)
           | Some (Inr (inheritedPerms, inheritedUnresolved, visited')) \<Rightarrow>
               effective_loop Get ns rest visited' (List.union inheritedPerms permissionSet) (unresolved @ inheritedUnresolved)))"
  by (subst effective_loop.simps)
    (auto simp: getAllEffectivePermissions_def Let_def split: sum.splits option.splits prod.splits)

section \<open>Dependents\<close>

definition depends_directly :: "'z Role_scheme list \<Rightarrow> (ObjectKey \<times> ObjectKey) set" where
  "depends_directly roles =
     {((ref_namespace (role_Namespace r) ref, roleRef_Name ref), role_key r) | r ref. r \<in> set roles \<and> ref \<in> set (role_InheritedRoles r)}"

lemma fold_append_at:
  "set (fold (\<lambda>x m. m(f x := m (f x) @ [c])) xs m k) = set (m k) \<union> {c | x. x \<in> set xs \<and> f x = k}"
  by (induction xs arbitrary: m) auto

lemma set_add_reverse:
  "set (add_reverse child m k) =
     set (m k) \<union> {role_key child | ref. ref \<in> set (role_InheritedRoles child) \<and>
                    (ref_namespace (role_Namespace child) ref, roleRef_Name ref) = k}"
  by (simp add: add_reverse_def Let_def fold_append_at)

lemma set_fold_add_reverse:
  "set (fold add_reverse roles m k) = set (m k) \<union> depends_directly roles `` {k}"
  by (induction roles arbitrary: m) (auto simp: set_add_reverse depends_directly_def)

lemma set_reverse_inheritance: "set (reverse_inheritance roles k) = depends_directly roles `` {k}"
  by (simp add: reverse_inheritance_def set_fold_add_reverse)

lemma finite_depends: "finite (depends_directly roles)"
proof -
  have "depends_directly roles =
      (\<Union>r \<in> set roles. (\<lambda>ref. ((ref_namespace (role_Namespace r) ref, roleRef_Name ref), role_key r)) ` set (role_InheritedRoles r))"
    by (auto simp: depends_directly_def)
  then show ?thesis by simp
qed

lemma visit_children_spec:
  assumes "visit_children ks ds q = (ds', q')"
  shows "set ds' = set ds \<union> set ks \<and> (\<exists>new. q' = q @ new \<and> set new = set ks - set ds \<and> distinct new)"
  using assms
proof (induction ks ds q rule: visit_children.induct)
  case (2 k ks ds q)
  show ?case
  proof (cases "k \<in> set ds")
    case True
    with 2 show ?thesis by auto
  next
    case False
    with 2 obtain new where "set ds' = set (ds @ [k]) \<union> set ks" "q' = (q @ [k]) @ new" "set new = set ks - set (ds @ [k])" "distinct new"
      by auto
    with False show ?thesis by (intro conjI exI[of _ "k # new"]) auto
  qed
qed auto

text \<open>
  The breadth-first loop: everything on the queue is a dependent, every dependent that
  has left the queue has its children among the dependents, and the queue together with
  the keys not found yet gets smaller.
\<close>

definition bfs_inv :: "(ObjectKey \<Rightarrow> ObjectKey list) \<Rightarrow> ObjectKey \<Rightarrow> ObjectKey list \<Rightarrow> ObjectKey list \<Rightarrow> bool" where
  "bfs_inv rv start ds q \<longleftrightarrow>
     start \<in> set ds \<and> set q \<subseteq> set ds \<and> set ds \<subseteq> {(a, b). b \<in> set (rv a)}\<^sup>* `` {start} \<and>
     (\<forall>k \<in> set ds - set q. set (rv k) \<subseteq> set ds)"

lemma bfs_inv_step:
  assumes "bfs_inv rv start ds (c # q)" and "visit_children (rv c) ds q = (ds', q')"
  shows "bfs_inv rv start ds' q'"
proof -
  obtain new where ds': "set ds' = set ds \<union> set (rv c)" and q': "q' = q @ new" "set new = set (rv c) - set ds"
    using visit_children_spec[OF assms(2)] by blast
  let ?E = "{(a, b). b \<in> set (rv a)}"
  have "set (rv c) \<subseteq> ?E\<^sup>* `` {start}"
    using assms(1) by (auto simp: bfs_inv_def intro: rtrancl_into_rtrancl)
  with assms(1) ds' q' show ?thesis by (auto simp: bfs_inv_def)
qed

lemma dependents_loop_returns:
  assumes "finite U" and "\<And>k. set (rv k) \<subseteq> U" and "length q + card (U - set ds) \<le> n" and "bfs_inv rv start ds q"
  shows "\<exists>r. dependents_loop rv ds q = Some r \<and> bfs_inv rv start r []"
  using assms(3,4)
proof (induction n arbitrary: ds q)
  case 0
  then show ?case by (subst dependents_loop.simps) simp
next
  case (Suc n)
  show ?case
  proof (cases q)
    case Nil
    with Suc show ?thesis by (subst dependents_loop.simps) simp
  next
    case (Cons c q0)
    obtain ds' q' where v: "visit_children (rv c) ds q0 = (ds', q')" by fastforce
    then obtain new where ds': "set ds' = set ds \<union> set (rv c)" and q': "q' = q0 @ new" "set new = set (rv c) - set ds" "distinct new"
      using visit_children_spec by blast
    have "U - set ds' = (U - set ds) - set new" using ds' q' by auto
    moreover have "set new \<subseteq> U - set ds" using assms(2)[of c] q' by auto
    ultimately have "card (U - set ds') + length new = card (U - set ds)"
      using assms(1) q'(3) by (metis card_Diff_subset card_mono distinct_card finite_Diff finite_set le_add_diff_inverse2)
    then have "length q' + card (U - set ds') \<le> n" using Suc.prems(1) Cons q' by simp
    moreover have "bfs_inv rv start ds' q'" using bfs_inv_step[of rv start ds c q0 ds' q'] v Suc.prems(2) Cons by simp
    ultimately show ?thesis using Suc.IH Cons
      by (subst dependents_loop.simps) (simp add: v)
  qed
qed

lemma bfs_inv_done:
  assumes "bfs_inv rv start r []"
  shows "set r = {(a, b). b \<in> set (rv a)}\<^sup>* `` {start}"
proof
  let ?E = "{(a, b). b \<in> set (rv a)}"
  have "(start, k) \<in> ?E\<^sup>* \<Longrightarrow> k \<in> set r" for k
    by (induction rule: rtrancl_induct) (use assms in \<open>auto simp: bfs_inv_def\<close>)
  then show "?E\<^sup>* `` {start} \<subseteq> set r" by auto
qed (use assms in \<open>simp add: bfs_inv_def\<close>)

lemma rolesDependentOnRole_set:
  "\<exists>deps. rolesDependentOnRole (Inr roles) changed = Some (Inr deps) \<and> set deps = (depends_directly roles)\<^sup>* `` {changed}"
proof -
  let ?rv = "reverse_inheritance roles"
  have E: "{(a, b). b \<in> set (?rv a)} = depends_directly roles" by (auto simp: set_reverse_inheritance)
  have "set (?rv k) \<subseteq> snd ` depends_directly roles" for k by (force simp: set_reverse_inheritance)
  moreover have "bfs_inv ?rv changed [changed] [changed]" by (simp add: bfs_inv_def)
  ultimately obtain r where "dependents_loop ?rv [changed] [changed] = Some r" and inv: "bfs_inv ?rv changed r []"
    using dependents_loop_returns[of "snd ` depends_directly roles" ?rv "[changed]" "[changed]" _ changed] finite_depends[of roles]
    by blast
  with bfs_inv_done[OF inv] show ?thesis by (simp add: rolesDependentOnRole_def E)
qed

section \<open>Effective permissions\<close>

text \<open>
  A consistent view of the cluster: a lookup returns the Role it was asked for, a
  namespace contains no slash, and there are finitely many Roles.
\<close>

definition lookup_ok :: "'z role_lookup \<Rightarrow> bool" where
  "lookup_ok Get \<longleftrightarrow>
     (\<forall>ns n r. Get ns n = Inr r \<longrightarrow> role_Namespace r = ns \<and> role_Name r = n \<and> CHR ''/'' \<notin> set ns) \<and>
     finite {r. Get (role_Namespace r) (role_Name r) = Inr r}"

definition follow :: "'z role_lookup \<Rightarrow> string \<Rightarrow> RoleReference \<Rightarrow> ('z Role_scheme) result" where
  "follow Get ns ref = Get (ref_namespace ns ref) (roleRef_Name ref)"

definition inherits :: "'z role_lookup \<Rightarrow> 'z Role_scheme \<Rightarrow> 'z Role_scheme \<Rightarrow> bool" where
  "inherits Get r r' \<longleftrightarrow> (\<exists>ref \<in> set (role_InheritedRoles r). follow Get (role_Namespace r) ref = Inr r')"

definition missing_refs :: "'z role_lookup \<Rightarrow> string \<Rightarrow> RoleReference list \<Rightarrow> unresolvedInheritedRole set" where
  "missing_refs Get ns refs =
     {\<lparr>ur_Namespace = ref_namespace ns ref, ur_Name = roleRef_Name ref\<rparr> | ref e.
        ref \<in> set refs \<and> follow Get ns ref = Inl e \<and> IsNotFound e}"

definition failing_refs :: "'z role_lookup \<Rightarrow> string \<Rightarrow> RoleReference list \<Rightarrow> bool" where
  "failing_refs Get ns refs \<longleftrightarrow> (\<exists>ref \<in> set refs. \<exists>e. follow Get ns ref = Inl e \<and> \<not> IsNotFound e)"

definition known_roles :: "'z role_lookup \<Rightarrow> 'z Role_scheme set" where
  "known_roles Get = {r. Get (role_Namespace r) (role_Name r) = Inr r}"

lemma follow_known: "lookup_ok Get \<Longrightarrow> follow Get ns ref = Inr r \<Longrightarrow> r \<in> known_roles Get"
  by (auto simp: lookup_ok_def follow_def known_roles_def)

lemma roleIdentifier_inject:
  assumes "lookup_ok Get" and "r \<in> known_roles Get" and "s \<in> known_roles Get" and "roleIdentifier r = roleIdentifier s"
  shows "r = s"
proof -
  have no: "CHR ''/'' \<notin> set (role_Namespace r)" "CHR ''/'' \<notin> set (role_Namespace s)"
    using assms unfolding lookup_ok_def known_roles_def by blast+
  have "Cut (roleIdentifier r) (CHR ''/'') = (role_Namespace r, role_Name r, True)"
    "Cut (roleIdentifier s) (CHR ''/'') = (role_Namespace s, role_Name s, True)"
    using no by (simp_all add: roleIdentifier_def Cut_append)
  with assms show ?thesis by (simp add: known_roles_def)
qed

lemma set_first_seen: "set (first_seen xs seen) = set xs - seen"
  by (induction xs arbitrary: seen) auto

lemma distinct_first_seen: "distinct (first_seen xs seen)"
  by (induction xs arbitrary: seen) (auto simp: set_first_seen)

lemma set_dedupeUnresolved [simp]: "set (dedupeUnresolved us) = set us"
  by (simp add: dedupeUnresolved_def set_first_seen)

lemma dedupeUnresolved_order:
  "distinct (dedupeUnresolved us) \<and> sorted (map (\<lambda>u. (ur_Namespace u, ur_Name u)) (dedupeUnresolved us))"
  by (simp add: dedupeUnresolved_def distinct_first_seen)

text \<open>
  What a pass over references leaves behind when it started with the identifiers
  \<open>V\<close>: the Roles it entered (\<open>N\<close>) are reachable, have all their own references
  entered before or meanwhile, and account for the permissions and for the unresolved
  references collected.
\<close>

definition entered :: "'z role_lookup \<Rightarrow> string list \<Rightarrow> string list \<Rightarrow> 'z Role_scheme set" where
  "entered Get V V' = {r \<in> known_roles Get. roleIdentifier r \<in> set V' - set V}"

definition refs_done :: "'z role_lookup \<Rightarrow> string \<Rightarrow> RoleReference list \<Rightarrow> string list \<Rightarrow> bool" where
  "refs_done Get ns refs V' \<longleftrightarrow> \<not> failing_refs Get ns refs \<and>
     (\<forall>ref \<in> set refs. \<forall>r. follow Get ns ref = Inr r \<longrightarrow> roleIdentifier r \<in> set V')"

definition reached :: "'z role_lookup \<Rightarrow> string \<Rightarrow> RoleReference list \<Rightarrow> 'z Role_scheme set" where
  "reached Get ns refs = {r. \<exists>ref \<in> set refs. \<exists>r0. follow Get ns ref = Inr r0 \<and> (inherits Get)\<^sup>*\<^sup>* r0 r}"

definition collected ::
    "'z role_lookup \<Rightarrow> string \<Rightarrow> RoleReference list \<Rightarrow> string list \<Rightarrow> string list \<Rightarrow> unresolvedInheritedRole list \<Rightarrow>
     string list \<times> unresolvedInheritedRole list \<times> string list \<Rightarrow> bool" where
  "collected Get ns refs V P U res \<longleftrightarrow>
     (case res of (P', U', V') \<Rightarrow>
        set V \<subseteq> set V' \<and> refs_done Get ns refs V' \<and>
        set V' - set V \<subseteq> roleIdentifier ` entered Get V V' \<and> entered Get V V' \<subseteq> reached Get ns refs \<and>
        (\<forall>r \<in> entered Get V V'. refs_done Get (role_Namespace r) (role_InheritedRoles r) V') \<and>
        set P' = set P \<union> (\<Union>r \<in> entered Get V V'. set (role_IncludedPermissions r)) \<and>
        set U' = set U \<union> missing_refs Get ns refs \<union>
          (\<Union>r \<in> entered Get V V'. missing_refs Get (role_Namespace r) (role_InheritedRoles r)) \<and>
        (distinct P \<longrightarrow> distinct P'))"

lemma collected_tuple:
  "collected Get ns refs V P U (P', U', V') \<longleftrightarrow>
     set V \<subseteq> set V' \<and> refs_done Get ns refs V' \<and>
     set V' - set V \<subseteq> roleIdentifier ` entered Get V V' \<and> entered Get V V' \<subseteq> reached Get ns refs \<and>
     (\<forall>r \<in> entered Get V V'. refs_done Get (role_Namespace r) (role_InheritedRoles r) V') \<and>
     set P' = set P \<union> (\<Union>r \<in> entered Get V V'. set (role_IncludedPermissions r)) \<and>
     set U' = set U \<union> missing_refs Get ns refs \<union>
       (\<Union>r \<in> entered Get V V'. missing_refs Get (role_Namespace r) (role_InheritedRoles r)) \<and>
     (distinct P \<longrightarrow> distinct P')"
  by (simp only: collected_def prod.case)

lemmas collectedD =
  collected_tuple[THEN iffD1, THEN conjunct1]
  collected_tuple[THEN iffD1, THEN conjunct2, THEN conjunct1]
  collected_tuple[THEN iffD1, THEN conjunct2, THEN conjunct2, THEN conjunct1]
  collected_tuple[THEN iffD1, THEN conjunct2, THEN conjunct2, THEN conjunct2, THEN conjunct1]
  collected_tuple[THEN iffD1, THEN conjunct2, THEN conjunct2, THEN conjunct2, THEN conjunct2, THEN conjunct1, rule_format]
  collected_tuple[THEN iffD1, THEN conjunct2, THEN conjunct2, THEN conjunct2, THEN conjunct2, THEN conjunct2, THEN conjunct1]
  collected_tuple[THEN iffD1, THEN conjunct2, THEN conjunct2, THEN conjunct2, THEN conjunct2, THEN conjunct2, THEN conjunct2, THEN conjunct1]
  collected_tuple[THEN iffD1, THEN conjunct2, THEN conjunct2, THEN conjunct2, THEN conjunct2, THEN conjunct2, THEN conjunct2, THEN conjunct2, rule_format]

lemma collected_Nil: "collected Get ns [] V P U (P, U, V)"
  by (simp add: collected_def refs_done_def failing_refs_def missing_refs_def entered_def)

lemma refs_done_mono: "refs_done Get ns refs V \<Longrightarrow> set V \<subseteq> set V' \<Longrightarrow> refs_done Get ns refs V'"
  by (auto simp: refs_done_def)

lemma reached_Cons: "reached Get ns refs \<subseteq> reached Get ns (ref # refs)"
  by (auto simp: reached_def)

lemma collected_missing:
  assumes "follow Get ns ref = Inl e" and "IsNotFound e"
    and "collected Get ns refs V P (U @ [\<lparr>ur_Namespace = ref_namespace ns ref, ur_Name = roleRef_Name ref\<rparr>]) res"
  shows "collected Get ns (ref # refs) V P U res"
proof -
  have "missing_refs Get ns (ref # refs) =
      insert \<lparr>ur_Namespace = ref_namespace ns ref, ur_Name = roleRef_Name ref\<rparr> (missing_refs Get ns refs)"
    using assms(1,2) by (auto simp: missing_refs_def)
  moreover have "refs_done Get ns (ref # refs) V' \<longleftrightarrow> refs_done Get ns refs V'" for V'
    using assms(1,2) by (auto simp: refs_done_def failing_refs_def)
  ultimately show ?thesis
    using assms(3) reached_Cons[of Get ns refs ref] by (auto simp: collected_def)
qed

lemma collected_seen:
  assumes "follow Get ns ref = Inr r" and "roleIdentifier r \<in> set V" and "collected Get ns refs V P U res"
  shows "collected Get ns (ref # refs) V P U res"
proof -
  have "missing_refs Get ns (ref # refs) = missing_refs Get ns refs"
    using assms(1) by (auto simp: missing_refs_def)
  moreover have "refs_done Get ns (ref # refs) V' \<longleftrightarrow> refs_done Get ns refs V'" if "set V \<subseteq> set V'" for V'
    using assms(1,2) that by (auto simp: refs_done_def failing_refs_def)
  ultimately show ?thesis
    using assms(3) reached_Cons[of Get ns refs ref] by (auto simp: collected_def)
qed

lemma entered_split:
  assumes "set V \<subseteq> set V1" and "set V1 \<subseteq> set V2"
  shows "entered Get V V2 = entered Get V V1 \<union> entered Get V1 V2"
  using assms by (auto simp: entered_def)

lemma entered_start:
  assumes "lookup_ok Get" and "r \<in> known_roles Get" and "roleIdentifier r \<notin> set V" and "set (roleIdentifier r # V) \<subseteq> set V'"
  shows "entered Get V V' = insert r (entered Get (roleIdentifier r # V) V')"
  using assms roleIdentifier_inject[OF assms(1) _ assms(2)] by (auto simp: entered_def)

text \<open>Entering one Role: its own contribution and that of the pass over its references.\<close>

lemma collected_enter:
  assumes ok: "lookup_ok Get" and ref: "follow Get ns ref = Inr r" and new: "roleIdentifier r \<notin> set V"
    and inner: "collected Get (role_Namespace r) (role_InheritedRoles r) (roleIdentifier r # V)
      (remdups (role_IncludedPermissions r)) [] (P1, U1, V1)"
    and outer: "collected Get ns refs V1 (List.union P1 P) (U @ dedupeUnresolved U1) res"
  shows "collected Get ns (ref # refs) V P U res"
proof -
  obtain P2 U2 V2 where res: "res = (P2, U2, V2)" using prod_cases3 by blast
  note i = collectedD[OF inner] and out = collectedD[OF outer[unfolded res]]
  have r: "r \<in> known_roles Get" using follow_known[OF ok ref] .
  have V: "set V \<subseteq> set V1" using i(1) by simp
  note V2 = out(1)
  have E: "entered Get V V2 = insert r (entered Get (roleIdentifier r # V) V1) \<union> entered Get V1 V2"
    using entered_split[OF V V2, of Get] entered_start[OF ok r new i(1)] by simp
  have miss: "missing_refs Get ns (ref # refs) = missing_refs Get ns refs"
    using ref by (auto simp: missing_refs_def)
  have "refs_done Get ns (ref # refs) V2"
    using out(2) i(1) V2 ref by (auto simp: refs_done_def failing_refs_def)
  moreover have "reached Get (role_Namespace r) (role_InheritedRoles r) \<subseteq> reached Get ns (ref # refs)"
    using ref by (auto simp: reached_def) (metis inherits_def converse_rtranclp_into_rtranclp)
  moreover have "r \<in> reached Get ns (ref # refs)" using ref by (auto simp: reached_def)
  ultimately have "entered Get V V2 \<subseteq> reached Get ns (ref # refs)"
    using i(4) out(4) reached_Cons[of Get ns refs ref] unfolding E by blast
  moreover have "set V2 - set V \<subseteq> roleIdentifier ` entered Get V V2"
    using i(3) out(3) unfolding E by auto
  moreover have "\<forall>s \<in> entered Get V V2. refs_done Get (role_Namespace s) (role_InheritedRoles s) V2"
    using i(2,5) out(5) refs_done_mono[OF _ V2] unfolding E by blast
  moreover have "set P2 = set P \<union> (\<Union>s \<in> entered Get V V2. set (role_IncludedPermissions s))"
    unfolding E out(6) using i(6) by auto
  moreover have "set U2 = set U \<union> missing_refs Get ns (ref # refs) \<union>
      (\<Union>s \<in> entered Get V V2. missing_refs Get (role_Namespace s) (role_InheritedRoles s))"
    unfolding E out(7) miss using i(7) by auto
  moreover have "distinct P \<longrightarrow> distinct P2" using out(8) i(8) by (simp add: distinct_union)
  ultimately show ?thesis using \<open>refs_done Get ns (ref # refs) V2\<close> V V2 by (simp add: collected_def res)
qed

lemma card_unvisited:
  assumes "lookup_ok Get" and "r \<in> known_roles Get" and "roleIdentifier r \<notin> set V"
  shows "card {s \<in> known_roles Get. roleIdentifier s \<notin> set (roleIdentifier r # V)} < card {s \<in> known_roles Get. roleIdentifier s \<notin> set V}"
proof (rule psubset_card_mono)
  show "finite {s \<in> known_roles Get. roleIdentifier s \<notin> set V}" using assms(1) by (simp add: lookup_ok_def known_roles_def)
  show "{s \<in> known_roles Get. roleIdentifier s \<notin> set (roleIdentifier r # V)} \<subset> {s \<in> known_roles Get. roleIdentifier s \<notin> set V}"
    using assms(2,3) by auto
qed

lemma card_unvisited_mono:
  assumes "lookup_ok Get" and "set V \<subseteq> set V'"
  shows "card {s \<in> known_roles Get. roleIdentifier s \<notin> set V'} \<le> card {s \<in> known_roles Get. roleIdentifier s \<notin> set V}"
  using assms by (intro card_mono) (auto simp: lookup_ok_def known_roles_def)

definition fails_below :: "'z role_lookup \<Rightarrow> string \<Rightarrow> RoleReference list \<Rightarrow> bool" where
  "fails_below Get ns refs \<longleftrightarrow> failing_refs Get ns refs \<or>
     (\<exists>r \<in> reached Get ns refs. failing_refs Get (role_Namespace r) (role_InheritedRoles r))"

lemma fails_below_Cons: "fails_below Get ns refs \<Longrightarrow> fails_below Get ns (ref # refs)"
  using reached_Cons[of Get ns refs ref] by (auto simp: fails_below_def failing_refs_def)

lemma fails_below_enter:
  assumes "follow Get ns ref = Inr r" and "fails_below Get (role_Namespace r) (role_InheritedRoles r)"
  shows "fails_below Get ns (ref # refs)"
proof -
  have "r \<in> reached Get ns (ref # refs)" using assms(1) by (auto simp: reached_def)
  moreover have "reached Get (role_Namespace r) (role_InheritedRoles r) \<subseteq> reached Get ns (ref # refs)"
    using assms(1) by (auto simp: reached_def) (metis inherits_def converse_rtranclp_into_rtranclp)
  ultimately show ?thesis using assms(2) by (auto simp: fails_below_def)
qed

text \<open>The loop returns: each Role is entered once, so the Roles not yet visited bound the recursion.\<close>

lemma effective_loop_collects:
  assumes ok: "lookup_ok Get" and "card {s \<in> known_roles Get. roleIdentifier s \<notin> set V} \<le> n"
  shows "(\<exists>e. effective_loop Get ns refs V P U = Some (Inl e) \<and> fails_below Get ns refs) \<or>
    (\<exists>res. effective_loop Get ns refs V P U = Some (Inr res) \<and> collected Get ns refs V P U res)"
  using assms(2)
proof (induction n arbitrary: ns refs V P U rule: less_induct)
  case (less n)
  from less.prems show ?case
  proof (induction refs arbitrary: V P U)
    case Nil
    then show ?case using collected_Nil by fastforce
  next
    case (Cons ref refs)
    show ?case
    proof (cases "follow Get ns ref")
      case (Inl e)
      show ?thesis
      proof (cases "IsNotFound e")
        case True
        let ?U = "U @ [\<lparr>ur_Namespace = ref_namespace ns ref, ur_Name = roleRef_Name ref\<rparr>]"
        have "effective_loop Get ns (ref # refs) V P U = effective_loop Get ns refs V P ?U"
          using Inl True by (simp add: effective_loop_Cons follow_def)
        with Cons.IH[OF Cons.prems, of P ?U] fails_below_Cons collected_missing[OF Inl True] show ?thesis by metis
      next
        case False
        then show ?thesis using Inl by (auto simp: effective_loop_Cons follow_def fails_below_def failing_refs_def)
      qed
    next
      case (Inr r)
      note known = follow_known[OF ok Inr]
      show ?thesis
      proof (cases "roleIdentifier r \<in> set V")
        case True
        have "effective_loop Get ns (ref # refs) V P U = effective_loop Get ns refs V P U"
          using Inr True by (simp add: effective_loop_Cons follow_def getAllEffectivePermissions_def)
        with Cons.IH[OF Cons.prems, of P U] fails_below_Cons collected_seen[OF Inr True] show ?thesis by metis
      next
        case False
        let ?inner = "effective_loop Get (role_Namespace r) (role_InheritedRoles r) (roleIdentifier r # V)
          (remdups (role_IncludedPermissions r)) []"
        have "card {s \<in> known_roles Get. roleIdentifier s \<notin> set (roleIdentifier r # V)} < n"
          using card_unvisited[OF ok known False] Cons.prems by linarith
        from less.IH[OF this order_refl] consider
            (err) e where "?inner = Some (Inl e)" "fails_below Get (role_Namespace r) (role_InheritedRoles r)"
          | (out) P1 U1 V1 where "?inner = Some (Inr (P1, U1, V1))" "collected Get (role_Namespace r) (role_InheritedRoles r)
              (roleIdentifier r # V) (remdups (role_IncludedPermissions r)) [] (P1, U1, V1)"
          by (metis prod_cases3)
        then show ?thesis
        proof cases
          case err
          then show ?thesis using Inr False fails_below_enter[OF Inr]
            by (simp add: effective_loop_Cons follow_def getAllEffectivePermissions_def)
        next
          case out
          have run: "effective_loop Get ns (ref # refs) V P U =
              effective_loop Get ns refs V1 (List.union P1 P) (U @ dedupeUnresolved U1)"
            using Inr False out(1) by (simp add: effective_loop_Cons follow_def getAllEffectivePermissions_def)
          have "card {s \<in> known_roles Get. roleIdentifier s \<notin> set V1} \<le> n"
            using card_unvisited_mono[OF ok, of V V1] collectedD(1)[OF out(2)] Cons.prems by simp
          from Cons.IH[OF this, of "List.union P1 P" "U @ dedupeUnresolved U1"]
          show ?thesis unfolding run using fails_below_Cons collected_enter[OF ok Inr False out(2)] by metis
        qed
      qed
    qed
  qed
qed

definition inherited_roles :: "'z role_lookup \<Rightarrow> 'z Role_scheme \<Rightarrow> 'z Role_scheme set" where
  "inherited_roles Get role = {r. (inherits Get)\<^sup>*\<^sup>* role r}"

lemma inherited_roles_reached:
  "inherited_roles Get role = insert role (reached Get (role_Namespace role) (role_InheritedRoles role))"
proof
  show "inherited_roles Get role \<subseteq> insert role (reached Get (role_Namespace role) (role_InheritedRoles role))"
  proof
    fix r assume "r \<in> inherited_roles Get role"
    then have "(inherits Get)\<^sup>*\<^sup>* role r" by (simp add: inherited_roles_def)
    then show "r \<in> insert role (reached Get (role_Namespace role) (role_InheritedRoles role))"
      by (cases rule: converse_rtranclpE) (auto simp: inherits_def reached_def)
  qed
  show "insert role (reached Get (role_Namespace role) (role_InheritedRoles role)) \<subseteq> inherited_roles Get role"
    by (auto simp: inherited_roles_def reached_def) (metis inherits_def converse_rtranclp_into_rtranclp)
qed

lemma collected_inherited:
  assumes ok: "lookup_ok Get" and role: "role \<in> known_roles Get"
    and c: "collected Get (role_Namespace role) (role_InheritedRoles role) [roleIdentifier role] P U (P', U', V')"
  shows "insert role (entered Get [roleIdentifier role] V') = inherited_roles Get role"
proof
  show "insert role (entered Get [roleIdentifier role] V') \<subseteq> inherited_roles Get role"
    using collectedD(4)[OF c] unfolding inherited_roles_reached by blast
  have closed: "s \<in> insert role (entered Get [roleIdentifier role] V')"
    if r: "r \<in> insert role (entered Get [roleIdentifier role] V')" and inh: "inherits Get r s" for r s
  proof -
    obtain ref where ref: "ref \<in> set (role_InheritedRoles r)" "follow Get (role_Namespace r) ref = Inr s"
      using inh by (auto simp: inherits_def)
    have "refs_done Get (role_Namespace r) (role_InheritedRoles r) V'"
      using r collectedD(2)[OF c] collectedD(5)[OF c] by blast
    with ref have "roleIdentifier s \<in> set V'" by (auto simp: refs_done_def)
    with follow_known[OF ok ref(2)] roleIdentifier_inject[OF ok _ role, of s] show ?thesis by (auto simp: entered_def)
  qed
  have "(inherits Get)\<^sup>*\<^sup>* role r \<Longrightarrow> r \<in> insert role (entered Get [roleIdentifier role] V')" for r
    by (induction rule: rtranclp_induct) (simp, rule closed)
  then show "inherited_roles Get role \<subseteq> insert role (entered Get [roleIdentifier role] V')"
    by (auto simp: inherited_roles_def)
qed

lemma effective_permissions_exact:
  assumes ok: "lookup_ok Get" and "Get (role_Namespace role) (role_Name role) = Inr role"
  shows "\<exists>res. getAllEffectivePermissions Get role [] = Some res \<and>
    (case res of
       Inl e \<Rightarrow> \<exists>r \<in> inherited_roles Get role. failing_refs Get (role_Namespace r) (role_InheritedRoles r)
     | Inr (perms, unresolved, visited) \<Rightarrow>
         distinct perms \<and> set perms = (\<Union>r \<in> inherited_roles Get role. set (role_IncludedPermissions r)) \<and>
         set unresolved = (\<Union>r \<in> inherited_roles Get role. missing_refs Get (role_Namespace r) (role_InheritedRoles r)) \<and>
         \<not> (\<exists>r \<in> inherited_roles Get role. failing_refs Get (role_Namespace r) (role_InheritedRoles r)))"
proof -
  let ?ns = "role_Namespace role" and ?refs = "role_InheritedRoles role" and ?V = "[roleIdentifier role]"
    and ?P = "remdups (role_IncludedPermissions role)"
  have role: "role \<in> known_roles Get" using assms(2) by (simp add: known_roles_def)
  from effective_loop_collects[OF ok order_refl, of ?ns ?refs ?V ?P "[]"] consider
      (err) e where "effective_loop Get ?ns ?refs ?V ?P [] = Some (Inl e)" "fails_below Get ?ns ?refs"
    | (out) P U V where "effective_loop Get ?ns ?refs ?V ?P [] = Some (Inr (P, U, V))" "collected Get ?ns ?refs ?V ?P [] (P, U, V)"
    by (metis prod_cases3)
  then show ?thesis
  proof cases
    case err
    have "\<exists>r \<in> inherited_roles Get role. failing_refs Get (role_Namespace r) (role_InheritedRoles r)"
      using err(2) unfolding inherited_roles_reached fails_below_def by blast
    with err(1) show ?thesis by (simp add: getAllEffectivePermissions_def)
  next
    case out
    note c = collectedD[OF out(2)] and I = collected_inherited[OF ok role out(2), symmetric]
    have "\<not> failing_refs Get (role_Namespace r) (role_InheritedRoles r)" if "r \<in> inherited_roles Get role" for r
      using that c(2,5) unfolding I refs_done_def by blast
    moreover have "set P = (\<Union>r \<in> inherited_roles Get role. set (role_IncludedPermissions r))" unfolding I c(6) by simp
    moreover have "set U = (\<Union>r \<in> inherited_roles Get role. missing_refs Get (role_Namespace r) (role_InheritedRoles r))"
      unfolding I c(7) by simp
    moreover have "distinct P" using c(8) by simp
    ultimately show ?thesis using out(1) by (simp add: getAllEffectivePermissions_def)
  qed
qed

text \<open>
  C13. For a Role of a consistent cluster view the computation of its effective
  permissions always returns, cycles included. It fails exactly when looking up some
  reference of a Role it inherits, directly or not, fails with something else than
  NotFound; otherwise it returns, once each, exactly the permissions included by the
  Role and all Roles it inherits, and reports exactly their dangling references.
\<close>

theorem getAllEffectivePermissions_exact:
  assumes "lookup_ok Get" and "Get (role_Namespace role) (role_Name role) = Inr role"
  shows "\<exists>res. getAllEffectivePermissions Get role [] = Some res \<and>
    (case res of
       Inl e \<Rightarrow> \<exists>r \<in> inherited_roles Get role. failing_refs Get (role_Namespace r) (role_InheritedRoles r)
     | Inr (perms, unresolved, visited) \<Rightarrow>
         distinct perms \<and> set perms = (\<Union>r \<in> inherited_roles Get role. set (role_IncludedPermissions r)) \<and>
         set unresolved = (\<Union>r \<in> inherited_roles Get role. missing_refs Get (role_Namespace r) (role_InheritedRoles r)) \<and>
         \<not> (\<exists>r \<in> inherited_roles Get role. failing_refs Get (role_Namespace r) (role_InheritedRoles r)))"
  by (rule effective_permissions_exact[OF assms])

text \<open>
  The set of dependents of a changed Role is always computed and is exactly the
  changed Role and every Role that refers to it through a chain of inherited references,
  whether or not the changed Role still exists.
\<close>

theorem rolesDependentOnRole_exact:
  "\<exists>deps. rolesDependentOnRole (Inr roles) changed = Some (Inr deps) \<and>
    set deps = {k. (changed, k) \<in>
      {((ref_namespace (role_Namespace r) ref, roleRef_Name ref), role_key r) | r ref.
         r \<in> set roles \<and> ref \<in> set (role_InheritedRoles r)}\<^sup>*}"
  using rolesDependentOnRole_set[of roles changed] by (auto simp: depends_directly_def)

section \<open>Propagation\<close>

text \<open>Two lookups that agree on every reference of a closed set of Roles compute the same.\<close>

definition agree_on :: "'z role_lookup \<Rightarrow> 'z role_lookup \<Rightarrow> 'z Role_scheme set \<Rightarrow> string \<Rightarrow> RoleReference list \<Rightarrow> bool" where
  "agree_on Get Get' S ns refs \<longleftrightarrow>
     (\<forall>ref \<in> set refs. follow Get ns ref = follow Get' ns ref \<and> (\<forall>s. follow Get ns ref = Inr s \<longrightarrow> s \<in> S))"

lemma effective_loop_agree:
  assumes ok: "lookup_ok Get" and S: "\<And>r. r \<in> S \<Longrightarrow> agree_on Get Get' S (role_Namespace r) (role_InheritedRoles r)"
    and "card {s \<in> known_roles Get. roleIdentifier s \<notin> set V} \<le> n" and "agree_on Get Get' S ns refs"
  shows "effective_loop Get ns refs V P U = effective_loop Get' ns refs V P U"
  using assms(3,4)
proof (induction n arbitrary: ns refs V P U rule: less_induct)
  case (less n)
  from less.prems show ?case
  proof (induction refs arbitrary: V P U)
    case (Cons ref refs)
    have rest: "agree_on Get Get' S ns refs" using Cons.prems(2) by (simp add: agree_on_def)
    have same: "Get' (ref_namespace ns ref) (roleRef_Name ref) = Get (ref_namespace ns ref) (roleRef_Name ref)"
      using Cons.prems(2) by (simp add: agree_on_def follow_def)
    note IH = Cons.IH[OF _ rest]
    show ?case
    proof (cases "follow Get ns ref")
      case (Inl e)
      then show ?thesis using IH[OF Cons.prems(1)] by (simp add: effective_loop_Cons same follow_def)
    next
      case (Inr r)
      note known = follow_known[OF ok Inr]
      have "r \<in> S" using Inr Cons.prems(2) by (simp add: agree_on_def)
      note agr = S[OF this]
      show ?thesis
      proof (cases "roleIdentifier r \<in> set V")
        case True
        then show ?thesis using Inr IH[OF Cons.prems(1)]
          by (simp add: effective_loop_Cons same follow_def getAllEffectivePermissions_def)
      next
        case False
        let ?V = "roleIdentifier r # V" and ?P = "remdups (role_IncludedPermissions r)"
        have "card {s \<in> known_roles Get. roleIdentifier s \<notin> set ?V} < n"
          using card_unvisited[OF ok known False] Cons.prems(1) by linarith
        from less.IH[OF this order_refl agr]
        have inner: "effective_loop Get' (role_Namespace r) (role_InheritedRoles r) ?V ?P [] =
            effective_loop Get (role_Namespace r) (role_InheritedRoles r) ?V ?P []" by simp
        have grow: "card {s \<in> known_roles Get. roleIdentifier s \<notin> set V1} \<le> n"
          if "effective_loop Get (role_Namespace r) (role_InheritedRoles r) ?V ?P [] = Some (Inr (P1, U1, V1))" for P1 U1 V1
        proof -
          have "collected Get (role_Namespace r) (role_InheritedRoles r) ?V ?P [] (P1, U1, V1)"
            using effective_loop_collects[OF ok order_refl, of "role_Namespace r" "role_InheritedRoles r" ?V ?P "[]"] that by auto
          from collectedD(1)[OF this] card_unvisited_mono[OF ok, of V V1] Cons.prems(1) show ?thesis by simp
        qed
        show ?thesis using Inr False IH[OF grow]
          by (auto simp: effective_loop_Cons same follow_def getAllEffectivePermissions_def inner split: option.splits sum.splits)
      qed
    qed
  qed simp
qed

lemma role_change_outside_dependents:
  assumes before: "lookup_ok Get" and after: "lookup_ok Get'"
    and same: "\<And>ns n. (ns, n) \<noteq> changed \<Longrightarrow> Get ns n = Get' ns n"
    and listed: "\<And>r. r \<in> set roles \<longleftrightarrow> Get' (role_Namespace r) (role_Name r) = Inr r"
    and deps: "rolesDependentOnRole (Inr roles) changed = Some (Inr deps)"
    and role: "role \<in> set roles" and out: "role_key role \<notin> set deps"
  shows "getAllEffectivePermissions Get role [] = getAllEffectivePermissions Get' role []"
proof -
  let ?S = "{r \<in> set roles. role_key r \<notin> set deps}"
  have set_deps: "set deps = (depends_directly roles)\<^sup>* `` {changed}"
    using rolesDependentOnRole_set[of roles changed] deps by auto
  have S: "agree_on Get Get' ?S (role_Namespace r) (role_InheritedRoles r)" if "r \<in> ?S" for r
    unfolding agree_on_def
  proof (intro ballI conjI allI impI)
    fix ref assume ref: "ref \<in> set (role_InheritedRoles r)"
    let ?k = "(ref_namespace (role_Namespace r) ref, roleRef_Name ref)"
    have "(?k, role_key r) \<in> depends_directly roles" using that ref by (auto simp: depends_directly_def)
    then have k: "?k \<notin> set deps" using that by (auto simp: set_deps intro: rtrancl_into_rtrancl)
    moreover have "changed \<in> set deps" by (simp add: set_deps)
    ultimately have "?k \<noteq> changed" by metis
    with same show eq: "follow Get (role_Namespace r) ref = follow Get' (role_Namespace r) ref" by (simp add: follow_def)
    fix s assume "follow Get (role_Namespace r) ref = Inr s"
    then have "Get' (ref_namespace (role_Namespace r) ref) (roleRef_Name ref) = Inr s" using eq by (simp add: follow_def)
    moreover from this after have "role_key s = ?k" by (simp add: lookup_ok_def role_key_def)
    ultimately show "s \<in> ?S" using k listed[of s] by (simp add: role_key_def)
  qed
  from role out have "agree_on Get Get' ?S (role_Namespace role) (role_InheritedRoles role)" by (intro S) simp
  from effective_loop_agree[OF before S order_refl this] show ?thesis
    by (simp add: getAllEffectivePermissions_def)
qed

text \<open>
  When one Role changes, appears or disappears and nothing else does, every Role
  outside the computed dependents keeps exactly the effective permissions and dangling
  references it had: the Roles that are queued again on the change are all that may need it.
\<close>

theorem role_change_stays_among_dependents:
  assumes before: "lookup_ok Get" and after: "lookup_ok Get'"
    and same: "\<And>ns n. (ns, n) \<noteq> changed \<Longrightarrow> Get ns n = Get' ns n"
    and listed: "\<And>r. r \<in> set roles \<longleftrightarrow> Get' (role_Namespace r) (role_Name r) = Inr r"
    and deps: "rolesDependentOnRole (Inr roles) changed = Some (Inr deps)"
    and role: "role \<in> set roles" and out: "role_key role \<notin> set deps"
  shows "getAllEffectivePermissions Get role [] = getAllEffectivePermissions Get' role []"
  using assms by (rule role_change_outside_dependents)

section \<open>Evaluations\<close>

text \<open>A cluster given by the list of its Roles.\<close>

definition cluster_Get :: "'z Role_scheme list \<Rightarrow> 'z role_lookup" where
  "cluster_Get roles ns n =
     (case find (\<lambda>r. role_Namespace r = ns \<and> role_Name r = n) roles of
        Some r \<Rightarrow> Inr r
      | None \<Rightarrow> Inl (ExternalError None True False ''not found''))"

definition example_role :: "string \<Rightarrow> string list \<Rightarrow> (string \<times> string) list \<Rightarrow> Role" where
  "example_role n perms refs =
     \<lparr>role_Namespace = ''ns'', role_Name = n, role_UID = n, role_DeletionTimestamp = False, role_IncludedPermissions = perms,
      role_InheritedRoles = map (\<lambda>(m, r). \<lparr>roleRef_Name = r, roleRef_Namespace = m\<rparr>) refs, role_EffectivePermissions = []\<rparr>"

text \<open>\<open>a\<close> and \<open>b\<close> inherit each other, \<open>a\<close> also refers to a Role that does not exist, \<open>c\<close> stands alone.\<close>

definition role_a :: Role where "role_a = example_role ''a'' [''p''] [([], ''b''), (''ns'', ''gone'')]"
definition role_b :: Role where "role_b = example_role ''b'' [''q'', ''p''] [(''ns'', ''a'')]"
definition role_c :: Role where "role_c = example_role ''c'' [''r''] []"

lemmas example_roles = role_a_def role_b_def role_c_def example_role_def

lemma cluster_lookup_ok:
  assumes "\<And>r. r \<in> set roles \<Longrightarrow> CHR ''/'' \<notin> set (role_Namespace r)"
  shows "lookup_ok (cluster_Get roles)"
proof -
  have found: "r \<in> set roles \<and> role_Namespace r = ns \<and> role_Name r = n" if "cluster_Get roles ns n = Inr r" for ns n r
    using that by (auto simp: cluster_Get_def find_Some_iff split: option.splits)
  then have "{r. cluster_Get roles (role_Namespace r) (role_Name r) = Inr r} \<subseteq> set roles" by blast
  with found assms show ?thesis unfolding lookup_ok_def by (metis finite_set finite_subset)
qed

lemma cluster_Get_iff:
  assumes "distinct (map role_key roles)"
  shows "cluster_Get roles (role_Namespace r) (role_Name r) = Inr r \<longleftrightarrow> r \<in> set roles"
  using assms
proof (induction roles)
  case (Cons s roles)
  then have "role_key s \<notin> role_key ` set roles" by simp
  with Cons show ?case
    by (cases "role_key s = role_key r") (auto simp: cluster_Get_def role_key_def)
qed (simp add: cluster_Get_def)

theorem getAllEffectivePermissions_exact_witness:
  "{''q'', ''p''} = (\<Union>r \<in> inherited_roles (cluster_Get [role_a, role_b, role_c]) role_a. set (role_IncludedPermissions r)) \<and>
   {\<lparr>ur_Namespace = ''ns'', ur_Name = ''gone''\<rparr>} =
   (\<Union>r \<in> inherited_roles (cluster_Get [role_a, role_b, role_c]) role_a.
      missing_refs (cluster_Get [role_a, role_b, role_c]) (role_Namespace r) (role_InheritedRoles r))"
proof -
  let ?Get = "cluster_Get [role_a, role_b, role_c]"
  have ok: "lookup_ok ?Get" by (rule cluster_lookup_ok) (auto simp: example_roles)
  have get: "?Get (role_Namespace role_a) (role_Name role_a) = Inr role_a" by (simp add: cluster_Get_def example_roles)
  have run: "getAllEffectivePermissions ?Get role_a [] =
      Some (Inr ([''q'', ''p''], [\<lparr>ur_Namespace = ''ns'', ur_Name = ''gone''\<rparr>], [''ns/b'', ''ns/a'']))" by code_simp
  let ?I = "inherited_roles ?Get role_a"
  from getAllEffectivePermissions_exact[OF ok get]
  have "set [''q'', ''p''] = (\<Union>r \<in> ?I. set (role_IncludedPermissions r)) \<and>
      set [\<lparr>ur_Namespace = ''ns'', ur_Name = ''gone''\<rparr>] = (\<Union>r \<in> ?I. missing_refs ?Get (role_Namespace r) (role_InheritedRoles r))"
    unfolding run by (elim exE conjE) (simp only: option.inject, hypsubst, simp only: sum.case prod.case)
  then show ?thesis by (simp only: list.set)
qed

text \<open>\<open>b\<close> loses a permission; \<open>c\<close> is not among its dependents.\<close>

theorem role_change_stays_among_dependents_witness:
  "getAllEffectivePermissions (cluster_Get [role_a, role_b, role_c]) role_c [] =
   getAllEffectivePermissions (cluster_Get [role_a, role_b\<lparr>role_IncludedPermissions := []\<rparr>, role_c]) role_c []"
proof (rule role_change_stays_among_dependents)
  let ?roles = "[role_a, role_b\<lparr>role_IncludedPermissions := []\<rparr>, role_c]"
  show "lookup_ok (cluster_Get [role_a, role_b, role_c])" "lookup_ok (cluster_Get ?roles)"
    by (rule cluster_lookup_ok, auto simp: example_roles)+
  show "rolesDependentOnRole (Inr ?roles) (''ns'', ''b'') = Some (Inr [(''ns'', ''b''), (''ns'', ''a'')])" by code_simp
  show "\<And>ns n. (ns, n) \<noteq> (''ns'', ''b'') \<Longrightarrow> cluster_Get [role_a, role_b, role_c] ns n = cluster_Get ?roles ns n"
    by (auto simp: cluster_Get_def example_roles)
  show "\<And>r. r \<in> set ?roles \<longleftrightarrow> cluster_Get ?roles (role_Namespace r) (role_Name r) = Inr r"
    by (rule cluster_Get_iff[symmetric]) (simp add: example_roles role_key_def)
qed (simp_all add: example_roles role_key_def)

end
