(* ===== verification/Binding_Controller.thy ===== *)
theory Binding_Controller
  imports Policy Object_Hold Conditions Role_Inheritance
begin

text \<open>
  The PolicyBinding controller (\<open>policybinding_controller.go\<close>): validation of the
  target and the subjects of a binding, the guard and the lock around the write of its
  tuples, the status conditions, the finalizer, and which bindings are queued again when
  a ProtectedResource or a Role changes. The API server, the REST mapper and the finalizer
  registry are fields of the reconciler; log output is left out.
\<close>

section \<open>Model\<close>

text \<open>A PolicyBinding with the parts of its metadata and status the controller handles.\<close>

record BindingObject = PolicyBinding +
  pb_Generation :: int
  pb_Finalizers :: "string list"
  pb_ObservedGeneration :: int
  pb_Conditions :: "Condition list"

record RESTMapping =
  mapping_GVK :: "string \<times> string \<times> string"
  mapping_Namespaced :: bool

record 'w PolicyBindingReconciler =
  pbr_EnableSubresourceAuthorization :: bool
  pbr_Get :: "string \<Rightarrow> string \<Rightarrow> 'w \<Rightarrow> BindingObject result"
  pbr_GetSubject :: "string \<Rightarrow> string \<Rightarrow> string \<Rightarrow> 'w \<Rightarrow> K8sObject result"
  pbr_GetUnstructured :: "string \<times> string \<times> string \<Rightarrow> string \<Rightarrow> string \<Rightarrow> 'w \<Rightarrow> K8sObject result"
  pbr_ListPolicyBindings :: "'w \<Rightarrow> BindingObject list result"
  pbr_ListRoles :: "'w \<Rightarrow> Role list result"
  pbr_Update :: "BindingObject \<Rightarrow> 'w \<Rightarrow> (unit, 'w) call"
  pbr_UpdateObject :: "K8sObject \<Rightarrow> 'w \<Rightarrow> (K8sObject, 'w) call"
  pbr_StatusUpdate :: "BindingObject \<Rightarrow> 'w \<Rightarrow> (unit, 'w) call"
  pbr_K8sClient :: "'w PolicyK8sClient"
  pbr_RESTMapping :: "string \<Rightarrow> string \<Rightarrow> 'w \<Rightarrow> RESTMapping result"
  pbr_NoKindMatchError :: "string \<Rightarrow> string \<Rightarrow> string"
  pbr_GroupKind_String :: "string \<Rightarrow> string \<Rightarrow> string"
  pbr_FgaClient :: "'w OpenFGAServiceClient"
  pbr_StoreID :: string
  pbr_Finalizers :: "(BindingObject \<Rightarrow> 'w \<Rightarrow> (unit, 'w) comp) \<Rightarrow> BindingObject \<Rightarrow> 'w \<Rightarrow> (bool \<times> BindingObject, 'w) comp"
  pbr_ModelIDProvider :: "'w ModelIDProvider option"
  pbr_MaxConcurrentReconciles :: int
  pbr_Locks :: "'w ObjectLocks"
  pbr_Util :: FinalizerUtil
  pbr_SetStatusCondition :: SetStatusCondition

definition policyBindingFinalizerKey :: string where "policyBindingFinalizerKey = ''iam.miloapis.com/policybinding''"
definition ConditionTypeSubjectValid :: string where "ConditionTypeSubjectValid = ''SubjectValid''"
definition ConditionTypeTargetValid :: string where "ConditionTypeTargetValid = ''TargetValid''"
definition ConditionTypeRoleValid :: string where "ConditionTypeRoleValid = ''RoleValid''"
definition reasonWaitingForTarget :: string where "reasonWaitingForTarget = ''WaitingForTarget''"
definition defaultPolicyBindingMaxConcurrentReconciles :: int where "defaultPolicyBindingMaxConcurrentReconciles = 8"
definition iam_group :: string where "iam_group = ''iam.miloapis.com''"

definition policyBindingMaxConcurrentReconciles :: "('w, 'z) PolicyBindingReconciler_scheme \<Rightarrow> int" where
  "policyBindingMaxConcurrentReconciles r =
     (if pbr_MaxConcurrentReconciles r > 0 then pbr_MaxConcurrentReconciles r else defaultPolicyBindingMaxConcurrentReconciles)"

definition pb_set_condition ::
    "('w, 'z) PolicyBindingReconciler_scheme \<Rightarrow> string \<Rightarrow> string \<Rightarrow> string \<Rightarrow> string \<Rightarrow> int \<Rightarrow> BindingObject \<Rightarrow> BindingObject" where
  "pb_set_condition r t status reason message generation pb =
     pb\<lparr>pb_Conditions := pbr_SetStatusCondition r (pb_Conditions pb)
       \<lparr>cond_Type = t, cond_Status = status, cond_Reason = reason, cond_Message = message, cond_ObservedGeneration = generation\<rparr>\<rparr>"

definition pb_status :: "BindingObject \<Rightarrow> int \<times> Condition list" where
  "pb_status pb = (pb_ObservedGeneration pb, pb_Conditions pb)"

text \<open>The binding a policy reconciler is given is a copy of the object.\<close>

definition binding_of :: "BindingObject \<Rightarrow> PolicyBinding" where
  "binding_of pb = PolicyBinding.truncate pb"

subsection \<open>Reading references\<close>

definition object_key ::
    "('w, 'z) PolicyBindingReconciler_scheme \<Rightarrow> string \<Rightarrow> string \<Rightarrow> string \<Rightarrow> string \<Rightarrow> 'w \<Rightarrow> (RESTMapping \<times> string \<times> string) result" where
  "object_key r apiGroup kind name namespace w =
     try_pure (pbr_RESTMapping r apiGroup kind w) (\<lambda>e. e)
       (\<lambda>mapping.
          if mapping_Namespaced mapping
          then if namespace = [] then Inl (MissingNamespaceError (pbr_GroupKind_String r apiGroup kind) name)
               else Inr (mapping, namespace, name)
          else Inr (mapping, [], name))"

definition getSubjectResource ::
    "('w, 'z) PolicyBindingReconciler_scheme \<Rightarrow> string \<Rightarrow> string \<Rightarrow> string \<Rightarrow> string \<Rightarrow> 'w \<Rightarrow> K8sObject result" where
  "getSubjectResource r apiGroup kind name namespace w =
     try_pure (object_key r apiGroup kind name namespace w) (\<lambda>e. e)
       (\<lambda>(mapping, key_namespace, key_name).
          if kind = ''User'' \<or> kind = ''Group'' \<or> kind = ''ServiceAccount''
          then pbr_GetSubject r kind key_namespace key_name w
          else Inl (ExternalError None False True (pbr_NoKindMatchError r apiGroup kind)))"

definition getUnstructuredResourceAndMapping ::
    "('w, 'z) PolicyBindingReconciler_scheme \<Rightarrow> string \<Rightarrow> string \<Rightarrow> string \<Rightarrow> string \<Rightarrow> 'w \<Rightarrow> K8sObject result" where
  "getUnstructuredResourceAndMapping r apiGroup kind name namespace w =
     try_pure (object_key r apiGroup kind name namespace w) (\<lambda>e. e)
       (\<lambda>(mapping, key_namespace, key_name). pbr_GetUnstructured r (mapping_GVK mapping) key_namespace key_name w)"

subsection \<open>The target\<close>

definition serviceKind_index :: "ProtectedResource \<Rightarrow> string list" where
  "serviceKind_index pr =
     (if ServiceRef_Name (pr_Spec pr) = [] \<or> spec_Kind (pr_Spec pr) = [] then []
      else [ServiceRef_Name (pr_Spec pr) @ ''/'' @ spec_Kind (pr_Spec pr)])"

definition validateResourceType ::
    "('w, 'z) PolicyBindingReconciler_scheme \<Rightarrow> string \<Rightarrow> string \<Rightarrow> 'w \<Rightarrow> (bool \<times> string) result" where
  "validateResourceType r apiGroup kind w =
     (if apiGroup = [] \<or> kind = [] then Inr (False, ''APIGroup or Kind is empty.'')
      else try_pure (ListProtectedResources (pbr_K8sClient r) w) (WrapError ''failed to list ProtectedResources by service/kind index'')
        (\<lambda>prs.
           if length (filter (\<lambda>pr. apiGroup @ ''/'' @ kind \<in> set (serviceKind_index pr)) prs) = 0
           then Inr (False, ''No ProtectedResource found defining type '' @ quoted (apiGroup @ ''/'' @ kind) @ ''.'')
           else Inr (True, ''Resource type is registered.'')))"

definition uid_mismatch_message :: "string \<Rightarrow> string \<Rightarrow> string \<Rightarrow> string \<Rightarrow> string \<Rightarrow> string" where
  "uid_mismatch_message kind name namespace found wanted =
     ''The '' @ kind @ '' '' @ quoted name @ '' in namespace '' @ quoted (if namespace = [] then ''cluster-scoped'' else namespace) @
     '' has UID '' @ quoted found @ '', but the PolicyBinding references UID '' @ quoted wanted @
     ''. Update the PolicyBinding to use the correct UID, or delete and recreate the PolicyBinding.''"

text \<open>The results say whether the target is valid, whether it is merely missing, and what the binding's conditions are now.\<close>

definition validateResourceRef ::
    "('w, 'z) PolicyBindingReconciler_scheme \<Rightarrow> BindingObject \<Rightarrow> ResourceReference \<Rightarrow> int \<Rightarrow> 'w \<Rightarrow> (bool \<times> bool \<times> BindingObject) result" where
  "validateResourceRef r pb resourceRef currentGeneration w =
     try_pure (validateResourceType r (ref_APIGroup resourceRef) (ref_Kind resourceRef) w) (\<lambda>e. e)
       (\<lambda>(isKnownType, typeValidationReason).
          if \<not> isKnownType
          then Inr (False, False, pb_set_condition r ConditionTypeTargetValid ''False'' ReasonValidationFailed
                 (''Target resource type is not registered or ambiguously defined: '' @ typeValidationReason) currentGeneration pb)
          else (case getUnstructuredResourceAndMapping r (ref_APIGroup resourceRef) (ref_Kind resourceRef) (ref_Name resourceRef) (ref_Namespace resourceRef) w of
              Inl err \<Rightarrow>
                let failed = (\<lambda>reason errMsg. Inr (False, IsNotFound err, pb_set_condition r ConditionTypeTargetValid ''False'' reason errMsg currentGeneration pb))
                in if IsNoMatchError err
                   then failed ''TargetKindNotRecognized''
                     (''Target Kind '' @ quoted (ref_Kind resourceRef) @ '' in group '' @ quoted (ref_APIGroup resourceRef) @ '' not recognized by the API server.'')
                   else if IsNotFound err
                   then failed ''TargetNotFound''
                     (''Target resource '' @ ref_Kind resourceRef @ ''/'' @ ref_Name resourceRef @ '' (namespace: '' @ quoted (ref_Namespace resourceRef) @ '') not found.'')
                   else (case err of
                       MissingNamespaceError gk name \<Rightarrow> failed ''TargetNamespaceMissing'' (Error err)
                     | _ \<Rightarrow> Inl (WrapError (''failed to validate target '' @ ref_Kind resourceRef @ ''/'' @ ref_Name resourceRef) err))
            | Inr fetchedTarget \<Rightarrow>
                if obj_UID fetchedTarget \<noteq> ref_UID resourceRef
                then Inr (False, False, pb_set_condition r ConditionTypeTargetValid ''False'' ''TargetUIDMismatch''
                       (uid_mismatch_message (ref_Kind resourceRef) (ref_Name resourceRef) (ref_Namespace resourceRef) (obj_UID fetchedTarget) (ref_UID resourceRef))
                       currentGeneration pb)
                else Inr (True, False, pb_set_condition r ConditionTypeTargetValid ''True'' ReasonValidationSuccessful
                       ''ResourceRef validated successfully.'' currentGeneration pb)))"

definition validateResourceKind ::
    "('w, 'z) PolicyBindingReconciler_scheme \<Rightarrow> BindingObject \<Rightarrow> ResourceKindRef \<Rightarrow> int \<Rightarrow> 'w \<Rightarrow> (bool \<times> BindingObject) result" where
  "validateResourceKind r pb resourceKind currentGeneration w =
     try_pure (validateResourceType r (kind_APIGroup resourceKind) (kind_Kind resourceKind) w) (\<lambda>e. e)
       (\<lambda>(isKnownType, typeValidationReason).
          if \<not> isKnownType
          then Inr (False, pb_set_condition r ConditionTypeTargetValid ''False'' ReasonValidationFailed
                 (''Resource kind is not registered or ambiguously defined: '' @ typeValidationReason) currentGeneration pb)
          else Inr (True, pb_set_condition r ConditionTypeTargetValid ''True'' ReasonValidationSuccessful
                 ''ResourceKind validated successfully.'' currentGeneration pb))"

definition reconcileResourceSelectorValidation ::
    "('w, 'z) PolicyBindingReconciler_scheme \<Rightarrow> BindingObject \<Rightarrow> int \<Rightarrow> 'w \<Rightarrow> (bool \<times> bool \<times> BindingObject) result" where
  "reconcileResourceSelectorValidation r pb currentGeneration w =
     (case sel_ResourceRef (pb_ResourceSelector pb) of
        Some ref \<Rightarrow> validateResourceRef r pb ref currentGeneration w
      | None \<Rightarrow> (case sel_ResourceKind (pb_ResourceSelector pb) of
          Some rk \<Rightarrow> try_pure (validateResourceKind r pb rk currentGeneration w) (\<lambda>e. e) (\<lambda>(isValid, pb). Inr (isValid, False, pb))
        | None \<Rightarrow> Inl (ErrorString ''ResourceSelector is empty'')))"

subsection \<open>The subjects\<close>

definition isSystemGroup :: "Subject \<Rightarrow> bool" where
  "isSystemGroup subject \<longleftrightarrow> subject_Kind subject = ''Group'' \<and> HasPrefix (subject_Name subject) ''system:''"

fun subjects_loop ::
    "('w, 'z) PolicyBindingReconciler_scheme \<Rightarrow> 'w \<Rightarrow> Subject list \<Rightarrow> bool \<times> bool \<times> string list \<Rightarrow> (bool \<times> bool \<times> string list) result" where
  "subjects_loop r w [] acc = Inr acc"
| "subjects_loop r w (subject # subjects) (subjectsValid, subjectMissing, validationMessages) =
     (let invalid = (\<lambda>missing reason. subjects_loop r w subjects
            (False, missing, validationMessages @ [subject_Kind subject @ ''/'' @ subject_Name subject @ '' ('' @ reason @ '')'']))
      in if isSystemGroup subject then subjects_loop r w subjects (subjectsValid, subjectMissing, validationMessages)
         else if subject_UID subject = [] then invalid subjectMissing ''UIDMissing''
         else (case getSubjectResource r iam_group (subject_Kind subject) (subject_Name subject) (subject_Namespace subject) w of
             Inl err \<Rightarrow>
               if IsNoMatchError err then invalid subjectMissing ''KindNotRecognized''
               else if IsNotFound err
               then if subject_Kind subject = ''ServiceAccount''
                    then subjects_loop r w subjects (subjectsValid, subjectMissing, validationMessages)
                    else invalid True ''NotFound''
               else (case err of
                   MissingNamespaceError gk name \<Rightarrow> invalid subjectMissing ''NamespaceMissing''
                 | _ \<Rightarrow> Inl (WrapError (''failed to validate subject '' @ subject_Kind subject @ ''/'' @ subject_Name subject) err))
           | Inr fetchedSubject \<Rightarrow>
               if obj_UID fetchedSubject \<noteq> subject_UID subject then invalid subjectMissing ''UIDMismatch''
               else subjects_loop r w subjects (subjectsValid, subjectMissing, validationMessages)))"

definition validatePolicyBindingSubjects ::
    "('w, 'z) PolicyBindingReconciler_scheme \<Rightarrow> BindingObject \<Rightarrow> 'w \<Rightarrow> (bool \<times> bool \<times> string list) result" where
  "validatePolicyBindingSubjects r pb w = subjects_loop r w (pb_Subjects pb) (True, False, [])"

definition reconcileSubjectValidation ::
    "('w, 'z) PolicyBindingReconciler_scheme \<Rightarrow> BindingObject \<Rightarrow> 'w \<Rightarrow> (bool \<times> bool \<times> BindingObject) result" where
  "reconcileSubjectValidation r pb w =
     try_pure (validatePolicyBindingSubjects r pb w) (WrapError ''failed to validate PolicyBinding subjects'')
       (\<lambda>(subjectsAreValid, subjectMissing, subjectValidationMessages).
          if \<not> subjectsAreValid
          then Inr (False, subjectMissing, pb_set_condition r ConditionTypeSubjectValid ''False'' ReasonValidationFailed
                 (''Validation failed: The following subject issues were found: '' @ Join subjectValidationMessages ''; '') 0 pb)
          else Inr (True, False, pb_set_condition r ConditionTypeSubjectValid ''True'' ReasonValidationSuccessful
                 ''All subjects validated successfully.'' 0 pb))"

subsection \<open>Status\<close>

definition updatePolicyBindingStatus ::
    "('w, 'z) PolicyBindingReconciler_scheme \<Rightarrow> BindingObject \<Rightarrow> int \<times> Condition list \<Rightarrow> int \<Rightarrow> 'w \<Rightarrow> (BindingObject, 'w) call" where
  "updatePolicyBindingStatus r pb oldStatus observedGen w =
     (let pb = pb\<lparr>pb_ObservedGeneration := observedGen\<rparr>
      in if oldStatus \<noteq> pb_status pb then try_call (pbr_StatusUpdate r pb w) (\<lambda>e. e) (\<lambda>_ w. (Inr pb, w))
         else (Inr pb, w))"

subsection \<open>Writing under the target's lock\<close>

definition targetGuard :: "('w, 'z) PolicyBindingReconciler_scheme \<Rightarrow> BindingObject \<Rightarrow> ('w \<Rightarrow> (string, 'w) call) option" where
  "targetGuard r pb =
     (case sel_ResourceRef (pb_ResourceSelector pb) of
        None \<Rightarrow> None
      | Some ref \<Rightarrow>
          if \<not> isHeldKind (ref_APIGroup ref) (ref_Kind ref) then None
          else Some (\<lambda>w.
            case getUnstructuredResourceAndMapping r (ref_APIGroup ref) (ref_Kind ref) (ref_Name ref) (ref_Namespace ref) w of
              Inl err \<Rightarrow> if IsNotFound err then (Inr (whyNotHeld holdMissing (ref_Kind ref) (ref_Name ref)), w) else (Inl err, w)
            | Inr target \<Rightarrow>
                try_call (holdTarget (pbr_Util r) (pbr_UpdateObject r) target (ref_UID ref) w) (\<lambda>e. e)
                  (\<lambda>h w. (Inr (whyNotHeld h (ref_Kind ref) (ref_Name ref)), w))))"

definition policy_reconciler :: "('w, 'z) PolicyBindingReconciler_scheme \<Rightarrow> ('w \<Rightarrow> (string, 'w) call) option \<Rightarrow> 'w PolicyReconciler" where
  "policy_reconciler r guard =
     \<lparr>pol_EnableSubresourceAuthorization = pbr_EnableSubresourceAuthorization r, pol_StoreID = pbr_StoreID r, pol_Client = pbr_FgaClient r,
      pol_K8sClient = pbr_K8sClient r, pol_ModelIDProvider = pbr_ModelIDProvider r, pol_TargetGuard = guard\<rparr>"

definition reconcilePolicyLocked ::
    "('w, 'z) PolicyBindingReconciler_scheme \<Rightarrow> 'w PolicyReconciler \<Rightarrow> BindingObject \<Rightarrow> 'w \<Rightarrow> (unit, 'w) comp" where
  "reconcilePolicyLocked r policyReconciler pb w =
     (if pol_TargetGuard policyReconciler \<noteq> None
      then (case TargetObjectFromResourceSelector (pb_ResourceSelector pb) of
              Inl err \<Rightarrow> Some (Inl err, w)
            | Inr object \<Rightarrow> with_lock (pbr_Locks r) object (ReconcilePolicy policyReconciler (binding_of pb)) w)
      else ReconcilePolicy policyReconciler (binding_of pb) w)"

text \<open>The result of a reconcile is \<open>Requeue\<close>.\<close>

definition deferWrite ::
    "('w, 'z) PolicyBindingReconciler_scheme \<Rightarrow> BindingObject \<Rightarrow> int \<times> Condition list \<Rightarrow> int \<Rightarrow> string \<Rightarrow> 'w \<Rightarrow> (bool, 'w) call" where
  "deferWrite r pb oldStatus currentGeneration reason w =
     (let pb = pb_set_condition r ''Ready'' ''False'' reasonWaitingForTarget (''No permissions were written, because '' @ reason @ ''. Retrying.'') 0 pb
      in try_call (updatePolicyBindingStatus r pb oldStatus currentGeneration w)
           (WrapError ''failed to update PolicyBinding status after deferring its write'') (\<lambda>_ w. (Inr True, w)))"

definition openfga_failed ::
    "('w, 'z) PolicyBindingReconciler_scheme \<Rightarrow> BindingObject \<Rightarrow> int \<times> Condition list \<Rightarrow> int \<Rightarrow> go_error \<Rightarrow> 'w \<Rightarrow> (bool, 'w) call" where
  "openfga_failed r pb oldStatus currentGeneration err w =
     (case As_TargetNotHeldError err of
        Some reason \<Rightarrow> deferWrite r pb oldStatus currentGeneration reason w
      | None \<Rightarrow>
          let roleMissing = Contains (Error err) ''not found'' \<and> Contains (Error err) (''role '' @ [CHR 0x27]);
              reason = (if roleMissing then ''RoleNotFoundForBinding'' else ''BindingCreationFailed'');
              pb = (if roleMissing then pb_set_condition r ConditionTypeRoleValid ''False'' reason (Error err) 0 pb else pb);
              pb = pb_set_condition r ''Ready'' ''False'' reason (''Failed to create authorization binding: '' @ Error err) 0 pb
          in (Inl err, snd (updatePolicyBindingStatus r pb oldStatus currentGeneration w)))"

definition openfga_done ::
    "('w, 'z) PolicyBindingReconciler_scheme \<Rightarrow> BindingObject \<Rightarrow> int \<times> Condition list \<Rightarrow> int \<Rightarrow> 'w \<Rightarrow> (bool, 'w) call" where
  "openfga_done r pb oldStatus currentGeneration w =
     (let pb = pb_set_condition r ConditionTypeRoleValid ''True'' ReasonValidationSuccessful ''Role validated successfully.'' 0 pb;
          pb = pb_set_condition r ''Ready'' ''True'' ''ReconciliationSuccessful'' ''PolicyBinding reconciled successfully.'' 0 pb
      in try_call (updatePolicyBindingStatus r pb oldStatus currentGeneration w)
           (WrapError ''failed to update PolicyBinding status after successful reconciliation'') (\<lambda>_ w. (Inr False, w)))"

definition reconcileOpenFGAPolicy ::
    "('w, 'z) PolicyBindingReconciler_scheme \<Rightarrow> BindingObject \<Rightarrow> int \<times> Condition list \<Rightarrow> int \<Rightarrow> 'w \<Rightarrow> (bool, 'w) comp" where
  "reconcileOpenFGAPolicy r pb oldStatus currentGeneration w =
     (case reconcilePolicyLocked r (policy_reconciler r (targetGuard r pb)) pb w of
        None \<Rightarrow> None
      | Some (Inl err, w) \<Rightarrow> Some (openfga_failed r pb oldStatus currentGeneration err w)
      | Some (Inr _, w) \<Rightarrow> Some (openfga_done r pb oldStatus currentGeneration w))"

subsection \<open>Reconcile\<close>

definition Binding_Finalize :: "('w, 'z) PolicyBindingReconciler_scheme \<Rightarrow> BindingObject \<Rightarrow> 'w \<Rightarrow> (unit, 'w) comp" where
  "Binding_Finalize r pb w =
     go_try (DeletePolicy (policy_reconciler r None) (binding_of pb) w)
       (WrapError ''failed to delete OpenFGA policy during finalization'') (\<lambda>_ w. Some (Inr (), w))"

definition not_ready ::
    "('w, 'z) PolicyBindingReconciler_scheme \<Rightarrow> string \<Rightarrow> string \<Rightarrow> string \<Rightarrow> bool \<Rightarrow> BindingObject \<Rightarrow> int \<times> Condition list \<Rightarrow> int \<Rightarrow> 'w \<Rightarrow>
     (bool, 'w) comp" where
  "not_ready r reason message wrap missing pb oldStatus currentGeneration w =
     (let pb = pb_set_condition r ''Ready'' ''False'' reason message 0 pb
      in go_try (Some (updatePolicyBindingStatus r pb oldStatus currentGeneration w)) (WrapError wrap) (\<lambda>_ w. Some (Inr missing, w)))"

definition invalid_selector ::
    "('w, 'z) PolicyBindingReconciler_scheme \<Rightarrow> bool \<Rightarrow> BindingObject \<Rightarrow> int \<times> Condition list \<Rightarrow> int \<Rightarrow> 'w \<Rightarrow> (bool, 'w) comp" where
  "invalid_selector r targetMissing pb oldStatus currentGeneration w =
     go_try (if pbr_EnableSubresourceAuthorization r
             then DeletePolicy ((policy_reconciler r None)\<lparr>pol_EnableSubresourceAuthorization := True\<rparr>) (binding_of pb) w
             else Some (Inr (), w))
       (WrapError ''failed to revoke invalid resource selector'')
       (\<lambda>_ w. not_ready r ''ResourceSelectorValidationFailed'' ''ResourceSelector validation failed. See TargetValid condition for details.''
          ''failed to update PolicyBinding status after ResourceSelector validation failure'' targetMissing pb oldStatus currentGeneration w)"

definition reconcile_binding ::
    "('w, 'z) PolicyBindingReconciler_scheme \<Rightarrow> BindingObject \<Rightarrow> int \<times> Condition list \<Rightarrow> int \<Rightarrow> 'w \<Rightarrow> (bool, 'w) comp" where
  "reconcile_binding r pb oldStatus currentGeneration w =
     go_try (Some (reconcileResourceSelectorValidation r pb currentGeneration w, w)) (WrapError ''failed to validate resource selector'')
       (\<lambda>(isValid, targetMissing, pb) w.
          if \<not> isValid then invalid_selector r targetMissing pb oldStatus currentGeneration w
          else go_try (Some (reconcileSubjectValidation r pb w, w)) (WrapError ''failed to validate subjects'')
            (\<lambda>(isValid, subjectMissing, pb) w.
               if \<not> isValid
               then not_ready r ''SubjectValidationFailed'' ''Subject validation failed. See SubjectValid condition for details.''
                      ''failed to update PolicyBinding status after subject validation failure'' subjectMissing pb oldStatus currentGeneration w
               else go_try (Some (updatePolicyBindingStatus r pb oldStatus currentGeneration w))
                      (WrapError ''failed to update PolicyBinding status after successful validations before OpenFGA reconciliation'')
                 (\<lambda>pb w. go_try (reconcileOpenFGAPolicy r pb (pb_status pb) currentGeneration w)
                    (WrapError ''failed to reconcile OpenFGA policy'') (\<lambda>requeue w. Some (Inr requeue, w)))))"

definition PolicyBinding_Reconcile ::
    "('w, 'z) PolicyBindingReconciler_scheme \<Rightarrow> string \<Rightarrow> string \<Rightarrow> 'w \<Rightarrow> (bool, 'w) comp" where
  "PolicyBinding_Reconcile r namespace name w =
     (case pbr_Get r namespace name w of
        Inl err \<Rightarrow> if IsNotFound err then Some (Inr False, w) else Some (Inl (WrapError ''failed to get PolicyBinding'' err), w)
      | Inr pb \<Rightarrow>
          let oldStatus = pb_status pb; currentGeneration = pb_Generation pb in
          go_try (pbr_Finalizers r (Binding_Finalize r) pb w) (WrapError ''failed to finalize PolicyBinding'')
            (\<lambda>(Updated, pb) w.
               if Updated then go_try (Some (pbr_Update r pb w)) (\<lambda>e. e) (\<lambda>_ w. Some (Inr True, w))
               else if pb_DeletionTimestamp pb then Some (Inr False, w)
               else reconcile_binding r pb oldStatus currentGeneration w))"

subsection \<open>Indexes and queueing\<close>

definition targetObject_index :: "('z) PolicyBinding_scheme \<Rightarrow> string list" where
  "targetObject_index pb = (case TargetObjectFromResourceSelector (pb_ResourceSelector pb) of Inl _ \<Rightarrow> [] | Inr key \<Rightarrow> [key])"

definition targetKind_index :: "('z) PolicyBinding_scheme \<Rightarrow> string list" where
  "targetKind_index pb = (case TargetKindFromResourceSelector (pb_ResourceSelector pb) of Inl _ \<Rightarrow> [] | Inr key \<Rightarrow> [key])"

definition roleRef_index :: "('z) PolicyBinding_scheme \<Rightarrow> string list" where
  "roleRef_index pb = [RoleRefIndexKey (pb_Namespace pb) (pb_RoleRef pb)]"

definition requests_for :: "BindingObject list \<Rightarrow> (string \<times> string) list" where
  "requests_for pbs = map (\<lambda>pb. (pb_Namespace pb, pb_Name pb)) pbs"

definition enqueuePolicyBindingsForProtectedResourceChange ::
    "('w, 'z) PolicyBindingReconciler_scheme \<Rightarrow> ProtectedResource \<Rightarrow> 'w \<Rightarrow> (string \<times> string) list" where
  "enqueuePolicyBindingsForProtectedResourceChange r protectedResource w =
     (case pbr_ListPolicyBindings r w of Inl err \<Rightarrow> []
      | Inr pbs \<Rightarrow>
          requests_for (if \<not> pbr_EnableSubresourceAuthorization r
            then filter (\<lambda>pb. ServiceRef_Name (pr_Spec protectedResource) @ ''/'' @ spec_Kind (pr_Spec protectedResource) \<in> set (targetKind_index pb)) pbs
            else pbs))"

definition enqueuePolicyBindingsForRoleChange ::
    "('w, 'z) PolicyBindingReconciler_scheme \<Rightarrow> Role \<Rightarrow> 'w \<Rightarrow> (string \<times> string) list option" where
  "enqueuePolicyBindingsForRoleChange r changedRole w =
     (case rolesDependentOnRole (pbr_ListRoles r w) (role_Namespace changedRole, role_Name changedRole) of
        None \<Rightarrow> None
      | Some (Inl err) \<Rightarrow> Some []
      | Some (Inr affectedRoles) \<Rightarrow>
          Some (concat (map (\<lambda>(boundNamespace, boundName).
            let roleKey = RoleRefIndexKey boundNamespace \<lparr>roleRef_Name = boundName, roleRef_Namespace = boundNamespace\<rparr>
            in case pbr_ListPolicyBindings r w of Inl err \<Rightarrow> []
               | Inr pbs \<Rightarrow> requests_for (filter (\<lambda>pb. roleKey \<in> set (roleRef_index pb)) pbs)) affectedRoles)))"


section \<open>What a valid binding is\<close>

definition registered :: "ProtectedResource list \<Rightarrow> string \<Rightarrow> string \<Rightarrow> bool" where
  "registered prs apiGroup kind \<longleftrightarrow> apiGroup \<noteq> [] \<and> kind \<noteq> [] \<and>
     (\<exists>pr \<in> set prs. ServiceRef_Name (pr_Spec pr) \<noteq> [] \<and> spec_Kind (pr_Spec pr) \<noteq> [] \<and>
        ServiceRef_Name (pr_Spec pr) @ ''/'' @ spec_Kind (pr_Spec pr) = apiGroup @ ''/'' @ kind)"

definition type_ok :: "('w, 'z) PolicyBindingReconciler_scheme \<Rightarrow> string \<Rightarrow> string \<Rightarrow> 'w \<Rightarrow> bool" where
  "type_ok r apiGroup kind w \<longleftrightarrow> (\<exists>prs. ListProtectedResources (pbr_K8sClient r) w = Inr prs \<and> registered prs apiGroup kind)"

definition target_ok :: "('w, 'z) PolicyBindingReconciler_scheme \<Rightarrow> BindingObject \<Rightarrow> 'w \<Rightarrow> bool" where
  "target_ok r pb w \<longleftrightarrow>
     (case sel_ResourceRef (pb_ResourceSelector pb) of
        Some ref \<Rightarrow> type_ok r (ref_APIGroup ref) (ref_Kind ref) w \<and>
          (\<exists>obj. getUnstructuredResourceAndMapping r (ref_APIGroup ref) (ref_Kind ref) (ref_Name ref) (ref_Namespace ref) w = Inr obj \<and>
             obj_UID obj = ref_UID ref)
      | None \<Rightarrow> (case sel_ResourceKind (pb_ResourceSelector pb) of
          Some rk \<Rightarrow> type_ok r (kind_APIGroup rk) (kind_Kind rk) w
        | None \<Rightarrow> False))"

definition subject_ok :: "('w, 'z) PolicyBindingReconciler_scheme \<Rightarrow> Subject \<Rightarrow> 'w \<Rightarrow> bool" where
  "subject_ok r s w \<longleftrightarrow> isSystemGroup s \<or> subject_UID s \<noteq> [] \<and>
     (case getSubjectResource r iam_group (subject_Kind s) (subject_Name s) (subject_Namespace s) w of
        Inr obj \<Rightarrow> obj_UID obj = subject_UID s
      | Inl err \<Rightarrow> subject_Kind s = ''ServiceAccount'' \<and> IsNotFound err \<and> \<not> IsNoMatchError err)"

lemma validateResourceType_iff:
  "validateResourceType r apiGroup kind w = Inr (known, reason) \<Longrightarrow> known \<longleftrightarrow> type_ok r apiGroup kind w"
  by (auto simp: validateResourceType_def type_ok_def registered_def serviceKind_index_def filter_empty_conv go_calls split: if_splits)

lemma pb_set_condition_simps [simp]:
  "pb_ResourceSelector (pb_set_condition r t s re m g pb) = pb_ResourceSelector pb"
  "pb_Subjects (pb_set_condition r t s re m g pb) = pb_Subjects pb"
  "pb_ObservedGeneration (pb_set_condition r t s re m g pb) = pb_ObservedGeneration pb"
  "binding_of (pb_set_condition r t s re m g pb) = binding_of pb"
  by (simp_all add: pb_set_condition_def binding_of_def PolicyBinding.truncate_def)

lemma selector_validation:
  assumes "reconcileResourceSelectorValidation r pb g w = Inr (valid, missing, pb')"
  shows "valid \<longleftrightarrow> target_ok r pb w" and "binding_of pb' = binding_of pb" and "pb_ResourceSelector pb' = pb_ResourceSelector pb"
    and "pb_Subjects pb' = pb_Subjects pb"
proof -
  consider (inst) ref where "sel_ResourceRef (pb_ResourceSelector pb) = Some ref" "validateResourceRef r pb ref g w = Inr (valid, missing, pb')"
    | (kind) rk where "sel_ResourceRef (pb_ResourceSelector pb) = None" "sel_ResourceKind (pb_ResourceSelector pb) = Some rk"
        "validateResourceKind r pb rk g w = Inr (valid, pb')"
    using assms by (auto simp: reconcileResourceSelectorValidation_def go_calls split: option.splits)
  then have "(valid \<longleftrightarrow> target_ok r pb w) \<and> binding_of pb' = binding_of pb \<and> pb_ResourceSelector pb' = pb_ResourceSelector pb \<and>
      pb_Subjects pb' = pb_Subjects pb"
  proof cases
    case inst
    then show ?thesis
      by (auto simp: validateResourceRef_def target_ok_def go_calls Let_def dest!: validateResourceType_iff
          split: if_splits sum.splits go_error.splits)
  next
    case kind
    then show ?thesis
      by (auto simp: validateResourceKind_def target_ok_def go_calls dest!: validateResourceType_iff split: if_splits)
  qed
  then show "valid \<longleftrightarrow> target_ok r pb w" and "binding_of pb' = binding_of pb" and "pb_ResourceSelector pb' = pb_ResourceSelector pb"
    and "pb_Subjects pb' = pb_Subjects pb" by auto
qed

lemma subjects_loop_valid:
  "subjects_loop r w ss (v, m, msgs) = Inr (valid, missing, out) \<Longrightarrow> valid \<longleftrightarrow> v \<and> (\<forall>s \<in> set ss. subject_ok r s w)"
proof (induction ss arbitrary: v m msgs)
  case (Cons s ss)
  from Cons.prems obtain v' m' msgs' where "subjects_loop r w ss (v', m', msgs') = Inr (valid, missing, out)"
    and "v' \<longleftrightarrow> v \<and> subject_ok r s w"
    by (auto simp: Let_def subject_ok_def split: if_splits sum.splits go_error.splits)
  with Cons.IH show ?case by auto
qed simp

lemma subject_validation:
  assumes "reconcileSubjectValidation r pb w = Inr (valid, missing, pb')"
  shows "valid \<longleftrightarrow> (\<forall>s \<in> set (pb_Subjects pb). subject_ok r s w)" and "binding_of pb' = binding_of pb"
    and "pb_ResourceSelector pb' = pb_ResourceSelector pb"
proof -
  from assms obtain v m msgs where loop: "subjects_loop r w (pb_Subjects pb) (True, False, []) = Inr (v, m, msgs)" and "valid = v"
    and "binding_of pb' = binding_of pb \<and> pb_ResourceSelector pb' = pb_ResourceSelector pb"
    by (auto simp: reconcileSubjectValidation_def validatePolicyBindingSubjects_def go_calls split: if_splits)
  then show "valid \<longleftrightarrow> (\<forall>s \<in> set (pb_Subjects pb). subject_ok r s w)" and "binding_of pb' = binding_of pb"
    and "pb_ResourceSelector pb' = pb_ResourceSelector pb" using subjects_loop_valid[OF loop] by auto
qed


section \<open>The guard of a write\<close>

lemma whyNotHeld_empty: "whyNotHeld h kind name = [] \<longleftrightarrow> h = holdHeld"
  by (cases h) simp_all

text \<open>The guard lets a write pass only when the target was read live and is held under the UID the binding names.\<close>

lemma targetGuard_passes:
  assumes "targetGuard r pb = Some guard" and "guard w = (Inr [], w')"
  shows "\<exists>ref target. sel_ResourceRef (pb_ResourceSelector pb) = Some ref \<and>
    getUnstructuredResourceAndMapping r (ref_APIGroup ref) (ref_Kind ref) (ref_Name ref) (ref_Namespace ref) w = Inr target \<and>
    holdTarget (pbr_Util r) (pbr_UpdateObject r) target (ref_UID ref) w = (Inr holdHeld, w')"
  using assms by (auto simp: targetGuard_def go_calls whyNotHeld_empty split: option.splits if_splits sum.splits)

section \<open>Outcome of a reconcile\<close>

text \<open>
  \<open>binding_server\<close>: status updates of bindings and the locks change neither the tuples
  nor the Roles and ProtectedResources; \<open>same_reads\<close> is the latter. \<open>binding_store\<close>: a
  successful status update is what the next read of the binding returns, and writing tuples,
  moving the model ID, updating a target and locking leave every binding as it is.
  \<open>binding_registry\<close>: the finalizer registry on bindings that are not being deleted.
\<close>

definition same_reads :: "('w, 'z) PolicyBindingReconciler_scheme \<Rightarrow> 'w \<Rightarrow> 'w \<Rightarrow> bool" where
  "same_reads r w w' \<longleftrightarrow> (\<forall>ns n. GetRole (pbr_K8sClient r) ns n w' = GetRole (pbr_K8sClient r) ns n w) \<and>
     ListProtectedResources (pbr_K8sClient r) w' = ListProtectedResources (pbr_K8sClient r) w"

definition binding_server :: "('w, 'z) PolicyBindingReconciler_scheme \<Rightarrow> ('w \<Rightarrow> TupleKey set) \<Rightarrow> bool" where
  "binding_server r stored \<longleftrightarrow>
     (\<forall>pb w res w'. pbr_StatusUpdate r pb w = (res, w') \<longrightarrow> stored w' = stored w \<and> same_reads r w w') \<and>
     (\<forall>k w. stored (LockKey (pbr_Locks r) k w) = stored w \<and> same_reads r w (LockKey (pbr_Locks r) k w) \<and>
        stored (UnlockKey (pbr_Locks r) k w) = stored w)"

definition binding_store :: "('w, 'z) PolicyBindingReconciler_scheme \<Rightarrow> bool" where
  "binding_store r \<longleftrightarrow>
     (\<forall>pb w w'. pbr_StatusUpdate r pb w = (Inr (), w') \<longrightarrow> pbr_Get r (pb_Namespace pb) (pb_Name pb) w' = Inr pb) \<and>
     (\<forall>rq w res w' ns n. Write (pbr_FgaClient r) rq w = (res, w') \<longrightarrow> pbr_Get r ns n w' = pbr_Get r ns n w) \<and>
     (\<forall>p set_id i w ns n. pbr_ModelIDProvider r = Some p \<longrightarrow> SetModelID p = Some set_id \<longrightarrow>
        pbr_Get r ns n (set_id i w) = pbr_Get r ns n w) \<and>
     (\<forall>obj w res w' ns n. pbr_UpdateObject r obj w = (res, w') \<longrightarrow> pbr_Get r ns n w' = pbr_Get r ns n w) \<and>
     (\<forall>k w ns n. pbr_Get r ns n (LockKey (pbr_Locks r) k w) = pbr_Get r ns n w \<and>
        pbr_Get r ns n (UnlockKey (pbr_Locks r) k w) = pbr_Get r ns n w)"

abbreviation binding_registry :: "('f \<Rightarrow> BindingObject \<Rightarrow> 'w \<Rightarrow> (bool \<times> BindingObject, 'w) comp) \<Rightarrow> bool" where
  "binding_registry \<equiv> adds_finalizer Some policyBindingFinalizerKey pb_DeletionTimestamp pb_Finalizers pb_Finalizers_update"

lemma policy_reconciler_simps [simp]:
  "pol_K8sClient (policy_reconciler r g) = pbr_K8sClient r"
  "pol_EnableSubresourceAuthorization (policy_reconciler r g) = pbr_EnableSubresourceAuthorization r"
  "pol_TargetGuard (policy_reconciler r g) = g" "pol_Client (policy_reconciler r g) = pbr_FgaClient r"
  "pol_ModelIDProvider (policy_reconciler r g) = pbr_ModelIDProvider r"
  by (simp_all add: policy_reconciler_def)

lemma same_reads_policy:
  assumes "same_reads r w w'"
  shows "getHierarchicalPermissionsForSelector (policy_reconciler r g) sel w' = getHierarchicalPermissionsForSelector (policy_reconciler r g) sel w"
    and "fetchRole (policy_reconciler r g) b w' = fetchRole (policy_reconciler r g) b w"
  using assms by (simp_all add: same_reads_def getHierarchicalPermissionsForSelector_def fetchRole_def Let_def)

lemma updatePolicyBindingStatus_ok:
  assumes "binding_server r stored" and "updatePolicyBindingStatus r pb old g w = (res, w')"
  shows "stored w' = stored w" and "same_reads r w w'" and "res = Inr pb' \<Longrightarrow> pb' = pb\<lparr>pb_ObservedGeneration := g\<rparr>"
proof -
  have "w' = w \<or> (\<exists>r1. pbr_StatusUpdate r (pb\<lparr>pb_ObservedGeneration := g\<rparr>) w = (r1, w'))"
    and res: "res = Inr pb' \<Longrightarrow> pb' = pb\<lparr>pb_ObservedGeneration := g\<rparr>"
    using assms(2) by (auto simp: updatePolicyBindingStatus_def Let_def try_call_def split: if_splits prod.splits sum.splits)
  then show "stored w' = stored w" and "same_reads r w w'" using assms(1) by (auto simp: binding_server_def same_reads_def)
  show "res = Inr pb' \<Longrightarrow> pb' = pb\<lparr>pb_ObservedGeneration := g\<rparr>" by (rule res)
qed

text \<open>The tuples that the binding's role grants its subjects on its target, as far as the cluster of \<open>w\<close> says.\<close>

definition binding_grants :: "('w, 'z) PolicyBindingReconciler_scheme \<Rightarrow> PolicyBinding \<Rightarrow> 'w \<Rightarrow> TupleKey set option" where
  "binding_grants r b w =
     (case (TargetObjectFromResourceSelector (pb_ResourceSelector b),
            getHierarchicalPermissionsForSelector (policy_reconciler r None) (pb_ResourceSelector b) w, fetchRole (policy_reconciler r None) b w) of
        (Inr target, Inr valid, Inr role) \<Rightarrow>
          (case buildPermissionTuples (policy_reconciler r None) b role target valid of Inr ts \<Rightarrow> Some (set ts) | Inl _ \<Rightarrow> None)
      | _ \<Rightarrow> None)"

lemma guard_irrelevant:
  "getHierarchicalPermissionsForSelector (policy_reconciler r g) sel w = getHierarchicalPermissionsForSelector (policy_reconciler r None) sel w"
  "fetchRole (policy_reconciler r g) b w = fetchRole (policy_reconciler r None) b w"
  "buildPermissionTuples (policy_reconciler r g) b role target valid = buildPermissionTuples (policy_reconciler r None) b role target valid"
  by (simp_all add: getHierarchicalPermissionsForSelector_def fetchRole_def buildPermissionTuples_def Let_def split: sum.split)

lemma ReconcilePolicy_grants:
  assumes "policy_service (policy_reconciler r g) stored listing position" and "unconditional (stored w)"
    and "ReconcilePolicy (policy_reconciler r g) b w = Some (Inr (), w')"
  shows "\<exists>ts. binding_grants r b w = Some ts \<and> ts \<subseteq> stored w'"
proof -
  have "reconcilePolicy (policy_reconciler r g) b w = Some (Inr (), w')" using assms(3) by (auto simp: ReconcilePolicy_def go_calls)
  with assms(1,2) show ?thesis
  proof (rule reconcilePolicy_effect)
    fix target valid role desired
    assume *: "TargetObjectFromResourceSelector (pb_ResourceSelector b) = Inr target"
      "getHierarchicalPermissionsForSelector (policy_reconciler r g) (pb_ResourceSelector b) w = Inr valid"
      "fetchRole (policy_reconciler r g) b w = Inr role" "buildPermissionTuples (policy_reconciler r g) b role target valid = Inr desired"
    and effect: "if owned (stored w) b target \<subseteq> set desired then stored w' = stored w \<union> set desired
      else \<exists>sib. siblingDesiredTuples (policy_reconciler r g) b target valid w = Inr sib \<and>
        stored w' = (stored w - {t \<in> owned (stored w) b target - set desired. tuple_string t \<notin> tuple_string ` set sib}) \<union> set desired"
    have "binding_grants r b w = Some (set desired)"
      using *(1) *(2-4)[unfolded guard_irrelevant[of r g]] by (simp add: binding_grants_def)
    moreover have "set desired \<subseteq> stored w'" using effect by (auto split: if_splits)
    ultimately show ?thesis by blast
  qed
qed

lemma reconcilePolicyLocked_grants:
  assumes server: "binding_server r stored" and pol: "policy_service (policy_reconciler r g) stored listing position"
    and "unconditional (stored w)" and run: "reconcilePolicyLocked r (policy_reconciler r g) pb w = Some (Inr (), w')"
  shows "\<exists>ts. binding_grants r (binding_of pb) w = Some ts \<and> ts \<subseteq> stored w'"
proof (cases "g = None")
  case True
  with ReconcilePolicy_grants[OF pol assms(3)] run show ?thesis by (simp add: reconcilePolicyLocked_def)
next
  case False
  with run obtain object w1 where
    rec: "ReconcilePolicy (policy_reconciler r g) (binding_of pb) (LockKey (pbr_Locks r) object w) = Some (Inr (), w1)"
    and w': "w' = UnlockKey (pbr_Locks r) object w1"
    by (auto simp: reconcilePolicyLocked_def with_lock_def split: sum.splits)
  let ?w = "LockKey (pbr_Locks r) object w"
  have same: "stored ?w = stored w" "same_reads r w ?w" "stored w' = stored w1" using server by (simp_all add: binding_server_def w')
  from ReconcilePolicy_grants[OF pol _ rec] assms(3) same(1) obtain ts where "binding_grants r (binding_of pb) ?w = Some ts" "ts \<subseteq> stored w1" by auto
  moreover have "binding_grants r (binding_of pb) ?w = binding_grants r (binding_of pb) w"
    unfolding binding_grants_def same_reads_policy[OF same(2)] by simp
  ultimately show ?thesis using same(3) by simp
qed


definition binding_ready :: "BindingObject \<Rightarrow> string option" where
  "binding_ready pb = map_option cond_Status (condition_of (pb_Conditions pb) ''Ready'')"

subsection \<open>Reconciling a policy leaves the bindings as they are\<close>

definition untouched :: "('w, 'z) PolicyReconciler_scheme \<Rightarrow> ('w \<Rightarrow> 'a) \<Rightarrow> bool" where
  "untouched r f \<longleftrightarrow>
     (\<forall>rq w res w'. Write (pol_Client r) rq w = (res, w') \<longrightarrow> f w' = f w) \<and>
     (\<forall>p set_id i w. pol_ModelIDProvider r = Some p \<longrightarrow> SetModelID p = Some set_id \<longrightarrow> f (set_id i w) = f w) \<and>
     (\<forall>guard w res w'. pol_TargetGuard r = Some guard \<longrightarrow> guard w = (res, w') \<longrightarrow> f w' = f w)"

lemma untouched_model_id: "untouched r f \<Longrightarrow> f (set_model_id (pol_ModelIDProvider r) a b w) = f w"
  by (auto simp: untouched_def set_model_id_def split: option.splits)

lemma untouched_retry:
  assumes "untouched r f" and "writeWithModelTransitionRetry (pol_Client r) rq (pol_ModelIDProvider r) w = (res, w')"
  shows "f w' = f w"
proof -
  obtain r1 w1 where w1: "Write (pol_Client r) rq w = (r1, w1)" by fastforce
  then have "f w1 = f w" using assms(1) unfolding untouched_def by blast
  moreover have "f w2 = f (set_model_id (pol_ModelIDProvider r) a b w1)"
    if "Write (pol_Client r) rq' (set_model_id (pol_ModelIDProvider r) a b w1) = (r2, w2)" for rq' a b r2 w2
    using assms(1) that unfolding untouched_def by blast
  ultimately show ?thesis using assms w1 untouched_model_id[OF assms(1)]
    by (auto simp: writeWithModelTransitionRetry_def Let_def split: sum.splits option.splits if_splits prod.splits)
qed

lemma untouched_guarded:
  assumes "untouched r f" and "writeGuarded r rq added w = (res, w')"
  shows "f w' = f w"
proof -
  obtain r0 w0 where check: "checkTarget r added w = (r0, w0)" by fastforce
  then have "f w0 = f w"
    using assms(1) by (auto simp: untouched_def checkTarget_def try_call_def split: option.splits if_splits prod.splits sum.splits)
  with assms check untouched_retry[OF assms(1)] show ?thesis
    by (auto simp: writeGuarded_def try_call_def split: sum.splits prod.splits)
qed

lemma untouched_DeletePolicy:
  assumes "untouched r f" and "DeletePolicy r b w = Some (res, w')"
  shows "f w' = f w"
  using DeletePolicy_outcome[OF assms(2)] untouched_retry[OF assms(1)] by metis

lemma untouched_ReconcilePolicy:
  assumes "untouched r f" and "ReconcilePolicy r b w = Some (res, w')"
  shows "f w' = f w"
proof -
  from assms(2) obtain r1 where "reconcilePolicy r b w = Some (r1, w')"
    by (auto simp: ReconcilePolicy_def elim!: go_try_Some_cases)
  from reconcilePolicy_outcome[OF this] show ?thesis
    using untouched_DeletePolicy[OF assms(1)] untouched_guarded[OF assms(1)] by metis
qed

lemma targetGuard_keeps:
  assumes "binding_store r" and "targetGuard r pb = Some guard" and "guard w = (res, w')"
  shows "pbr_Get r ns n w' = pbr_Get r ns n w"
  using assms
  by (auto simp: targetGuard_def holdTarget_def holdWithFinalizer_def Let_def binding_store_def try_call_def
      split: option.splits if_splits sum.splits prod.splits)

lemma untouched_binding:
  assumes "binding_store r" and "g = None \<or> g = targetGuard r pb"
  shows "untouched (policy_reconciler r g) (pbr_Get r ns n)"
proof -
  have "pbr_Get r ns n w' = pbr_Get r ns n w" if "g = Some guard" "guard w = (res, w')" for guard w res w'
    using assms(2) that targetGuard_keeps[OF assms(1), of pb guard] by auto
  moreover have "pbr_Get r ns n w' = pbr_Get r ns n w" if "Write (pbr_FgaClient r) rq w = (res, w')" for rq w res w'
    using assms(1) that by (simp add: binding_store_def)
  moreover have "pbr_Get r ns n (set_id i w) = pbr_Get r ns n w"
    if "pbr_ModelIDProvider r = Some p" "SetModelID p = Some set_id" for p set_id i w
    using assms(1) that by (simp add: binding_store_def)
  ultimately show ?thesis by (simp add: untouched_def)
qed

lemma reconcilePolicyLocked_keeps:
  assumes store: "binding_store r" and run: "reconcilePolicyLocked r (policy_reconciler r (targetGuard r pb)) pb' w = Some (res, w')"
  shows "pbr_Get r ns n w' = pbr_Get r ns n w"
proof -
  note keeps = untouched_ReconcilePolicy[OF untouched_binding[OF store, of "targetGuard r pb" pb ns n]]
  have locks: "pbr_Get r ns n (LockKey (pbr_Locks r) k w) = pbr_Get r ns n w" "pbr_Get r ns n (UnlockKey (pbr_Locks r) k w) = pbr_Get r ns n w" for k w
    using store by (simp_all add: binding_store_def)
  from run show ?thesis
    using keeps by (auto simp: reconcilePolicyLocked_def with_lock_def locks split: if_splits sum.splits dest!: keeps)
qed

subsection \<open>The recorded status\<close>

text \<open>
  \<open>tracks\<close>: the object in hand is the named binding, and the one that is stored has the
  status that the update will be compared with. \<open>ready_at\<close>: the stored binding carries the
  given generation and Ready condition.
\<close>

definition tracks :: "('w, 'z) PolicyBindingReconciler_scheme \<Rightarrow> string \<Rightarrow> string \<Rightarrow> int \<times> Condition list \<Rightarrow> BindingObject \<Rightarrow> 'w \<Rightarrow> bool" where
  "tracks r ns n old pb w \<longleftrightarrow> pb_Namespace pb = ns \<and> pb_Name pb = n \<and> (\<exists>pb0. pbr_Get r ns n w = Inr pb0 \<and> pb_status pb0 = old)"

definition ready_at :: "('w, 'z) PolicyBindingReconciler_scheme \<Rightarrow> string \<Rightarrow> string \<Rightarrow> int \<Rightarrow> string \<Rightarrow> 'w \<Rightarrow> bool" where
  "ready_at r ns n g status w \<longleftrightarrow>
     (\<exists>pb. pbr_Get r ns n w = Inr pb \<and> pb_ObservedGeneration pb = g \<and> binding_ready pb = Some status)"

lemma tracks_later: "tracks r ns n old pb w \<Longrightarrow> pbr_Get r ns n w' = pbr_Get r ns n w \<Longrightarrow> tracks r ns n old pb w'"
  by (simp add: tracks_def)

lemma binding_of_names:
  assumes "binding_of pb' = binding_of pb"
  shows "pb_Namespace pb' = pb_Namespace pb" and "pb_Name pb' = pb_Name pb"
  using assms by (simp_all add: binding_of_def PolicyBinding.truncate_def)

lemma tracks_cong:
  assumes "binding_of pb' = binding_of pb" and "tracks r ns n old pb w"
  shows "tracks r ns n old pb' w"
  using assms(2) unfolding tracks_def binding_of_names[OF assms(1)] .

lemma tracks_set_condition: "tracks r ns n old pb w \<Longrightarrow> tracks r ns n old (pb_set_condition r t s re m g pb) w"
  by (rule tracks_cong[OF pb_set_condition_simps(4)])

lemma updatePolicyBindingStatus_records:
  assumes "binding_store r" and "tracks r ns n old pb w" and "updatePolicyBindingStatus r pb old g w = (Inr pb', w')"
  shows "pb' = pb\<lparr>pb_ObservedGeneration := g\<rparr> \<and> tracks r ns n (pb_status pb') pb' w'"
proof (cases "old = pb_status (pb\<lparr>pb_ObservedGeneration := g\<rparr>)")
  case True
  with assms(2,3) show ?thesis by (auto simp: updatePolicyBindingStatus_def Let_def tracks_def)
next
  case False
  with assms(3) have upd: "pbr_StatusUpdate r pb' w = (Inr (), w')" and pb': "pb' = pb\<lparr>pb_ObservedGeneration := g\<rparr>"
    by (auto simp: updatePolicyBindingStatus_def Let_def go_calls)
  have "pbr_Get r (pb_Namespace pb') (pb_Name pb') w' = Inr pb'" using assms(1) upd by (simp add: binding_store_def)
  with pb' assms(2) show ?thesis by (simp add: tracks_def)
qed

lemma ready_atI:
  assumes "condition_setter (pbr_SetStatusCondition r)" and "binding_store r" and "tracks r ns n old pb w"
    and upd: "updatePolicyBindingStatus r (pb_set_condition r ''Ready'' s re m 0 pb) old g w = (Inr pb', w')"
  shows "ready_at r ns n g s w'"
proof -
  from updatePolicyBindingStatus_records[OF assms(2) tracks_set_condition[OF assms(3)] upd]
  obtain pb0 where pb0: "pbr_Get r ns n w' = Inr pb0" "pb_status pb0 = pb_status pb'"
    and pb': "pb' = (pb_set_condition r ''Ready'' s re m 0 pb)\<lparr>pb_ObservedGeneration := g\<rparr>" unfolding tracks_def by blast
  have "pb_ObservedGeneration pb' = g \<and> binding_ready pb' = Some s"
    using assms(1) by (simp add: pb' binding_ready_def pb_set_condition_def condition_of_set)
  with pb0 show ?thesis by (auto simp: ready_at_def pb_status_def binding_ready_def)
qed

lemma not_ready_outcome:
  assumes setter: "condition_setter (pbr_SetStatusCondition r)" and server: "binding_server r stored" and store: "binding_store r"
    and at: "tracks r ns n old pb w" and run: "not_ready r reason message wrap missing pb old g w = Some (Inr requeue, w')"
  shows "ready_at r ns n g ''False'' w' \<and> stored w' = stored w"
proof -
  from run obtain pb' where upd: "updatePolicyBindingStatus r (pb_set_condition r ''Ready'' ''False'' reason message 0 pb) old g w = (Inr pb', w')"
    by (auto simp: not_ready_def Let_def go_calls)
  with ready_atI[OF setter store at upd] updatePolicyBindingStatus_ok(1)[OF server upd] show ?thesis by simp
qed

lemma policy_service_unguarded:
  "policy_service (policy_reconciler r g) stored listing position \<Longrightarrow> policy_service (policy_reconciler r None) stored listing position"
  by (simp add: policy_service_def)

lemma DeletePolicy_shrinks:
  assumes "policy_service r stored listing position" and "unconditional (stored w)" and "DeletePolicy r b w = Some (Inr (), w')"
  shows "stored w' \<subseteq> stored w"
  using assms by (rule DeletePolicy_effect) (auto split: if_splits)

lemma invalid_selector_outcome:
  assumes setter: "condition_setter (pbr_SetStatusCondition r)" and server: "binding_server r stored" and store: "binding_store r"
    and pol: "policy_service (policy_reconciler r g) stored listing position" and uncond: "unconditional (stored w)"
    and at: "tracks r ns n old pb w" and run: "invalid_selector r missing pb old gen w = Some (Inr requeue, w')"
  shows "ready_at r ns n gen ''False'' w' \<and> stored w' \<subseteq> stored w"
proof -
  from run obtain w1 reason message wrap where del: "if pbr_EnableSubresourceAuthorization r
      then DeletePolicy ((policy_reconciler r None)\<lparr>pol_EnableSubresourceAuthorization := True\<rparr>) (binding_of pb) w = Some (Inr (), w1) else w1 = w"
    and last: "not_ready r reason message wrap missing pb old gen w1 = Some (Inr requeue, w')"
    by (auto simp: invalid_selector_def go_calls split: if_splits)
  have w1: "DeletePolicy (policy_reconciler r None) (binding_of pb) w = Some (Inr (), w1) \<or> w1 = w"
    using del by (cases "pbr_EnableSubresourceAuthorization r") (simp_all add: policy_reconciler_def)
  then have "stored w1 \<subseteq> stored w"
    using DeletePolicy_shrinks[OF policy_service_unguarded[OF pol] uncond] by blast
  moreover have "pbr_Get r ns n w1 = pbr_Get r ns n w"
    using w1 untouched_DeletePolicy[OF untouched_binding[OF store, of None]] by blast
  ultimately show ?thesis using not_ready_outcome[OF setter server store tracks_later[OF at] last] by simp
qed

lemma reconcileOpenFGAPolicy_outcome:
  assumes setter: "condition_setter (pbr_SetStatusCondition r)" and server: "binding_server r stored" and store: "binding_store r"
    and pol: "policy_service (policy_reconciler r (targetGuard r pb)) stored listing position" and uncond: "unconditional (stored w)"
    and at: "tracks r ns n old pb w" and run: "reconcileOpenFGAPolicy r pb old gen w = Some (Inr requeue, w')"
  shows "if requeue then ready_at r ns n gen ''False'' w'
    else ready_at r ns n gen ''True'' w' \<and> (\<exists>ts. binding_grants r (binding_of pb) w = Some ts \<and> ts \<subseteq> stored w')"
proof -
  obtain res w1 where locked: "reconcilePolicyLocked r (policy_reconciler r (targetGuard r pb)) pb w = Some (res, w1)"
    and rest: "case res of Inl err \<Rightarrow> openfga_failed r pb old gen err w1 = (Inr requeue, w')
      | Inr _ \<Rightarrow> openfga_done r pb old gen w1 = (Inr requeue, w')"
    using run by (auto simp: reconcileOpenFGAPolicy_def split: option.splits prod.splits sum.splits)
  have at1: "tracks r ns n old pb w1" using tracks_later[OF at reconcilePolicyLocked_keeps[OF store locked]] .
  show ?thesis
  proof (cases res)
    case (Inl err)
    with rest obtain reason message pb' where requeue
      and "updatePolicyBindingStatus r (pb_set_condition r ''Ready'' ''False'' reason message 0 pb) old gen w1 = (Inr pb', w')"
      by (auto simp: openfga_failed_def deferWrite_def Let_def go_calls split: option.splits)
    with ready_atI[OF setter store at1] show ?thesis by auto
  next
    case (Inr _)
    with rest obtain m1 m2 re1 re2 pb' where "\<not> requeue"
      and upd: "updatePolicyBindingStatus r (pb_set_condition r ''Ready'' ''True'' re2 m2 0
        (pb_set_condition r ConditionTypeRoleValid ''True'' re1 m1 0 pb)) old gen w1 = (Inr pb', w')"
      by (auto simp: openfga_done_def Let_def go_calls)
    from ready_atI[OF setter store tracks_set_condition[OF at1] upd] \<open>\<not> requeue\<close> Inr locked reconcilePolicyLocked_grants[OF server pol uncond]
      updatePolicyBindingStatus_ok(1)[OF server upd] show ?thesis by simp
  qed
qed

lemma targetGuard_cong: "pb_ResourceSelector pb' = pb_ResourceSelector pb \<Longrightarrow> targetGuard r pb' = targetGuard r pb"
  by (simp add: targetGuard_def)

lemma reconcile_binding_outcome:
  assumes setter: "condition_setter (pbr_SetStatusCondition r)" and server: "binding_server r stored" and store: "binding_store r"
    and pol: "policy_service (policy_reconciler r (targetGuard r pb)) stored listing position" and uncond: "unconditional (stored w)"
    and at: "tracks r ns n old pb w" and run: "reconcile_binding r pb old gen w = Some (Inr requeue, w')"
  defines "ok \<equiv> target_ok r pb w \<and> (\<forall>s \<in> set (pb_Subjects pb). subject_ok r s w)"
  shows "ready_at r ns n gen (if ok \<and> \<not> requeue then ''True'' else ''False'') w' \<and>
    (if ok then requeue \<or> (\<exists>ts. binding_grants r (binding_of pb) w = Some ts \<and> ts \<subseteq> stored w') else stored w' \<subseteq> stored w)"
proof -
  from run obtain valid missing pb1 where sel: "reconcileResourceSelectorValidation r pb gen w = Inr (valid, missing, pb1)"
    by (auto simp: reconcile_binding_def go_calls)
  note sel_facts = selector_validation[OF sel]
  show ?thesis
  proof (cases valid)
    case False
    with run sel have "invalid_selector r missing pb1 old gen w = Some (Inr requeue, w')" by (simp add: reconcile_binding_def)
    from invalid_selector_outcome[OF setter server store pol uncond tracks_cong[OF sel_facts(2) at] this] False sel_facts(1) show ?thesis by (simp add: ok_def)
  next
    case True
    from run sel True obtain valid2 missing2 pb2 where sub: "reconcileSubjectValidation r pb1 w = Inr (valid2, missing2, pb2)"
      by (auto simp: reconcile_binding_def go_calls)
    note sub_facts = subject_validation[OF sub]
    have ok: "ok \<longleftrightarrow> valid2" using sel_facts(1,4) sub_facts(1) True by (simp add: ok_def)
    show ?thesis
    proof (cases valid2)
      case False
      with run sel True sub obtain reason message wrap where "not_ready r reason message wrap missing2 pb2 old gen w = Some (Inr requeue, w')"
        by (auto simp: reconcile_binding_def)
      from not_ready_outcome[OF setter server store tracks_cong[OF sub_facts(2) tracks_cong[OF sel_facts(2) at]] this] False ok
      show ?thesis by simp
    next
      case valid2: True
      with run sel True sub obtain pb3 w3 where upd: "updatePolicyBindingStatus r pb2 old gen w = (Inr pb3, w3)"
        and rec: "reconcileOpenFGAPolicy r pb3 (pb_status pb3) gen w3 = Some (Inr requeue, w')"
        by (auto simp: reconcile_binding_def go_calls)
      note upd_facts = updatePolicyBindingStatus_ok[OF server upd]
      have pb3: "binding_of pb3 = binding_of pb" "pb_ResourceSelector pb3 = pb_ResourceSelector pb"
        using upd_facts(3)[OF refl] sub_facts(2,3) sel_facts(2,3) by (simp_all add: binding_of_def PolicyBinding.truncate_def)
      have "binding_grants r (binding_of pb3) w3 = binding_grants r (binding_of pb) w"
        unfolding binding_grants_def pb3(1) same_reads_policy[OF upd_facts(2)] by simp
      moreover have "policy_service (policy_reconciler r (targetGuard r pb3)) stored listing position" "unconditional (stored w3)"
        using pol uncond upd_facts(1) unfolding targetGuard_cong[OF pb3(2)] by simp_all
      moreover have "tracks r ns n (pb_status pb3) pb3 w3"
        using updatePolicyBindingStatus_records[OF store tracks_cong[OF sub_facts(2) tracks_cong[OF sel_facts(2) at]] upd] by blast
      ultimately show ?thesis using reconcileOpenFGAPolicy_outcome[OF setter server store _ _ _ rec, of listing position ns n] ok valid2
        by (auto split: if_splits)
    qed
  qed
qed

text \<open>
  C10. A reconcile of a live binding that returns without error: when the binding does not
  carry the finalizer yet, it is updated to carry it, nothing else happens and another round
  is asked for. When it carries it, the binding that is stored afterwards has the status of
  the generation that was read, and is Ready exactly when the target is of a registered type
  and exists under the referenced UID, every subject is a system group or exists under its
  UID, and the write was not put off; then every tuple that the role grants the subjects on
  the target is stored. When the binding is invalid, no tuple was added.
\<close>

theorem PolicyBinding_Reconcile_outcome:
  assumes setter: "condition_setter (pbr_SetStatusCondition r)" and server: "binding_server r stored" and store: "binding_store r"
    and reg: "binding_registry (pbr_Finalizers r)"
    and pol: "policy_service (policy_reconciler r (targetGuard r pb)) stored listing position" and uncond: "unconditional (stored w)"
    and get: "pbr_Get r (pb_Namespace pb) (pb_Name pb) w = Inr pb" and live: "\<not> pb_DeletionTimestamp pb"
    and run: "PolicyBinding_Reconcile r (pb_Namespace pb) (pb_Name pb) w = Some (Inr requeue, w')"
  shows "let ok = target_ok r pb w \<and> (\<forall>s \<in> set (pb_Subjects pb). subject_ok r s w) in
    if policyBindingFinalizerKey \<notin> set (pb_Finalizers pb)
    then requeue \<and> pbr_Update r (pb\<lparr>pb_Finalizers := pb_Finalizers pb @ [policyBindingFinalizerKey]\<rparr>) w = (Inr (), w')
    else (\<exists>pb'. pbr_Get r (pb_Namespace pb) (pb_Name pb) w' = Inr pb' \<and> pb_ObservedGeneration pb' = pb_Generation pb \<and>
        binding_ready pb' = Some (if ok \<and> \<not> requeue then ''True'' else ''False'')) \<and>
      (if ok then requeue \<or> (\<exists>ts. binding_grants r (binding_of pb) w = Some ts \<and> ts \<subseteq> stored w') else stored w' \<subseteq> stored w)"
proof (cases "policyBindingFinalizerKey \<in> set (pb_Finalizers pb)")
  case True
  have "reconcile_binding r pb (pb_status pb) (pb_Generation pb) w = Some (Inr requeue, w')"
    using run live adds_finalizer_run[OF reg, of pb] True by (simp add: PolicyBinding_Reconcile_def get Let_def)
  moreover have "tracks r (pb_Namespace pb) (pb_Name pb) (pb_status pb) pb w" using get by (simp add: tracks_def)
  ultimately show ?thesis
    using reconcile_binding_outcome[OF setter server store pol uncond] True unfolding ready_at_def Let_def by auto
next
  case False
  with run live adds_finalizer_run[OF reg, of pb] show ?thesis
    by (auto simp: PolicyBinding_Reconcile_def get go_calls Let_def)
qed


section \<open>Queueing\<close>

lemma enqueuePolicyBindingsForRoleChange_complete:
  assumes roles: "pbr_ListRoles r w = Inr roles" and pbs: "pbr_ListPolicyBindings r w = Inr pbs"
    and queue: "enqueuePolicyBindingsForRoleChange r changedRole w = Some requests" and pb: "pb \<in> set pbs"
  obtains deps where "rolesDependentOnRole (Inr roles) (role_Namespace changedRole, role_Name changedRole) = Some (Inr deps)"
    and "(ref_namespace (pb_Namespace pb) (pb_RoleRef pb), roleRef_Name (pb_RoleRef pb)) \<in> set deps \<Longrightarrow>
      (pb_Namespace pb, pb_Name pb) \<in> set requests"
proof -
  from queue roles obtain deps where deps: "rolesDependentOnRole (Inr roles) (role_Namespace changedRole, role_Name changedRole) = Some (Inr deps)"
    using rolesDependentOnRole_set[of roles "(role_Namespace changedRole, role_Name changedRole)"] by auto
  let ?key = "(ref_namespace (pb_Namespace pb) (pb_RoleRef pb), roleRef_Name (pb_RoleRef pb))"
  have "RoleRefIndexKey (fst ?key) \<lparr>roleRef_Name = snd ?key, roleRef_Namespace = fst ?key\<rparr> \<in> set (roleRef_index pb)"
    by (simp add: roleRef_index_def RoleRefIndexKey_def ref_namespace_def Let_def)
  then have own: "pb \<in> set (filter (\<lambda>pb. RoleRefIndexKey (fst ?key) \<lparr>roleRef_Name = snd ?key, roleRef_Namespace = fst ?key\<rparr> \<in> set (roleRef_index pb)) pbs)"
    using pb by simp
  have reqs: "requests = concat (map (\<lambda>k. requests_for (filter (\<lambda>pb. RoleRefIndexKey (fst k) \<lparr>roleRef_Name = snd k, roleRef_Namespace = fst k\<rparr> \<in>
      set (roleRef_index pb)) pbs)) deps)"
    using queue by (simp add: enqueuePolicyBindingsForRoleChange_def roles pbs deps Let_def case_prod_unfold)
  have "(pb_Namespace pb, pb_Name pb) \<in> set requests" if "?key \<in> set deps"
    unfolding reqs set_concat set_map using that own by (intro UN_I[OF imageI]) (auto simp: requests_for_def)
  with deps show thesis by (rule that)
qed

text \<open>
  When a Role changes, appears or disappears and nothing else does, a binding that
  is not queued again is bound to a Role other than the changed one, and that Role's
  effective permissions are what they were.
\<close>

theorem unqueued_binding_keeps_permissions:
  assumes before: "lookup_ok Get" and after: "lookup_ok Get'"
    and same: "\<And>ns n. (ns, n) \<noteq> (role_Namespace changedRole, role_Name changedRole) \<Longrightarrow> Get ns n = Get' ns n"
    and listed: "\<And>s. s \<in> set roles \<longleftrightarrow> Get' (role_Namespace s) (role_Name s) = Inr s"
    and roles: "pbr_ListRoles r w = Inr roles" and pbs: "pbr_ListPolicyBindings r w = Inr pbs" and pb: "pb \<in> set pbs"
    and queue: "enqueuePolicyBindingsForRoleChange r changedRole w = Some requests" and out: "(pb_Namespace pb, pb_Name pb) \<notin> set requests"
    and bound: "Get' (ref_namespace (pb_Namespace pb) (pb_RoleRef pb)) (roleRef_Name (pb_RoleRef pb)) = Inr role"
  shows "Get (ref_namespace (pb_Namespace pb) (pb_RoleRef pb)) (roleRef_Name (pb_RoleRef pb)) = Inr role \<and>
    getAllEffectivePermissions Get role [] = getAllEffectivePermissions Get' role []"
proof -
  let ?key = "(ref_namespace (pb_Namespace pb) (pb_RoleRef pb), roleRef_Name (pb_RoleRef pb))"
  obtain deps where deps: "rolesDependentOnRole (Inr roles) (role_Namespace changedRole, role_Name changedRole) = Some (Inr deps)"
    and notin: "?key \<notin> set deps"
    using enqueuePolicyBindingsForRoleChange_complete[OF roles pbs queue pb] out by metis
  have key: "role_key role = ?key" using after bound by (simp add: lookup_ok_def role_key_def)
  have "(role_Namespace changedRole, role_Name changedRole) \<in> set deps"
    using rolesDependentOnRole_set[of roles "(role_Namespace changedRole, role_Name changedRole)"] deps by auto
  then have "?key \<noteq> (role_Namespace changedRole, role_Name changedRole)" using notin by metis
  then have "Get (fst ?key) (snd ?key) = Get' (fst ?key) (snd ?key)" by (intro same) simp
  moreover have "role \<in> set roles" using listed[of role] bound key by (simp add: role_key_def)
  then have "getAllEffectivePermissions Get role [] = getAllEffectivePermissions Get' role []"
    using role_change_outside_dependents[OF before after same listed deps] key notin by simp
  ultimately show ?thesis using bound by simp
qed


section \<open>Evaluations\<close>

definition found_object :: "string \<Rightarrow> string \<Rightarrow> string \<Rightarrow> K8sObject" where
  "found_object kind name uid =
     \<lparr>obj_Group = [], obj_Kind = kind, obj_Namespace = [], obj_Name = name, obj_UID = uid, obj_Deleting = False,
      obj_Generation = 1, obj_Finalizers = [], obj_OwnerReferences = []\<rparr>"

definition example_pb :: BindingObject where
  "example_pb = PolicyBinding.extend (example_binding ''b1'' ''viewer'')
     (BindingObject.fields 4 [policyBindingFinalizerKey] 3 [])"

text \<open>A world with the OpenFGA store and one binding.\<close>

record binding_world = mem_world +
  bw_binding :: BindingObject

definition example_binding_world :: binding_world where
  "example_binding_world = mem_world.extend example_store \<lparr>bw_binding = example_pb\<rparr>"

definition example_pbr :: "binding_world PolicyBindingReconciler" where
  "example_pbr =
     \<lparr>pbr_EnableSubresourceAuthorization = False,
      pbr_Get = (\<lambda>ns n w. if ns = pb_Namespace (bw_binding w) \<and> n = pb_Name (bw_binding w) then Inr (bw_binding w)
         else Inl (ExternalError None True False ''not found'')),
      pbr_GetSubject = (\<lambda>kind _ n _. Inr (found_object kind n ''1'')), pbr_GetUnstructured = (\<lambda>(_, _, kind) _ n _. Inr (found_object kind n ''2'')),
      pbr_ListPolicyBindings = (\<lambda>w. Inr [bw_binding w]), pbr_ListRoles = (\<lambda>_. Inr [role_a, role_b\<lparr>role_IncludedPermissions := []\<rparr>, role_c]),
      pbr_Update = (\<lambda>pb w. (Inr (), w\<lparr>bw_binding := pb\<rparr>)), pbr_UpdateObject = (\<lambda>obj w. (Inr obj, w)),
      pbr_StatusUpdate = (\<lambda>pb w. (Inr (), w\<lparr>bw_binding := pb\<rparr>)),
      pbr_K8sClient = example_K8sClient, pbr_RESTMapping = (\<lambda>grp kind _. Inr \<lparr>mapping_GVK = (grp, ''v1'', kind), mapping_Namespaced = False\<rparr>),
      pbr_NoKindMatchError = (\<lambda>_ _. []), pbr_GroupKind_String = (\<lambda>grp kind. kind @ ''.'' @ grp), pbr_FgaClient = mem_client, pbr_StoreID = ''s'',
      pbr_Finalizers = (\<lambda>f pb w. Some (Inr (registry_result policyBindingFinalizerKey pb_Finalizers pb_Finalizers_update pb), w)),
      pbr_ModelIDProvider = Some mem_provider, pbr_MaxConcurrentReconciles = 0,
      pbr_Locks = free_locks, pbr_Util = list_util, pbr_SetStatusCondition = put_condition\<rparr>"

lemma example_pb_simps [simp]:
  "pb_Namespace example_pb = ''ns''" "pb_Name example_pb = ''b1''" "pb_Generation example_pb = 4" "\<not> pb_DeletionTimestamp example_pb"
  "pb_Finalizers example_pb = [policyBindingFinalizerKey]" "bw_binding example_binding_world = example_pb"
  by (simp_all add: example_pb_def PolicyBinding.extend_def BindingObject.fields_def example_binding_def example_binding_world_def mem_world.extend_def)

lemma example_pbr_service: "policy_service (policy_reconciler example_pbr (targetGuard example_pbr example_pb)) mem_stored mem_listing length"
proof -
  have "targetGuard example_pbr example_pb = None"
    by (simp add: targetGuard_def example_pb_def example_binding_def PolicyBinding.extend_def isHeldKind_def)
  then show ?thesis
    by (simp add: policy_service_def example_pbr_def mem_paged_reads mem_atomic_writes mem_provider_keeps)
qed

lemma example_pbr_laws:
  "condition_setter (pbr_SetStatusCondition example_pbr)" "binding_server example_pbr mem_stored" "binding_store example_pbr"
  "binding_registry (pbr_Finalizers example_pbr)"
  by (simp_all add: example_pbr_def put_condition_setter binding_server_def same_reads_def free_locks_def mem_stored_def
      example_K8sClient_def adds_finalizer_def)
    (auto simp: binding_store_def mem_Write_def mem_provider_def free_locks_def split: if_splits)

theorem PolicyBinding_Reconcile_outcome_witness:
  "\<exists>w' pb'. PolicyBinding_Reconcile example_pbr ''ns'' ''b1'' example_binding_world = Some (Inr False, w') \<and>
     pbr_Get example_pbr ''ns'' ''b1'' w' = Inr pb' \<and> pb_ObservedGeneration pb' = 4 \<and> binding_ready pb' = Some ''True'' \<and>
     alice_tuple ''c.io/vms.list'' \<in> mem_stored w'"
proof -
  let ?w = example_binding_world
  have get: "pbr_Get example_pbr (pb_Namespace example_pb) (pb_Name example_pb) ?w = Inr example_pb" "\<not> pb_DeletionTimestamp example_pb"
    by (simp_all add: example_pbr_def)
  have uncond: "unconditional (mem_stored ?w)"
    by (simp add: unconditional_def mem_stored_def example_binding_world_def mem_world.extend_def example_store_def permission_tuple_def)
  define w' where "w' = snd (the (PolicyBinding_Reconcile example_pbr ''ns'' ''b1'' ?w))"
  have run: "PolicyBinding_Reconcile example_pbr (pb_Namespace example_pb) (pb_Name example_pb) ?w = Some (Inr False, w')"
    unfolding w'_def example_pb_simps by code_simp
  have type: "ListProtectedResources (pbr_K8sClient example_pbr) ?w = Inr example_prs"
    "registered example_prs ''rm.io'' ''Org''" by (simp_all add: example_pbr_def example_K8sClient_def registered_def example_prs_def example_pr_def)
  have "target_ok example_pbr example_pb ?w"
    using type by (simp add: target_ok_def type_ok_def example_pb_def PolicyBinding.extend_def example_binding_def
        getUnstructuredResourceAndMapping_def object_key_def found_object_def example_pbr_def)
  moreover have "\<forall>s \<in> set (pb_Subjects example_pb). subject_ok example_pbr s ?w" by code_simp
  moreover have "map_option (\<lambda>S. alice_tuple ''c.io/vms.list'' \<in> S) (binding_grants example_pbr (binding_of example_pb) ?w) = Some True"
    by code_simp
  ultimately show ?thesis
    using PolicyBinding_Reconcile_outcome[OF example_pbr_laws example_pbr_service uncond get run] run by (auto simp: Let_def)
qed

text \<open>\<open>b\<close> has lost its permissions; the binding of \<open>c\<close> is not queued.\<close>

theorem unqueued_binding_keeps_permissions_witness:
  "getAllEffectivePermissions (cluster_Get [role_a, role_b, role_c]) role_c [] =
   getAllEffectivePermissions (cluster_Get [role_a, role_b\<lparr>role_IncludedPermissions := []\<rparr>, role_c]) role_c []"
proof -
  let ?roles = "[role_a, role_b\<lparr>role_IncludedPermissions := []\<rparr>, role_c]"
  let ?pb = "example_pb\<lparr>pb_RoleRef := \<lparr>roleRef_Name = ''c'', roleRef_Namespace = []\<rparr>\<rparr>"
  let ?r = "example_pbr\<lparr>pbr_ListPolicyBindings := (\<lambda>_. Inr [?pb])\<rparr>"
  have oks: "lookup_ok (cluster_Get [role_a, role_b, role_c])" "lookup_ok (cluster_Get ?roles)"
    by (rule cluster_lookup_ok, auto simp: example_roles)+
  have same: "\<And>ns n. (ns, n) \<noteq> (role_Namespace role_b, role_Name role_b) \<Longrightarrow> cluster_Get [role_a, role_b, role_c] ns n = cluster_Get ?roles ns n"
    by (auto simp: cluster_Get_def example_roles)
  have listed: "\<And>s. s \<in> set ?roles \<longleftrightarrow> cluster_Get ?roles (role_Namespace s) (role_Name s) = Inr s"
    by (rule cluster_Get_iff[symmetric]) (simp add: example_roles role_key_def)
  have lists: "pbr_ListRoles ?r example_binding_world = Inr ?roles" "pbr_ListPolicyBindings ?r example_binding_world = Inr [?pb]" "?pb \<in> set [?pb]"
    by (simp_all add: example_pbr_def)
  have queue: "enqueuePolicyBindingsForRoleChange ?r role_b example_binding_world = Some []" by code_simp
  have bound: "cluster_Get ?roles (ref_namespace (pb_Namespace ?pb) (pb_RoleRef ?pb)) (roleRef_Name (pb_RoleRef ?pb)) = Inr role_c" by code_simp
  from unqueued_binding_keeps_permissions[OF oks same listed lists queue _ bound] show ?thesis by simp
qed


end
