(* ===== verification/Role_Controller.thy ===== *)
theory Role_Controller
  imports Role_Inheritance Memory_Store Conditions
begin

text \<open>
  The Role controller (\<open>role_controller.go\<close>) and the OpenFGA side of a Role
  (\<open>role_reconciler.go\<close>): validation of the effective permissions, the status
  conditions, the finalizer, and which Roles are queued again when a Role or a
  ProtectedResource changes. The API server, the finalizer registry of the controller
  runtime, \<open>meta.SetStatusCondition\<close> and the event recorder are fields of the
  reconciler. Log output is left out.
\<close>

section \<open>Model\<close>

text \<open>A Role with the parts of its metadata and status the controller handles.\<close>

record RoleObject = Role +
  role_Generation :: int
  role_Finalizers :: "string list"
  role_ObservedGeneration :: int
  role_Conditions :: "Condition list"

record 'w RoleReconciler =
  rr_EnableSubresourceAuthorization :: bool
  rr_Get :: "string \<Rightarrow> string \<Rightarrow> 'w \<Rightarrow> RoleObject result"
  rr_ListRoles :: "'w \<Rightarrow> RoleObject list result"
  rr_ListProtectedResources :: "'w \<Rightarrow> ProtectedResource list result"
  rr_Update :: "RoleObject \<Rightarrow> 'w \<Rightarrow> (unit, 'w) call"
  rr_StatusUpdate :: "RoleObject \<Rightarrow> 'w \<Rightarrow> (unit, 'w) call"
  rr_FgaClient :: "'w OpenFGAServiceClient"
  rr_StoreID :: string
  rr_ModelIDProvider :: "'w ModelIDProvider option"
  rr_Finalizers :: "(RoleObject \<Rightarrow> 'w \<Rightarrow> (unit, 'w) comp) \<Rightarrow> RoleObject \<Rightarrow> 'w \<Rightarrow> (bool \<times> RoleObject, 'w) comp"
  rr_SetStatusCondition :: SetStatusCondition
  rr_EventRecorder :: "(RoleObject \<Rightarrow> string \<Rightarrow> string \<Rightarrow> string \<Rightarrow> 'w \<Rightarrow> 'w) option"
  rr_MaxConcurrentReconciles :: int

definition roleFinalizerKey :: string where "roleFinalizerKey = ''iam.miloapis.com/openfga-role''"

definition defaultRoleMaxConcurrentReconciles :: int where "defaultRoleMaxConcurrentReconciles = 20"

definition maxConcurrentReconciles :: "('w, 'z) RoleReconciler_scheme \<Rightarrow> int" where
  "maxConcurrentReconciles r =
     (if rr_MaxConcurrentReconciles r > 0 then rr_MaxConcurrentReconciles r else defaultRoleMaxConcurrentReconciles)"

subsection \<open>role\_reconciler.go\<close>

definition TypeInternalRole :: string where "TypeInternalRole = ''iam.miloapis.com/InternalRole''"

definition ReconcileRole :: "RoleObject \<Rightarrow> unit result" where
  "ReconcileRole role = Inr ()"

definition DeleteRole :: "('w, 'z) RoleReconciler_scheme \<Rightarrow> RoleObject \<Rightarrow> 'w \<Rightarrow> (unit, 'w) comp" where
  "DeleteRole r role w =
     (let roleObjectIdentifier = TypeInternalRole @ '':'' @ role_UID role in
      case getTupleKeys (rr_FgaClient r) (rr_StoreID r) \<lparr>rk_User = [], rk_Relation = [], rk_Object = roleObjectIdentifier\<rparr> w of
        None \<Rightarrow> None
      | Some (Inl err) \<Rightarrow> Some (Inl (WrapError ''failed to get existing tuples'' err), w)
      | Some (Inr existingTupleKeys) \<Rightarrow>
          if length existingTupleKeys = 0 then Some (Inr (), w)
          else go_try (Some (Write (rr_FgaClient r)
                 \<lparr>wr_StoreId = rr_StoreID r, wr_AuthorizationModelId = ModelIDFrom (rr_ModelIDProvider r) w, wr_Writes = None,
                  wr_Deletes = Some \<lparr>deletes_TupleKeys = convertTuplesForDelete existingTupleKeys, deletes_OnMissing = []\<rparr>\<rparr> w))
               (WrapError ''failed to delete role'') (\<lambda>_ w. Some (Inr (), w)))"

definition Role_Finalize :: "('w, 'z) RoleReconciler_scheme \<Rightarrow> RoleObject \<Rightarrow> 'w \<Rightarrow> (unit, 'w) comp" where
  "Role_Finalize r role w =
     go_try (DeleteRole r role w) (WrapError ''failed to delete role configuration'') (\<lambda>_ w. Some (Inr (), w))"

subsection \<open>Messages\<close>

definition unresolvedRefStrings :: "unresolvedInheritedRole list \<Rightarrow> string list" where
  "unresolvedRefStrings refs = map unresolved_String refs"

definition unresolvedMessage :: "unresolvedInheritedRole list \<Rightarrow> string" where
  "unresolvedMessage refs =
     ''Role is degraded: permissions from resolvable inherited roles are applied, but '' @ format_nat (length refs) @
     '' inheritedRoles reference(s) could not be resolved: '' @ Join (unresolvedRefStrings refs) '', ''"

definition set_condition ::
    "('w, 'z) RoleReconciler_scheme \<Rightarrow> RoleObject \<Rightarrow> string \<Rightarrow> string \<Rightarrow> string \<Rightarrow> string \<Rightarrow> int \<Rightarrow> RoleObject" where
  "set_condition r role t status reason message generation =
     role\<lparr>role_Conditions := rr_SetStatusCondition r (role_Conditions role)
       \<lparr>cond_Type = t, cond_Status = status, cond_Reason = reason, cond_Message = message, cond_ObservedGeneration = generation\<rparr>\<rparr>"

definition setDegradedCondition ::
    "('w, 'z) RoleReconciler_scheme \<Rightarrow> RoleObject \<Rightarrow> unresolvedInheritedRole list \<Rightarrow> int \<Rightarrow> 'w \<Rightarrow> RoleObject \<times> 'w" where
  "setDegradedCondition r role unresolvedRoles generation w =
     (if length unresolvedRoles = 0
      then (set_condition r role ''Degraded'' ''False'' ''AllInheritedRolesResolved'' ''All inheritedRoles references resolved.'' generation, w)
      else
        let message = unresolvedMessage unresolvedRoles;
            role = set_condition r role ''Degraded'' ''True'' ''UnresolvedInheritedRoles'' message generation
        in (role, case rr_EventRecorder r of None \<Rightarrow> w
                  | Some Event \<Rightarrow> Event role ''Warning'' ''UnresolvedInheritedRoles'' message w))"

subsection \<open>Validation\<close>

fun invalid_loop :: "ProtectedResource list \<Rightarrow> string list \<Rightarrow> string list" where
  "invalid_loop protectedResources [] = []"
| "invalid_loop protectedResources (permStr # ps) =
     (case Parse permStr of
        None \<Rightarrow> (permStr @ '' (invalid format)'') # invalid_loop protectedResources ps
      | Some permission \<Rightarrow>
          if list_ex (\<lambda>pr. \<not> pr_DeletionTimestamp pr \<and> Defined (pr_Spec pr) permission True) protectedResources
          then invalid_loop protectedResources ps
          else permStr # invalid_loop protectedResources ps)"

definition validateRolePermissions :: "ProtectedResource list \<Rightarrow> string list \<Rightarrow> string list result" where
  "validateRolePermissions protectedResources effectivePermissions = Inr (sort (invalid_loop protectedResources effectivePermissions))"

definition inertSubresourcePermissions :: "('w, 'z) RoleReconciler_scheme \<Rightarrow> string list \<Rightarrow> string list" where
  "inertSubresourcePermissions r effectivePermissions =
     (if rr_EnableSubresourceAuthorization r then []
      else sort (filter (\<lambda>permStr. case Parse permStr of None \<Rightarrow> False | Some p \<Rightarrow> perm_Subresource p \<noteq> []) effectivePermissions))"

definition isRoleAffectedByProtectedResource ::
    "('w, 'z) RoleReconciler_scheme \<Rightarrow> RoleObject \<Rightarrow> ProtectedResource \<Rightarrow> 'w \<Rightarrow> bool result option" where
  "isRoleAffectedByProtectedResource r role pr w =
     (case getAllEffectivePermissions (\<lambda>ns n. rr_Get r ns n w) role [] of
        None \<Rightarrow> None
      | Some (Inl err) \<Rightarrow> Some (Inl err)
      | Some (Inr (effectivePermissions, _, _)) \<Rightarrow>
          let changedPrAPIGroup = ServiceRef_Name (pr_Spec pr); changedPrPlural = spec_Plural (pr_Spec pr) in
          if changedPrAPIGroup = [] \<or> changedPrPlural = []
          then Some (Inl (ErrorString (''ProtectedResource '' @ pr_Name pr @ '' has empty ServiceRef.Name or Plural'')))
          else Some (Inr (list_ex (\<lambda>permStr. case Parse permStr of None \<Rightarrow> False
                 | Some permission \<Rightarrow> perm_APIGroup permission = changedPrAPIGroup \<and> perm_Resource permission = changedPrPlural)
                 effectivePermissions)))"

subsection \<open>Reconcile\<close>

type_synonym role_status = "int \<times> string list \<times> Condition list"

definition role_status :: "RoleObject \<Rightarrow> role_status" where
  "role_status role = (role_ObservedGeneration role, role_EffectivePermissions role, role_Conditions role)"

definition updateRoleStatus :: "('w, 'z) RoleReconciler_scheme \<Rightarrow> RoleObject \<Rightarrow> role_status \<Rightarrow> 'w \<Rightarrow> (unit, 'w) call" where
  "updateRoleStatus r actualRole oldStatus w =
     (if oldStatus \<noteq> role_status actualRole
      then try_call (rr_StatusUpdate r actualRole w) (WrapError ''failed to update role status'') (\<lambda>_ w. (Inr (), w))
      else (Inr (), w))"

text \<open>The verdict on the permissions: status, reason and message of the condition \<open>PermissionsValid\<close>.\<close>

definition permission_verdict :: "('w, 'z) RoleReconciler_scheme \<Rightarrow> ProtectedResource list \<Rightarrow> string list \<Rightarrow> string \<times> string \<times> string" where
  "permission_verdict r protectedResources effectivePermissions =
     (case validateRolePermissions protectedResources effectivePermissions of
        Inl validationErr \<Rightarrow> (''False'', ''ValidationError'', ''Error during permission validation: '' @ Error validationErr)
      | Inr invalidPermissions \<Rightarrow>
          if length invalidPermissions > 0
          then (''False'', ''InvalidPermissions'', ''Role contains invalid/undefined permissions: '' @ Join invalidPermissions '', '')
          else let inert = inertSubresourcePermissions r effectivePermissions in
            if length inert > 0
            then (''True'', ''ValidationSuccessful'',
                  ''All permissions validated successfully. Subresource authorization is disabled, so these permissions grant nothing: '' @
                  Join inert '', '')
            else (''True'', ''ValidationSuccessful'', ''All permissions validated successfully.''))"

text \<open>
  From the effective permissions to the new status. The error is that of
  \<open>ReconcileRole\<close>, with which the source returns early.
\<close>

definition reconcile_status ::
    "('w, 'z) RoleReconciler_scheme \<Rightarrow> RoleObject \<Rightarrow> ProtectedResource list \<Rightarrow> string list \<Rightarrow> unresolvedInheritedRole list \<Rightarrow>
     int \<Rightarrow> 'w \<Rightarrow> RoleObject \<times> go_error option \<times> 'w" where
  "reconcile_status r role protectedResources effective unresolvedRoles currentGeneration w =
     (let effectivePermissions = sort effective;
          role = role\<lparr>role_EffectivePermissions := effectivePermissions\<rparr>;
          (role, w) = setDegradedCondition r role unresolvedRoles currentGeneration w;
          (status, reason, message) = permission_verdict r protectedResources effectivePermissions;
          role = set_condition r role ''PermissionsValid'' status reason message currentGeneration
      in if status = ''True''
         then (case ReconcileRole role of
             Inl err \<Rightarrow> (set_condition r role ''Ready'' ''False'' ''OpenFGAReconciliationFailed''
                          (''Failed to reconcile with OpenFGA: '' @ Error err) 0, Some err, w)
           | Inr _ \<Rightarrow>
               if length unresolvedRoles > 0
               then (set_condition r role ''Ready'' ''False'' ''UnresolvedInheritedRoles'' (unresolvedMessage unresolvedRoles) currentGeneration, None, w)
               else (set_condition r role ''Ready'' ''True'' ''ReconciliationSuccessful'' ''Role reconciled successfully with OpenFGA.''
                      currentGeneration, None, w))
         else (set_condition r role ''Ready'' ''False'' ''InvalidPermissions'' message currentGeneration, None, w))"

text \<open>The result is \<open>Requeue\<close>.\<close>

definition Role_Reconcile :: "('w, 'z) RoleReconciler_scheme \<Rightarrow> string \<Rightarrow> string \<Rightarrow> 'w \<Rightarrow> (bool, 'w) comp" where
  "Role_Reconcile r namespace name w =
     (case rr_Get r namespace name w of
        Inl err \<Rightarrow> if IsNotFound err then Some (Inr False, w) else Some (Inl err, w)
      | Inr role \<Rightarrow>
          let oldStatus = role_status role;
              currentGeneration = role_Generation role;
              role = role\<lparr>role_ObservedGeneration := currentGeneration\<rparr>
          in go_try (rr_Finalizers r (Role_Finalize r) role w) (WrapError ''failed to run finalizers for Role'')
       (\<lambda>(Updated, role) w.
          if Updated
          then go_try (Some (rr_Update r role w)) (WrapError ''failed to update Role after finalizer operation'') (\<lambda>_ w. Some (Inr True, w))
          else if role_DeletionTimestamp role then Some (Inr False, w)
          else (case rr_ListProtectedResources r w of
              Inl err \<Rightarrow> Some (Inl err, w)
            | Inr protectedResources \<Rightarrow>
          (case getAllEffectivePermissions (\<lambda>ns n. rr_Get r ns n w) role [] of
              None \<Rightarrow> None
            | Some (Inl err) \<Rightarrow>
                let role = set_condition r role ''Ready'' ''False'' ''EffectivePermissionsError''
                      (''Failed to compute effective permissions: '' @ Error err) currentGeneration
                in Some (Inl err, snd (updateRoleStatus r role oldStatus w))
            | Some (Inr (effective, unresolvedRoles, _)) \<Rightarrow>
                (case reconcile_status r role protectedResources effective unresolvedRoles currentGeneration w of
                   (role, Some err, w) \<Rightarrow> Some (Inl err, snd (updateRoleStatus r role oldStatus w))
                 | (role, None, w) \<Rightarrow>
                     go_try (Some (updateRoleStatus r role oldStatus w)) (\<lambda>e. e) (\<lambda>_ w. Some (Inr False, w)))))))"

subsection \<open>Queueing\<close>

definition enqueueRequestsForInheritedRoleChange :: "('w, 'z) RoleReconciler_scheme \<Rightarrow> RoleObject \<Rightarrow> 'w \<Rightarrow> ObjectKey list option" where
  "enqueueRequestsForInheritedRoleChange r changedRole w =
     (let changedKey = role_key changedRole in
      case rolesDependentOnRole (rr_ListRoles r w) changedKey of
        None \<Rightarrow> None
      | Some (Inl err) \<Rightarrow> Some []
      | Some (Inr dependents) \<Rightarrow> Some (filter (\<lambda>key. key \<noteq> changedKey) dependents))"

fun enqueue_loop :: "('w, 'z) RoleReconciler_scheme \<Rightarrow> ProtectedResource \<Rightarrow> 'w \<Rightarrow> RoleObject list \<Rightarrow> ObjectKey list option" where
  "enqueue_loop r protectedResource w [] = Some []"
| "enqueue_loop r protectedResource w (role # roles) =
     (case isRoleAffectedByProtectedResource r role protectedResource w of
        None \<Rightarrow> None
      | Some (Inr True) \<Rightarrow> map_option ((#) (role_key role)) (enqueue_loop r protectedResource w roles)
      | Some _ \<Rightarrow> enqueue_loop r protectedResource w roles)"

definition enqueueRequestsForProtectedResourceChange ::
    "('w, 'z) RoleReconciler_scheme \<Rightarrow> ProtectedResource \<Rightarrow> 'w \<Rightarrow> ObjectKey list option" where
  "enqueueRequestsForProtectedResourceChange r protectedResource w =
     (case rr_ListRoles r w of
        Inl err \<Rightarrow> Some []
      | Inr roles \<Rightarrow> enqueue_loop r protectedResource w roles)"

section \<open>What the controller relies on\<close>

text \<open>
  \<open>status_store\<close>: a successful status update is what the
  next read returns, and recording an event changes no Role.
\<close>

definition status_store :: "('w, 'z) RoleReconciler_scheme \<Rightarrow> bool" where
  "status_store r \<longleftrightarrow>
     (\<forall>role w w'. rr_StatusUpdate r role w = (Inr (), w') \<longrightarrow> rr_Get r (role_Namespace role) (role_Name role) w' = Inr role) \<and>
     (\<forall>Event role t reason message w ns n. rr_EventRecorder r = Some Event \<longrightarrow>
        rr_Get r ns n (Event role t reason message w) = rr_Get r ns n w)"

abbreviation role_registry :: "('f \<Rightarrow> RoleObject \<Rightarrow> 'w \<Rightarrow> (bool \<times> RoleObject, 'w) comp) \<Rightarrow> bool" where
  "role_registry \<equiv> adds_finalizer Some roleFinalizerKey role_DeletionTimestamp role_Finalizers role_Finalizers_update"

definition condition_status :: "RoleObject \<Rightarrow> string \<Rightarrow> string option" where
  "condition_status role t = map_option cond_Status (condition_of (role_Conditions role) t)"

definition valid_permission :: "ProtectedResource list \<Rightarrow> string \<Rightarrow> bool" where
  "valid_permission prs s \<longleftrightarrow>
     (\<exists>p. wf_permission p \<and> s = Permission_String p \<and> (\<exists>pr \<in> set prs. \<not> pr_DeletionTimestamp pr \<and> Defined (pr_Spec pr) p True))"

section \<open>Validation\<close>

lemma valid_permission_Parse:
  "valid_permission prs s \<longleftrightarrow>
     (case Parse s of None \<Rightarrow> False
      | Some p \<Rightarrow> list_ex (\<lambda>pr. \<not> pr_DeletionTimestamp pr \<and> Defined (pr_Spec pr) p True) prs)"
proof (cases "Parse s")
  case None
  then have "\<nexists>p. wf_permission p \<and> s = Permission_String p" by (metis Parse_String option.distinct(1))
  with None show ?thesis by (auto simp: valid_permission_def)
next
  case (Some p)
  then have "wf_permission q \<and> s = Permission_String q \<and> X \<longleftrightarrow> q = p \<and> X" for q X
    using Parse_Some_sound[OF Some] Parse_String[of q] by (metis option.inject)
  then have "valid_permission prs s \<longleftrightarrow> (\<exists>pr \<in> set prs. \<not> pr_DeletionTimestamp pr \<and> Defined (pr_Spec pr) p True)"
    by (simp add: valid_permission_def)
  with Some show ?thesis by (simp add: list_ex_iff)
qed

lemma invalid_loop_Nil_iff: "invalid_loop prs ps = [] \<longleftrightarrow> (\<forall>s \<in> set ps. valid_permission prs s)"
  by (induction ps) (auto simp: valid_permission_Parse split: option.splits)

lemma permission_verdict_status:
  "fst (permission_verdict r prs ps) = (if \<forall>s \<in> set ps. valid_permission prs s then ''True'' else ''False'')"
proof -
  have "length (sort (invalid_loop prs ps)) > 0 \<longleftrightarrow> \<not> (\<forall>s \<in> set ps. valid_permission prs s)"
    by (simp flip: invalid_loop_Nil_iff)
  then show ?thesis by (simp add: permission_verdict_def validateRolePermissions_def Let_def)
qed

lemma invalid_loop_cong:
  assumes "\<And>s p. s \<in> set ps \<Longrightarrow> Parse s = Some p \<Longrightarrow>
    list_ex (\<lambda>pr. \<not> pr_DeletionTimestamp pr \<and> Defined (pr_Spec pr) p True) prs =
    list_ex (\<lambda>pr. \<not> pr_DeletionTimestamp pr \<and> Defined (pr_Spec pr) p True) prs'"
  shows "invalid_loop prs ps = invalid_loop prs' ps"
  using assms by (induction ps) (auto split: option.splits)

section \<open>Status\<close>

lemma set_condition_simps [simp]:
  "role_Namespace (set_condition r role t s re m g) = role_Namespace role"
  "role_Name (set_condition r role t s re m g) = role_Name role"
  "role_EffectivePermissions (set_condition r role t s re m g) = role_EffectivePermissions role"
  by (simp_all add: set_condition_def)

lemma condition_status_set:
  assumes "condition_setter (rr_SetStatusCondition r)"
  shows "condition_status (set_condition r role t s re m g) t' = (if t' = t then Some s else condition_status role t')"
  using assms by (simp add: condition_setter_def condition_status_def set_condition_def)

definition role_outcome :: "ProtectedResource list \<Rightarrow> string set \<Rightarrow> bool \<Rightarrow> RoleObject \<Rightarrow> bool" where
  "role_outcome prs perms dangling role \<longleftrightarrow>
     role_EffectivePermissions role = sorted_list_of_set perms \<and>
     condition_status role ''Degraded'' = Some (if dangling then ''True'' else ''False'') \<and>
     condition_status role ''PermissionsValid'' = Some (if \<forall>s \<in> perms. valid_permission prs s then ''True'' else ''False'') \<and>
     condition_status role ''Ready'' = Some (if (\<forall>s \<in> perms. valid_permission prs s) \<and> \<not> dangling then ''True'' else ''False'')"

lemma role_outcome_status:
  "role_status role = role_status role' \<Longrightarrow> role_outcome prs perms dangling role = role_outcome prs perms dangling role'"
  by (simp add: role_outcome_def role_status_def condition_status_def)

lemma setDegradedCondition_spec:
  assumes "setDegradedCondition r role unresolved g w = (role', w')" and "condition_setter (rr_SetStatusCondition r)" and "status_store r"
  shows "role_Namespace role' = role_Namespace role" and "role_Name role' = role_Name role"
    and "role_EffectivePermissions role' = role_EffectivePermissions role" and "rr_Get r ns n w' = rr_Get r ns n w"
    and "condition_status role' ''Degraded'' = Some (if unresolved = [] then ''False'' else ''True'')"
  using assms
  by (auto simp: setDegradedCondition_def Let_def condition_status_set status_store_def split: if_splits option.splits)

lemma reconcile_status_spec:
  assumes run: "reconcile_status r role prs effective unresolved g w = (role', err, w')"
    and setter: "condition_setter (rr_SetStatusCondition r)" and store: "status_store r" and "distinct effective"
  shows "err = None \<and> role_Namespace role' = role_Namespace role \<and> role_Name role' = role_Name role \<and>
    (\<forall>ns n. rr_Get r ns n w' = rr_Get r ns n w) \<and> role_outcome prs (set effective) (unresolved \<noteq> []) role'"
proof -
  obtain role1 w1 where d: "setDegradedCondition r (role\<lparr>role_EffectivePermissions := sort effective\<rparr>) unresolved g w = (role1, w1)"
    by fastforce
  note ds = setDegradedCondition_spec[OF d setter store]
  obtain status reason message where v: "permission_verdict r prs (sort effective) = (status, reason, message)"
    using prod_cases3 by blast
  have st: "status = (if \<forall>s \<in> set effective. valid_permission prs s then ''True'' else ''False'')"
    using permission_verdict_status[of r prs "sort effective"] v by simp
  have perms: "sort effective = sorted_list_of_set (set effective)"
    using \<open>distinct effective\<close> by (simp add: sorted_list_of_set_sort_remdups distinct_remdups_id)
  let ?role2 = "set_condition r role1 ''PermissionsValid'' status reason message g"
  let ?valid = "\<forall>s \<in> set effective. valid_permission prs s"
  have fields: "role_EffectivePermissions role1 = sorted_list_of_set (set effective)" using ds(3) perms by simp
  have out: "err = None \<and> w' = w1 \<and>
      (\<exists>reason message. role' = set_condition r ?role2 ''Ready'' (if ?valid \<and> unresolved = [] then ''True'' else ''False'') reason message g)"
    using run st by (auto simp: reconcile_status_def d v ReconcileRole_def Let_def split: if_splits)
  then obtain re m where role': "role' = set_condition r ?role2 ''Ready'' (if ?valid \<and> unresolved = [] then ''True'' else ''False'') re m g"
    by blast
  have "role_outcome prs (set effective) (unresolved \<noteq> []) role'"
    unfolding role_outcome_def role' using ds(5) st fields by (simp add: condition_status_set[OF setter])
  with out role' ds(1,2,4) show ?thesis by simp
qed

lemma getAllEffectivePermissions_spec_only:
  assumes "role_Namespace role' = role_Namespace role" "role_Name role' = role_Name role"
    "role_InheritedRoles role' = role_InheritedRoles role" "role_IncludedPermissions role' = role_IncludedPermissions role"
  shows "getAllEffectivePermissions Get role' V = getAllEffectivePermissions Get role V"
  using assms by (simp add: getAllEffectivePermissions_def roleIdentifier_def)

lemma reconcile_finalized_role:
  assumes ok: "lookup_ok (\<lambda>ns n. rr_Get r ns n w)" and get: "rr_Get r namespace name w = Inr role"
    and "\<not> role_DeletionTimestamp role" and prs: "rr_ListProtectedResources r w = Inr prs"
    and fin: "rr_Finalizers r (Role_Finalize r) (role\<lparr>role_ObservedGeneration := role_Generation role\<rparr>) w =
      Some (Inr (False, role\<lparr>role_ObservedGeneration := role_Generation role\<rparr>), w)"
    and setter: "condition_setter (rr_SetStatusCondition r)" and store: "status_store r"
    and run: "Role_Reconcile r namespace name w = Some (Inr requeue, w')"
  shows "\<not> requeue \<and> (\<exists>role'. rr_Get r namespace name w' = Inr role' \<and>
    role_outcome prs (\<Union>s \<in> inherited_roles (\<lambda>ns n. rr_Get r ns n w) role. set (role_IncludedPermissions s))
      (\<exists>s \<in> inherited_roles (\<lambda>ns n. rr_Get r ns n w) role.
         missing_refs (\<lambda>ns n. rr_Get r ns n w) (role_Namespace s) (role_InheritedRoles s) \<noteq> {}) role')"
proof -
  let ?Get = "\<lambda>ns n. rr_Get r ns n w" and ?role = "role\<lparr>role_ObservedGeneration := role_Generation role\<rparr>"
  have key: "role_Namespace role = namespace" "role_Name role = name" using ok get by (auto simp: lookup_ok_def)
  have same: "getAllEffectivePermissions ?Get ?role [] = getAllEffectivePermissions ?Get role []"
    by (rule getAllEffectivePermissions_spec_only) simp_all
  obtain res where res: "getAllEffectivePermissions ?Get role [] = Some res"
    and spec: "case res of Inl e \<Rightarrow> \<exists>s \<in> inherited_roles ?Get role. failing_refs ?Get (role_Namespace s) (role_InheritedRoles s)
     | Inr (perms, unresolved, visited) \<Rightarrow>
         distinct perms \<and> set perms = (\<Union>s \<in> inherited_roles ?Get role. set (role_IncludedPermissions s)) \<and>
         set unresolved = (\<Union>s \<in> inherited_roles ?Get role. missing_refs ?Get (role_Namespace s) (role_InheritedRoles s)) \<and>
         \<not> (\<exists>s \<in> inherited_roles ?Get role. failing_refs ?Get (role_Namespace s) (role_InheritedRoles s))"
    using effective_permissions_exact[OF ok, of role] get key by auto
  obtain perms unresolved visited where inr: "res = Inr (perms, unresolved, visited)"
    using run get fin prs assms(3) by (cases res) (auto simp: Role_Reconcile_def Let_def same res)
  obtain role1 err w1 where status: "reconcile_status r ?role prs perms unresolved (role_Generation role) w = (role1, err, w1)"
    using prod_cases3 by blast
  have "distinct perms" using spec by (simp add: inr)
  note s = reconcile_status_spec[OF status setter store this]
  have "go_try (Some (updateRoleStatus r role1 (role_status role) w1)) (\<lambda>e. e) (\<lambda>_ w. Some (Inr False, w)) = Some (Inr requeue, w')"
    using run get fin prs assms(3) s by (simp add: Role_Reconcile_def Let_def same res inr status)
  then have upd: "updateRoleStatus r role1 (role_status role) w1 = (Inr (), w')" and "\<not> requeue" by (auto simp: go_calls)
  have "\<exists>role'. rr_Get r namespace name w' = Inr role' \<and> role_status role' = role_status role1"
  proof (cases "role_status role = role_status role1")
    case True
    with upd s get show ?thesis by (auto simp: updateRoleStatus_def)
  next
    case False
    then have "rr_StatusUpdate r role1 w1 = (Inr (), w')" using upd by (auto simp: updateRoleStatus_def go_calls)
    then have "rr_Get r (role_Namespace role1) (role_Name role1) w' = Inr role1" using store unfolding status_store_def by blast
    with s key show ?thesis by auto
  qed
  then obtain role' where role': "rr_Get r namespace name w' = Inr role'" "role_status role' = role_status role1" by blast
  have U: "set unresolved = (\<Union>s \<in> inherited_roles ?Get role. missing_refs ?Get (role_Namespace s) (role_InheritedRoles s))"
    using spec by (simp add: inr)
  have D: "(unresolved \<noteq> []) = (\<exists>s \<in> inherited_roles ?Get role. missing_refs ?Get (role_Namespace s) (role_InheritedRoles s) \<noteq> {})"
    using set_empty[of unresolved] unfolding U by blast
  have P: "set perms = (\<Union>s \<in> inherited_roles ?Get role. set (role_IncludedPermissions s))" using spec by (simp add: inr)
  have "role_outcome prs (set perms) (unresolved \<noteq> []) role'"
    using s role_outcome_status[OF role'(2)] by blast
  with role'(1) \<open>\<not> requeue\<close> show ?thesis unfolding P D by blast
qed

text \<open>
  C25. A reconcile of a Role that is not being deleted, on a consistent cluster view, that
  returns without error: when the Role does not carry the finalizer yet, it is updated to
  carry it, nothing else happens and another round is asked for. When it carries it, the
  reconcile leaves behind a Role whose status lists, sorted, exactly the permissions of
  all Roles it inherits, is Degraded exactly when a reference among them dangles, has
  valid permissions exactly when each is registered by a ProtectedResource that is not
  being deleted, and is Ready exactly when it is valid and not degraded.
\<close>

theorem Role_Reconcile_status:
  assumes ok: "lookup_ok (\<lambda>ns n. rr_Get r ns n w)" and get: "rr_Get r namespace name w = Inr role"
    and "\<not> role_DeletionTimestamp role" and prs: "rr_ListProtectedResources r w = Inr prs"
    and reg: "role_registry (rr_Finalizers r)"
    and setter: "condition_setter (rr_SetStatusCondition r)" and store: "status_store r"
    and run: "Role_Reconcile r namespace name w = Some (Inr requeue, w')"
  shows "if roleFinalizerKey \<notin> set (role_Finalizers role)
    then requeue \<and> rr_Update r (role\<lparr>role_ObservedGeneration := role_Generation role,
      role_Finalizers := role_Finalizers role @ [roleFinalizerKey]\<rparr>) w = (Inr (), w')
    else \<not> requeue \<and> (\<exists>role'. rr_Get r namespace name w' = Inr role' \<and>
      role_outcome prs (\<Union>s \<in> inherited_roles (\<lambda>ns n. rr_Get r ns n w) role. set (role_IncludedPermissions s))
        (\<exists>s \<in> inherited_roles (\<lambda>ns n. rr_Get r ns n w) role.
           missing_refs (\<lambda>ns n. rr_Get r ns n w) (role_Namespace s) (role_InheritedRoles s) \<noteq> {}) role')"
proof (cases "roleFinalizerKey \<in> set (role_Finalizers role)")
  case True
  with adds_finalizer_run[OF reg, of "role\<lparr>role_ObservedGeneration := role_Generation role\<rparr>"] assms(3)
  have "rr_Finalizers r (Role_Finalize r) (role\<lparr>role_ObservedGeneration := role_Generation role\<rparr>) w =
      Some (Inr (False, role\<lparr>role_ObservedGeneration := role_Generation role\<rparr>), w)" by simp
  from reconcile_finalized_role[OF ok get assms(3) prs this setter store run] True show ?thesis by simp
next
  case False
  with adds_finalizer_run[OF reg, of "role\<lparr>role_ObservedGeneration := role_Generation role\<rparr>"] assms(3) run get
  show ?thesis by (auto simp: Role_Reconcile_def Let_def go_calls)
qed

section \<open>Queueing\<close>

lemma enqueue_loop_unaffected:
  assumes "enqueue_loop r pr w roles = Some keys" and "role \<in> set roles" and "role_key role \<notin> set keys"
  shows "\<exists>res. isRoleAffectedByProtectedResource r role pr w = Some res \<and> res \<noteq> Inr True"
  using assms
proof (induction roles arbitrary: keys)
  case (Cons s roles)
  show ?case
  proof (cases "isRoleAffectedByProtectedResource r s pr w = Some (Inr True)")
    case True
    with Cons show ?thesis by auto
  next
    case False
    with Cons.prems(1) obtain res where s: "isRoleAffectedByProtectedResource r s pr w = Some res" "res \<noteq> Inr True"
      by (auto split: option.splits)
    then have "enqueue_loop r pr w roles = Some keys" using Cons.prems(1) by (auto split: sum.splits bool.splits)
    with Cons s show ?thesis by auto
  qed
qed simp

text \<open>
  C39. When a ProtectedResource with a service and plural name changes, a Role that is
  not queued again, although its permissions could be computed, gets the same verdict on
  its permissions with the old definition, with any new definition of the same resource,
  and with none.
\<close>

theorem unqueued_role_keeps_verdict:
  assumes "enqueueRequestsForProtectedResourceChange r pr w = Some keys" and "rr_ListRoles r w = Inr roles"
    and "role \<in> set roles" and "role_key role \<notin> set keys"
    and eff: "getAllEffectivePermissions (\<lambda>ns n. rr_Get r ns n w) role [] = Some (Inr (perms, unresolved, visited))"
    and ident: "ServiceRef_Name (pr_Spec pr) \<noteq> []" "spec_Plural (pr_Spec pr) \<noteq> []"
    and same: "ServiceRef_Name (pr_Spec pr') = ServiceRef_Name (pr_Spec pr)" "spec_Plural (pr_Spec pr') = spec_Plural (pr_Spec pr)"
  shows "permission_verdict r (xs @ pr # ys) (sort perms) = permission_verdict r (xs @ pr' # ys) (sort perms) \<and>
    permission_verdict r (xs @ pr # ys) (sort perms) = permission_verdict r (xs @ ys) (sort perms)"
proof -
  have "\<exists>res. isRoleAffectedByProtectedResource r role pr w = Some res \<and> res \<noteq> Inr True"
    using assms(1-4) by (auto simp: enqueueRequestsForProtectedResourceChange_def intro: enqueue_loop_unaffected)
  then have "\<not> list_ex (\<lambda>s. case Parse s of None \<Rightarrow> False
      | Some p \<Rightarrow> perm_APIGroup p = ServiceRef_Name (pr_Spec pr) \<and> perm_Resource p = spec_Plural (pr_Spec pr)) perms"
    using ident by (simp add: isRoleAffectedByProtectedResource_def eff Let_def)
  then have no: "\<not> Defined (pr_Spec q) p True" if "s \<in> set perms" "Parse s = Some p" "q = pr \<or> q = pr'" for s p q
    using that same by (auto simp: list_ex_iff Defined_def)
  have "invalid_loop (xs @ pr # ys) (sort perms) = invalid_loop (xs @ pr' # ys) (sort perms)"
    by (rule invalid_loop_cong) (simp add: no)
  moreover have "invalid_loop (xs @ pr # ys) (sort perms) = invalid_loop (xs @ ys) (sort perms)"
    by (rule invalid_loop_cong) (simp add: no)
  ultimately show ?thesis by (simp add: permission_verdict_def validateRolePermissions_def)
qed

section \<open>Evaluations\<close>

text \<open>A cluster whose state is the list of its Roles, a condition list updated in place of its type, and a registry without finalizer work.\<close>

definition store_role :: "RoleObject \<Rightarrow> RoleObject list \<Rightarrow> RoleObject list" where
  "store_role role roles = role # filter (\<lambda>s. role_key s \<noteq> role_key role) roles"

definition idle_client :: "'w OpenFGAServiceClient" where
  "idle_client =
     \<lparr>Write = (\<lambda>rq w. (Inr (), w)), Read = (\<lambda>rq w. Inr \<lparr>rs_Tuples = [], rs_ContinuationToken = []\<rparr>),
      ReadAuthorizationModels = (\<lambda>sid n w. Inr []), ReadAuthorizationModel = (\<lambda>sid i w. Inr None),
      WriteAuthorizationModel = (\<lambda>rq w. (Inr ''m'', w)), ctx_Err = (\<lambda>_. None), InternalErrorCode_deadline_exceeded = 4004\<rparr>"

definition example_role_reconciler :: "RoleObject list RoleReconciler" where
  "example_role_reconciler =
     \<lparr>rr_EnableSubresourceAuthorization = True, rr_Get = (\<lambda>ns n roles. cluster_Get roles ns n), rr_ListRoles = Inr,
      rr_ListProtectedResources = (\<lambda>_. Inr [example_pr ''s'' ''K'' ''ks'' [''get'', ''list''] []]),
      rr_Update = (\<lambda>role roles. (Inr (), store_role role roles)),
      rr_StatusUpdate = (\<lambda>role roles. (Inr (), store_role role roles)),
      rr_FgaClient = idle_client, rr_StoreID = ''s'', rr_ModelIDProvider = None,
      rr_Finalizers = (\<lambda>f role w. Some (Inr (registry_result roleFinalizerKey role_Finalizers role_Finalizers_update role), w)), rr_SetStatusCondition = put_condition,
      rr_EventRecorder = Some (\<lambda>_ _ _ _ w. w), rr_MaxConcurrentReconciles = 0\<rparr>"

definition role_object :: "string \<Rightarrow> string list \<Rightarrow> string list \<Rightarrow> RoleObject" where
  "role_object n perms refs =
     \<lparr>role_Namespace = ''ns'', role_Name = n, role_UID = n, role_DeletionTimestamp = False, role_IncludedPermissions = perms,
      role_InheritedRoles = map (\<lambda>m. \<lparr>roleRef_Name = m, roleRef_Namespace = []\<rparr>) refs, role_EffectivePermissions = [],
      role_Generation = 3, role_Finalizers = [roleFinalizerKey], role_ObservedGeneration = 0, role_Conditions = []\<rparr>"

text \<open>The owner inherits the viewer, and the viewer inherits the owner back.\<close>

definition example_cluster :: "RoleObject list" where
  "example_cluster = [role_object ''owner'' [''s/ks.list''] [''viewer''], role_object ''viewer'' [''s/ks.get''] [''owner'']]"

lemma example_status_store: "status_store example_role_reconciler"
  by (simp add: status_store_def example_role_reconciler_def store_role_def cluster_Get_def)

theorem Role_Reconcile_status_witness:
  "\<exists>w' role'. Role_Reconcile example_role_reconciler ''ns'' ''owner'' example_cluster = Some (Inr False, w') \<and>
     rr_Get example_role_reconciler ''ns'' ''owner'' w' = Inr role' \<and>
     role_EffectivePermissions role' = [''s/ks.get'', ''s/ks.list''] \<and> condition_status role' ''Ready'' = Some ''True''"
proof -
  let ?r = example_role_reconciler and ?w = example_cluster and ?role = "role_object ''owner'' [''s/ks.list''] [''viewer'']"
  have "lookup_ok (cluster_Get ?w)"
    by (rule cluster_lookup_ok) (auto simp: example_cluster_def role_object_def)
  then have ok: "lookup_ok (\<lambda>ns n. rr_Get ?r ns n ?w)" by (simp add: example_role_reconciler_def)
  have get: "rr_Get ?r ''ns'' ''owner'' ?w = Inr ?role"
    by (simp add: example_role_reconciler_def cluster_Get_def example_cluster_def role_object_def)
  have reg: "role_registry (rr_Finalizers ?r)"
    by (simp add: example_role_reconciler_def adds_finalizer_def)
  have prs: "rr_ListProtectedResources ?r ?w = Inr [example_pr ''s'' ''K'' ''ks'' [''get'', ''list''] []]"
    by (simp add: example_role_reconciler_def)
  have setter: "condition_setter (rr_SetStatusCondition ?r)"
    by (simp add: example_role_reconciler_def put_condition_setter)
  have live: "\<not> role_DeletionTimestamp ?role" by (simp add: role_object_def)
  define w' where "w' = snd (the (Role_Reconcile ?r ''ns'' ''owner'' ?w))"
  have run: "Role_Reconcile ?r ''ns'' ''owner'' ?w = Some (Inr False, w')"
    unfolding w'_def by code_simp
  from Role_Reconcile_status[OF ok get live prs reg setter example_status_store run]
  obtain role' where role': "rr_Get ?r ''ns'' ''owner'' w' = Inr role'" by (auto simp: role_object_def)
  have "(case rr_Get ?r ''ns'' ''owner'' w' of Inl _ \<Rightarrow> False | Inr role' \<Rightarrow>
      role_EffectivePermissions role' = [''s/ks.get'', ''s/ks.list''] \<and> condition_status role' ''Ready'' = Some ''True'')"
    unfolding w'_def by code_simp
  with run role' show ?thesis by auto
qed

text \<open>A ProtectedResource the viewer has no permission on is removed.\<close>

theorem unqueued_role_keeps_verdict_witness:
  "permission_verdict example_role_reconciler [example_pr ''t'' ''L'' ''ls'' [''get''] []] [''s/ks.get''] =
   permission_verdict example_role_reconciler [] [''s/ks.get'']"
proof -
  let ?r = example_role_reconciler and ?role = "role_object ''solo'' [''s/ks.get''] []" and ?pr = "example_pr ''t'' ''L'' ''ls'' [''get''] []"
  have keys: "enqueueRequestsForProtectedResourceChange ?r ?pr [?role] = Some []" by code_simp
  have roles: "rr_ListRoles ?r [?role] = Inr [?role]" by (simp add: example_role_reconciler_def)
  have eff: "getAllEffectivePermissions (\<lambda>ns n. rr_Get ?r ns n [?role]) ?role [] = Some (Inr ([''s/ks.get''], [], [''ns/solo'']))"
    by code_simp
  have "ServiceRef_Name (pr_Spec ?pr) \<noteq> []" "spec_Plural (pr_Spec ?pr) \<noteq> []" by (simp_all add: example_pr_def)
  from unqueued_role_keeps_verdict[OF keys roles _ _ eff this refl refl, of "[]" "[]"] show ?thesis by simp
qed

end
