(* ===== verification/Membership.thy ===== *)
theory Membership
  imports Object_Hold Conditions
begin

text \<open>
  Group membership: the tuples behind it (\<open>group_member_reconciler.go\<close>), the
  GroupMembership controller (\<open>groupmembership_controller.go\<close>) and the controller that
  makes every principal a member of \<open>system:authenticated\<close>
  (\<open>systemgroup_controller.go\<close>). The API server, \<open>Check\<close> of the service and the
  finalizer helpers of the controller runtime are parameters; log output is left out.
\<close>

section \<open>group\_member\_reconciler.go\<close>

record TupleCheckRequest =
  ck_StoreId :: string
  ck_User :: string
  ck_Relation :: string
  ck_Object :: string

record 'w UserGroupReconciler =
  ug_StoreID :: string
  ug_Client :: "'w OpenFGAServiceClient"
  ug_Check :: "TupleCheckRequest \<Rightarrow> 'w \<Rightarrow> bool result"
  ug_ModelIDProvider :: "'w ModelIDProvider option"

record GroupMembershipRequest =
  MemberUID :: string
  GroupUID :: string

definition getOpenFGAGroupAndMember :: "GroupMembershipRequest \<Rightarrow> string \<times> string" where
  "getOpenFGAGroupAndMember joinToGroupRequest =
     (TypeInternalUserGroup @ '':'' @ GroupUID joinToGroupRequest, TypeInternalUser @ '':'' @ MemberUID joinToGroupRequest)"

definition checkIfTupleKeyExists :: "('w, 'z) UserGroupReconciler_scheme \<Rightarrow> TupleKey \<Rightarrow> 'w \<Rightarrow> bool result" where
  "checkIfTupleKeyExists r tupleKey w =
     try_pure (ug_Check r \<lparr>ck_StoreId = ug_StoreID r, ck_User = tk_User tupleKey, ck_Relation = tk_Relation tupleKey, ck_Object = tk_Object tupleKey\<rparr> w)
       (WrapError ''failed to check if GroupMember tuple key exists'') Inr"

definition AddMemberToGroup :: "('w, 'z) UserGroupReconciler_scheme \<Rightarrow> GroupMembershipRequest \<Rightarrow> 'w \<Rightarrow> (unit, 'w) call" where
  "AddMemberToGroup r joinToGroupRequest w =
     (let (openFGAGroupObject, openFGAMemberUser) = getOpenFGAGroupAndMember joinToGroupRequest;
          tupleKeys = [\<lparr>tk_User = openFGAMemberUser, tk_Relation = ''member'', tk_Object = openFGAGroupObject, tk_Condition = None\<rparr>]
      in case checkIfTupleKeyExists r (tupleKeys ! 0) w of
           Inl err \<Rightarrow> (Inl (WrapError ''failed to check if GroupMember tuple key exists'' err), w)
         | Inr Allowed \<Rightarrow>
             if \<not> Allowed
             then (case Write (ug_Client r)
                     \<lparr>wr_StoreId = ug_StoreID r, wr_AuthorizationModelId = ModelIDFrom (ug_ModelIDProvider r) w,
                      wr_Writes = Some \<lparr>writes_TupleKeys = tupleKeys, writes_OnDuplicate = []\<rparr>, wr_Deletes = None\<rparr> w of
                     (Inl err, w) \<Rightarrow>
                       if IsAlreadyExistsErr err then (Inr (), w)
                       else (Inl (WrapError ''failed to write group membership tuple'' err), w)
                   | (Inr _, w) \<Rightarrow> (Inr (), w))
             else (Inr (), w))"

definition RemoveMemberFromGroup :: "('w, 'z) UserGroupReconciler_scheme \<Rightarrow> GroupMembershipRequest \<Rightarrow> 'w \<Rightarrow> (unit, 'w) call" where
  "RemoveMemberFromGroup r groupMembershipRequest w =
     (let (openFGAGroupObject, openFGAUserObject) = getOpenFGAGroupAndMember groupMembershipRequest;
          tupleKeys = [\<lparr>tk_User = openFGAUserObject, tk_Relation = ''member'', tk_Object = openFGAGroupObject, tk_Condition = None\<rparr>]
      in case checkIfTupleKeyExists r (tupleKeys ! 0) w of
           Inl err \<Rightarrow> (Inl (WrapError ''failed to check if GroupMember tuple key exists'' err), w)
         | Inr Allowed \<Rightarrow>
             if Allowed
             then (case Write (ug_Client r)
                     \<lparr>wr_StoreId = ug_StoreID r, wr_AuthorizationModelId = ModelIDFrom (ug_ModelIDProvider r) w, wr_Writes = None,
                      wr_Deletes = Some \<lparr>deletes_TupleKeys = convertTuplesForDelete tupleKeys, deletes_OnMissing = []\<rparr>\<rparr> w of
                     (Inl err, w) \<Rightarrow>
                       if IsTupleNotFoundErr err then (Inr (), w)
                       else (Inl (WrapError ''failed to delete group membership'' err), w)
                   | (Inr _, w) \<Rightarrow> (Inr (), w))
             else (Inr (), w))"

section \<open>groupmembership\_controller.go\<close>

text \<open>A Group or User is a \<^typ>\<open>K8sObject\<close>; the status of a GroupMembership is its conditions.\<close>

record GroupMembership =
  gm_Namespace :: string
  gm_Name :: string
  gm_Deleting :: bool
  gm_Finalizers :: "string list"
  gm_UserRef_Name :: string
  gm_GroupRef_Name :: string
  gm_GroupRef_Namespace :: string
  gm_Conditions :: "Condition list"

definition groupMembershipFinalizerKey :: string where "groupMembershipFinalizerKey = ''iam.miloapis.com/groupmembership''"
definition ConditionTypeUserRefValid :: string where "ConditionTypeUserRefValid = ''UserRefValid''"
definition ConditionTypeGroupRefValid :: string where "ConditionTypeGroupRefValid = ''GroupRefValid''"
definition defaultGroupMembershipMaxConcurrentReconciles :: int where "defaultGroupMembershipMaxConcurrentReconciles = 20"

record 'w GroupMembershipReconciler =
  gr_Get :: "string \<Rightarrow> string \<Rightarrow> 'w \<Rightarrow> GroupMembership result"
  gr_GetUser :: "string \<Rightarrow> string \<Rightarrow> 'w \<Rightarrow> K8sObject result"
  gr_GetGroup :: "string \<Rightarrow> string \<Rightarrow> 'w \<Rightarrow> K8sObject result"
  gr_List :: "'w \<Rightarrow> GroupMembership list result"
  gr_Update :: "GroupMembership \<Rightarrow> 'w \<Rightarrow> (unit, 'w) call"
  gr_StatusUpdate :: "GroupMembership \<Rightarrow> 'w \<Rightarrow> (unit, 'w) call"
  gr_Finalizers :: "(GroupMembership \<Rightarrow> 'w \<Rightarrow> (unit, 'w) call) \<Rightarrow> GroupMembership \<Rightarrow> 'w \<Rightarrow> (bool \<times> GroupMembership, 'w) call"
  gr_Event :: "GroupMembership \<Rightarrow> string \<Rightarrow> string \<Rightarrow> string \<Rightarrow> 'w \<Rightarrow> 'w"
  gr_SetStatusCondition :: SetStatusCondition
  gr_UserGroupReconciler :: "'w UserGroupReconciler"
  gr_MaxConcurrentReconciles :: int

definition gm_maxConcurrentReconciles :: "('w, 'z) GroupMembershipReconciler_scheme \<Rightarrow> int" where
  "gm_maxConcurrentReconciles r =
     (if gr_MaxConcurrentReconciles r > 0 then gr_MaxConcurrentReconciles r else defaultGroupMembershipMaxConcurrentReconciles)"

text \<open>An object that was not found is the zero value: its UID and name are empty.\<close>

definition UserGroup_Finalize :: "('w, 'z) GroupMembershipReconciler_scheme \<Rightarrow> GroupMembership \<Rightarrow> 'w \<Rightarrow> (unit, 'w) call" where
  "UserGroup_Finalize r groupMembership w =
     (case gr_GetUser r [] (gm_UserRef_Name groupMembership) w of
        Inl err \<Rightarrow> if \<not> IsNotFound err then (Inl err, w)
          else (case gr_GetGroup r (gm_GroupRef_Namespace groupMembership) (gm_GroupRef_Name groupMembership) w of
                  Inl err \<Rightarrow> if \<not> IsNotFound err then (Inl err, w) else (Inr (), w)
                | Inr _ \<Rightarrow> (Inr (), w))
      | Inr user \<Rightarrow>
          (case gr_GetGroup r (gm_GroupRef_Namespace groupMembership) (gm_GroupRef_Name groupMembership) w of
             Inl err \<Rightarrow> if \<not> IsNotFound err then (Inl err, w) else (Inr (), w)
           | Inr g \<Rightarrow>
               if obj_UID g = [] \<or> obj_UID user = [] then (Inr (), w)
               else RemoveMemberFromGroup (gr_UserGroupReconciler r) \<lparr>MemberUID = obj_Name user, GroupUID = obj_UID g\<rparr> w))"

definition gm_set_condition ::
    "('w, 'z) GroupMembershipReconciler_scheme \<Rightarrow> string \<Rightarrow> string \<Rightarrow> string \<Rightarrow> string \<Rightarrow> Condition list \<Rightarrow> Condition list" where
  "gm_set_condition r t status reason message conditions =
     gr_SetStatusCondition r conditions
       \<lparr>cond_Type = t, cond_Status = status, cond_Reason = reason, cond_Message = message, cond_ObservedGeneration = 0\<rparr>"

text \<open>The result of the read is the object, for a valid reference, with the conditions.\<close>

definition validateRef ::
    "('w, 'z) GroupMembershipReconciler_scheme \<Rightarrow> K8sObject result \<Rightarrow> string \<Rightarrow> Condition list \<Rightarrow> (K8sObject option \<times> Condition list) result" where
  "validateRef r get conditionType conditions =
     (case get of
        Inl err \<Rightarrow>
          if IsNotFound err
          then Inr (None, gm_set_condition r conditionType ''False'' ReasonValidationFailed (''Reference not found: '' @ Error err) conditions)
          else Inl err
      | Inr obj \<Rightarrow> Inr (Some obj, gm_set_condition r conditionType ''True'' ReasonValidationSuccessful ''Reference is valid.'' conditions))"

definition gm_update_status ::
    "('w, 'z) GroupMembershipReconciler_scheme \<Rightarrow> Condition list \<Rightarrow> GroupMembership \<Rightarrow> 'w \<Rightarrow> (bool, 'w) call" where
  "gm_update_status r oldStatus groupMembership w =
     (if oldStatus \<noteq> gm_Conditions groupMembership
      then try_call (gr_StatusUpdate r groupMembership w) (\<lambda>e. e) (\<lambda>_ w. (Inr False, w))
      else (Inr False, w))"

definition gm_reconcile_refs ::
    "('w, 'z) GroupMembershipReconciler_scheme \<Rightarrow> Condition list \<Rightarrow> GroupMembership \<Rightarrow> 'w \<Rightarrow> (bool, 'w) call" where
  "gm_reconcile_refs r oldStatus gm w =
     (case validateRef r (gr_GetUser r [] (gm_UserRef_Name gm) w) ConditionTypeUserRefValid (gm_Conditions gm) of
        Inl err \<Rightarrow> (Inl err, w)
      | Inr (user, cs) \<Rightarrow>
          (case validateRef r (gr_GetGroup r (gm_GroupRef_Namespace gm) (gm_GroupRef_Name gm) w) ConditionTypeGroupRefValid cs of
             Inl err \<Rightarrow> (Inl err, w)
           | Inr (g, cs) \<Rightarrow>
               (case (user, g) of
                  (Some user, Some g) \<Rightarrow>
                    (case AddMemberToGroup (gr_UserGroupReconciler r) \<lparr>MemberUID = obj_Name user, GroupUID = obj_UID g\<rparr> w of
                       (Inl err, w) \<Rightarrow>
                         (Inl (WrapError ''failed to write group membership tuple'' err),
                          gr_Event r (gm\<lparr>gm_Conditions := cs\<rparr>) ''Warning'' ''OpenFGAError'' (''Failed to write group membership tuple: '' @ Error err) w)
                     | (Inr _, w) \<Rightarrow>
                         gm_update_status r oldStatus
                           (gm\<lparr>gm_Conditions := gm_set_condition r ''Ready'' ''True'' ''Reconciled'' ''Group membership successfully reconciled'' cs\<rparr>) w)
                | _ \<Rightarrow>
                    gm_update_status r oldStatus
                      (gm\<lparr>gm_Conditions := gm_set_condition r ''Ready'' ''False'' ''ReferenceInvalid''
                         (''User and/or Group reference are invalid. See '' @ ConditionTypeUserRefValid @ '' and '' @ ConditionTypeGroupRefValid @
                          '' conditions for details.'') cs\<rparr>) w)))"

text \<open>The result of a reconcile is \<open>Requeue\<close>.\<close>

definition GroupMembership_Reconcile ::
    "('w, 'z) GroupMembershipReconciler_scheme \<Rightarrow> string \<Rightarrow> string \<Rightarrow> 'w \<Rightarrow> (bool, 'w) call" where
  "GroupMembership_Reconcile r namespace name w =
     (case gr_Get r namespace name w of
        Inl err \<Rightarrow> if IsNotFound err then (Inr False, w) else (Inl err, w)
      | Inr groupMembership \<Rightarrow>
          let oldStatus = gm_Conditions groupMembership in
          try_call (gr_Finalizers r (UserGroup_Finalize r) groupMembership w)
            (WrapError ''failed to run finalizers for GroupMembership'')
            (\<lambda>(Updated, groupMembership) w.
               if Updated then try_call (gr_Update r groupMembership w) (\<lambda>e. e) (\<lambda>_ w. (Inr True, w))
               else if gm_Deleting groupMembership then (Inr False, w)
               else gm_reconcile_refs r oldStatus groupMembership w))"

text \<open>The two field indexes of the cache, and the requests a change of a User or a Group queues.\<close>

definition userRef_index :: "GroupMembership \<Rightarrow> string list" where
  "userRef_index gm = [gm_UserRef_Name gm]"

definition groupRef_index :: "GroupMembership \<Rightarrow> string list" where
  "groupRef_index gm =
     (if gm_Namespace gm \<noteq> gm_GroupRef_Namespace gm then [] else [gm_GroupRef_Namespace gm @ ''/'' @ gm_GroupRef_Name gm])"

definition list_indexed ::
    "('w, 'z) GroupMembershipReconciler_scheme \<Rightarrow> (GroupMembership \<Rightarrow> string list) \<Rightarrow> string \<Rightarrow> 'w \<Rightarrow> (string \<times> string) list" where
  "list_indexed r index_of value w =
     (case gr_List r w of Inl err \<Rightarrow> []
      | Inr gms \<Rightarrow> map (\<lambda>gm. (gm_Namespace gm, gm_Name gm)) (filter (\<lambda>gm. value \<in> set (index_of gm)) gms))"

definition enqueueGroupMembershipsForUserChange ::
    "('w, 'z) GroupMembershipReconciler_scheme \<Rightarrow> K8sObject \<Rightarrow> 'w \<Rightarrow> (string \<times> string) list" where
  "enqueueGroupMembershipsForUserChange r user w = list_indexed r userRef_index (obj_Name user) w"

definition enqueueGroupMembershipsForGroupChange ::
    "('w, 'z) GroupMembershipReconciler_scheme \<Rightarrow> K8sObject \<Rightarrow> 'w \<Rightarrow> (string \<times> string) list" where
  "enqueueGroupMembershipsForGroupChange r g w = list_indexed r groupRef_index (obj_Namespace g @ ''/'' @ obj_Name g) w"

section \<open>systemgroup\_controller.go\<close>

datatype principal = principal_User (principal_object: K8sObject) | principal_ServiceAccount (principal_object: K8sObject)

definition systemGroupFinalizerKey :: string where "systemGroupFinalizerKey = ''iam.miloapis.com/system-group-membership''"
definition systemAuthenticatedGroup :: string where "systemAuthenticatedGroup = ''system_authenticated''"

record 'w ClusterClient =
  cc_Get :: "string \<Rightarrow> string \<Rightarrow> 'w \<Rightarrow> K8sObject result"
  cc_Update :: "K8sObject \<Rightarrow> 'w \<Rightarrow> (unit, 'w) call"

record 'w SystemGroupReconciler =
  sg_Client :: "'w ClusterClient"
  sg_GetCluster :: "string \<Rightarrow> 'w \<Rightarrow> 'w ClusterClient result"
  sg_FGAClient :: "'w OpenFGAServiceClient"
  sg_FGAStoreID :: string
  sg_ModelIDProvider :: "'w ModelIDProvider option"
  sg_Util :: FinalizerUtil
  sg_RemoveFinalizer :: "K8sObject \<Rightarrow> string \<Rightarrow> K8sObject"

definition systemGroupTupleKey :: "principal \<Rightarrow> TupleKey" where
  "systemGroupTupleKey p =
     (let identityToken = (case p of principal_User obj \<Rightarrow> obj_Name obj | principal_ServiceAccount obj \<Rightarrow> obj_UID obj)
      in \<lparr>tk_User = ''iam.miloapis.com/InternalUser:'' @ identityToken, tk_Relation = ''member'',
          tk_Object = ''iam.miloapis.com/InternalUserGroup:'' @ systemAuthenticatedGroup, tk_Condition = None\<rparr>)"

definition systemGroupTupleExists :: "('w, 'z) SystemGroupReconciler_scheme \<Rightarrow> TupleKey \<Rightarrow> 'w \<Rightarrow> bool result" where
  "systemGroupTupleExists r tupleKey w =
     try_pure (Read (sg_FGAClient r)
         \<lparr>rq_StoreId = sg_FGAStoreID r, rq_ContinuationToken = [], rq_PageSize = 1,
          rq_TupleKey = \<lparr>rk_User = tk_User tupleKey, rk_Relation = tk_Relation tupleKey, rk_Object = tk_Object tupleKey\<rparr>\<rparr> w)
       (\<lambda>e. e) (\<lambda>resp. Inr (length (rs_Tuples resp) > 0))"

definition writeSystemGroupTuple :: "('w, 'z) SystemGroupReconciler_scheme \<Rightarrow> principal \<Rightarrow> 'w \<Rightarrow> (unit, 'w) call" where
  "writeSystemGroupTuple r p w =
     (let tupleKey = systemGroupTupleKey p in
      if systemGroupTupleExists r tupleKey w = Inr True then (Inr (), w)
      else (case Write (sg_FGAClient r)
              \<lparr>wr_StoreId = sg_FGAStoreID r, wr_AuthorizationModelId = ModelIDFrom (sg_ModelIDProvider r) w,
               wr_Writes = Some \<lparr>writes_TupleKeys = [tupleKey], writes_OnDuplicate = []\<rparr>, wr_Deletes = None\<rparr> w of
              (Inl err, w) \<Rightarrow>
                if IsAlreadyExistsErr err then (Inr (), w)
                else (Inl (WrapError (''failed to write system group membership tuple for '' @ obj_Name (principal_object p)) err), w)
            | (Inr _, w) \<Rightarrow> (Inr (), w)))"

definition deleteSystemGroupTuple :: "('w, 'z) SystemGroupReconciler_scheme \<Rightarrow> principal \<Rightarrow> 'w \<Rightarrow> (unit, 'w) call" where
  "deleteSystemGroupTuple r p w =
     (let tupleKey = systemGroupTupleKey p in
      case Write (sg_FGAClient r)
          \<lparr>wr_StoreId = sg_FGAStoreID r, wr_AuthorizationModelId = ModelIDFrom (sg_ModelIDProvider r) w, wr_Writes = None,
           wr_Deletes = Some \<lparr>deletes_TupleKeys =
             [\<lparr>tkd_User = tk_User tupleKey, tkd_Relation = tk_Relation tupleKey, tkd_Object = tk_Object tupleKey\<rparr>], deletes_OnMissing = []\<rparr>\<rparr> w of
          (Inl err, w) \<Rightarrow>
            if IsTupleNotFoundErr err then (Inr (), w)
            else (Inl (WrapError (''failed to delete system group membership tuple for '' @ obj_Name (principal_object p)) err), w)
        | (Inr _, w) \<Rightarrow> (Inr (), w))"

definition sg_handleDeletion ::
    "('w, 'z) SystemGroupReconciler_scheme \<Rightarrow> principal \<Rightarrow> ('w, 'y) ClusterClient_scheme \<Rightarrow> 'w \<Rightarrow> (bool, 'w) call" where
  "sg_handleDeletion r p cli w =
     (let obj = principal_object p in
      if \<not> ContainsFinalizer (sg_Util r) obj systemGroupFinalizerKey then (Inr False, w)
      else try_call (deleteSystemGroupTuple r p w) (\<lambda>e. e)
        (\<lambda>_ w. try_call (cc_Update cli (sg_RemoveFinalizer r obj systemGroupFinalizerKey) w)
                 (WrapError (''failed to remove finalizer from '' @ obj_Kind obj @ '' '' @ obj_Name obj)) (\<lambda>_ w. (Inr False, w))))"

definition sg_reconcileObject ::
    "('w, 'z) SystemGroupReconciler_scheme \<Rightarrow> principal \<Rightarrow> ('w, 'y) ClusterClient_scheme \<Rightarrow> 'w \<Rightarrow> (bool, 'w) call" where
  "sg_reconcileObject r p cli w =
     (let obj = principal_object p in
      if obj_Deleting obj then sg_handleDeletion r p cli w
      else if \<not> ContainsFinalizer (sg_Util r) obj systemGroupFinalizerKey
      then try_call (cc_Update cli (AddFinalizer (sg_Util r) obj systemGroupFinalizerKey) w)
             (WrapError (''failed to add finalizer to '' @ obj_Kind obj @ '' '' @ obj_Name obj)) (\<lambda>_ w. (Inr True, w))
      else try_call (writeSystemGroupTuple r p w) (\<lambda>e. e) (\<lambda>_ w. (Inr False, w)))"

definition reconcileUser :: "('w, 'z) SystemGroupReconciler_scheme \<Rightarrow> string \<Rightarrow> string \<Rightarrow> 'w \<Rightarrow> (bool, 'w) call" where
  "reconcileUser r namespace name w =
     (case cc_Get (sg_Client r) namespace name w of
        Inl err \<Rightarrow> if IsNotFound err then (Inr False, w) else (Inl err, w)
      | Inr user \<Rightarrow> sg_reconcileObject r (principal_User user) (sg_Client r) w)"

definition reconcileServiceAccountMultiCluster ::
    "('w, 'z) SystemGroupReconciler_scheme \<Rightarrow> string \<Rightarrow> string \<Rightarrow> string \<Rightarrow> 'w \<Rightarrow> (bool, 'w) call" where
  "reconcileServiceAccountMultiCluster r ClusterName namespace name w =
     (case sg_GetCluster r ClusterName w of
        Inl err \<Rightarrow> (Inl (WrapError (''failed to get cluster '' @ ClusterName @ '' from manager'') err), w)
      | Inr cluster \<Rightarrow>
          (case cc_Get cluster namespace name w of
             Inl err \<Rightarrow> if IsNotFound err then (Inr False, w) else (Inl err, w)
           | Inr sa \<Rightarrow> sg_reconcileObject r (principal_ServiceAccount sa) cluster w))"

section \<open>The membership interface\<close>

text \<open>
  Both controllers keep membership tuples with an operation that adds the tuple of a
  request and one that removes it. \<open>ok r stored\<close> is what an implementation relies on.
  Whatever an operation returns, it touches no key but the request's, and a success
  means that the key is there, or gone. The abstract state is the set of keys stored,
  and a run of operations refines a run of insertions and removals.
\<close>

fun run_updates :: "('p \<Rightarrow> 'w \<Rightarrow> (unit, 'w) call) \<Rightarrow> ('p \<Rightarrow> 'w \<Rightarrow> (unit, 'w) call) \<Rightarrow> (bool \<times> 'p) list \<Rightarrow> 'w \<Rightarrow> (unit, 'w) call" where
  "run_updates add remove_op [] w = (Inr (), w)"
| "run_updates add remove_op ((adding, p) # ops) w =
     try_call (if adding then add p w else remove_op p w) (\<lambda>e. e) (\<lambda>_ w. run_updates add remove_op ops w)"

definition apply_update :: "bool \<times> 'p \<Rightarrow> 'p set \<Rightarrow> 'p set" where
  "apply_update u S = (if fst u then insert (snd u) S else S - {snd u})"

locale membership_ops =
  fixes ok :: "'r \<Rightarrow> ('w \<Rightarrow> TupleKey set) \<Rightarrow> bool" and key :: "'p \<Rightarrow> TupleKey"
    and add :: "'r \<Rightarrow> 'p \<Rightarrow> 'w \<Rightarrow> (unit, 'w) call" and remove_op :: "'r \<Rightarrow> 'p \<Rightarrow> 'w \<Rightarrow> (unit, 'w) call"
  assumes add_frame: "ok r stored \<Longrightarrow> add r p w = (res, w') \<Longrightarrow> t \<noteq> tuple_key (key p) \<Longrightarrow>
      t \<in> tuple_key ` stored w' \<longleftrightarrow> t \<in> tuple_key ` stored w"
    and remove_frame: "ok r stored \<Longrightarrow> remove_op r p w = (res, w') \<Longrightarrow> t \<noteq> tuple_key (key p) \<Longrightarrow>
      t \<in> tuple_key ` stored w' \<longleftrightarrow> t \<in> tuple_key ` stored w"
    and add_there: "ok r stored \<Longrightarrow> add r p w = (Inr (), w') \<Longrightarrow> tuple_key (key p) \<in> tuple_key ` stored w'"
    and remove_gone: "ok r stored \<Longrightarrow> remove_op r p w = (Inr (), w') \<Longrightarrow> tuple_key (key p) \<notin> tuple_key ` stored w'"
begin

lemma add_refines:
  assumes "ok r stored" and "add r p w = (Inr (), w')"
  shows "tuple_key ` stored w' = insert (tuple_key (key p)) (tuple_key ` stored w)"
proof (rule set_eqI)
  fix t
  show "t \<in> tuple_key ` stored w' \<longleftrightarrow> t \<in> insert (tuple_key (key p)) (tuple_key ` stored w)"
    using add_frame[OF assms, of t] add_there[OF assms] by (cases "t = tuple_key (key p)") simp_all
qed

lemma remove_refines:
  assumes "ok r stored" and "remove_op r p w = (Inr (), w')"
  shows "tuple_key ` stored w' = tuple_key ` stored w - {tuple_key (key p)}"
proof (rule set_eqI)
  fix t
  show "t \<in> tuple_key ` stored w' \<longleftrightarrow> t \<in> tuple_key ` stored w - {tuple_key (key p)}"
    using remove_frame[OF assms, of t] remove_gone[OF assms] by (cases "t = tuple_key (key p)") simp_all
qed

lemma run_refines:
  assumes "ok r stored" and "run_updates (add r) (remove_op r) ops w = (Inr (), w')"
  shows "tuple_key ` stored w' = fold apply_update (map (\<lambda>(b, p). (b, tuple_key (key p))) ops) (tuple_key ` stored w)"
  using assms(2)
proof (induction ops arbitrary: w)
  case (Cons op ops)
  obtain adding p where op: "op = (adding, p)" by force
  from Cons.prems obtain w1 where step: "(if adding then add r p w else remove_op r p w) = (Inr (), w1)"
    and rest: "run_updates (add r) (remove_op r) ops w1 = (Inr (), w')"
    by (auto simp: op go_calls)
  have "tuple_key ` stored w1 = apply_update (adding, tuple_key (key p)) (tuple_key ` stored w)"
    using add_refines[OF assms(1)] remove_refines[OF assms(1)] step by (simp add: apply_update_def split: if_splits)
  with Cons.IH[OF rest] op show ?case by simp
qed simp

text \<open>When no two requests share a key, a run is a run on the set of requests that are stored.\<close>

definition requests :: "('w \<Rightarrow> TupleKey set) \<Rightarrow> 'w \<Rightarrow> 'p set" where
  "requests stored w = {p. tuple_key (key p) \<in> tuple_key ` stored w}"

lemma fold_requests:
  assumes "inj (\<lambda>p. tuple_key (key p))"
  shows "{p. tuple_key (key p) \<in> fold apply_update (map (\<lambda>(b, p). (b, tuple_key (key p))) ops) S} =
    fold apply_update ops {p. tuple_key (key p) \<in> S}"
proof (induction ops arbitrary: S)
  case (Cons op ops)
  have "{p. tuple_key (key p) \<in> apply_update (fst op, tuple_key (key (snd op))) S} = apply_update op {p. tuple_key (key p) \<in> S}"
    using assms by (auto simp: apply_update_def inj_def)
  with Cons.IH show ?case by (simp add: case_prod_beta)
qed simp

lemma run_requests:
  assumes "ok r stored" and "run_updates (add r) (remove_op r) ops w = (Inr (), w')" and "inj (\<lambda>p. tuple_key (key p))"
  shows "requests stored w' = fold apply_update ops (requests stored w)"
  using fold_requests[OF assms(3)] by (simp add: requests_def run_refines[OF assms(1,2)])

lemma run_frame:
  assumes "ok r stored" and "run_updates (add r) (remove_op r) ops w = (Inr (), w')" and "t \<notin> range (\<lambda>p. tuple_key (key p))"
  shows "t \<in> tuple_key ` stored w' \<longleftrightarrow> t \<in> tuple_key ` stored w"
proof -
  have "t \<in> fold apply_update (map (\<lambda>(b, p). (b, tuple_key (key p))) ops) S \<longleftrightarrow> t \<in> S" for S
  proof (induction ops arbitrary: S)
    case (Cons op ops)
    have "t \<noteq> tuple_key (key (snd op))" using assms(3) by blast
    then have "t \<in> apply_update (fst op, tuple_key (key (snd op))) S \<longleftrightarrow> t \<in> S" by (simp add: apply_update_def)
    with Cons.IH show ?case by (simp add: case_prod_beta)
  qed simp
  then show ?thesis by (simp add: run_refines[OF assms(1,2)])
qed

end

section \<open>What the controllers rely on\<close>

text \<open>
  \<open>duplicate_errors\<close>: when a write of one tuple fails because the tuple exists, it is
  stored, and when a deletion of one tuple fails because there is none, it is not.
  \<open>direct_checks\<close>: the relation \<open>member\<close> is assigned directly, so a Check of it says
  whether the tuple is stored.
\<close>

definition duplicate_errors :: "('w, 'z) OpenFGAServiceClient_scheme \<Rightarrow> ('w \<Rightarrow> TupleKey set) \<Rightarrow> bool" where
  "duplicate_errors client stored \<longleftrightarrow> (\<forall>rq w e w'. Write client rq w = (Inl e, w') \<longrightarrow>
     (\<forall>t. write_keys rq = [t] \<and> delete_keys rq = [] \<and> IsAlreadyExistsErr e \<longrightarrow> tuple_key t \<in> tuple_key ` stored w') \<and>
     (\<forall>k. write_keys rq = [] \<and> delete_keys rq = [k] \<and> IsTupleNotFoundErr e \<longrightarrow> k \<notin> tuple_key ` stored w'))"

definition direct_checks :: "(TupleCheckRequest \<Rightarrow> 'w \<Rightarrow> bool result) \<Rightarrow> ('w \<Rightarrow> TupleKey set) \<Rightarrow> bool" where
  "direct_checks check stored \<longleftrightarrow> (\<forall>rq w b. ck_Relation rq = ''member'' \<longrightarrow> check rq w = Inr b \<longrightarrow>
     (b \<longleftrightarrow> \<lparr>tkd_User = ck_User rq, tkd_Relation = ck_Relation rq, tkd_Object = ck_Object rq\<rparr> \<in> tuple_key ` stored w))"

definition groups_ok :: "('w, 'z) UserGroupReconciler_scheme \<Rightarrow> ('w \<Rightarrow> TupleKey set) \<Rightarrow> bool" where
  "groups_ok r stored \<longleftrightarrow>
     atomic_writes (ug_Client r) stored \<and> duplicate_errors (ug_Client r) stored \<and> direct_checks (ug_Check r) stored"

definition system_ok :: "('w, 'z) SystemGroupReconciler_scheme \<Rightarrow> ('w \<Rightarrow> TupleKey set) \<Rightarrow> bool" where
  "system_ok r stored \<longleftrightarrow> atomic_writes (sg_FGAClient r) stored \<and> duplicate_errors (sg_FGAClient r) stored \<and>
     (\<exists>listing position. paged_reads (sg_FGAClient r) stored listing position)"

text \<open>Writing one tuple and deleting one key, with the errors that mean it was done already.\<close>

lemma write_one:
  assumes "atomic_writes client stored" and "duplicate_errors client stored"
    and "Write client rq w = (res, w')" and "write_keys rq = [t]" and "delete_keys rq = []"
  shows "k \<noteq> tuple_key t \<Longrightarrow> k \<in> tuple_key ` stored w' \<longleftrightarrow> k \<in> tuple_key ` stored w"
    and "res = Inr () \<or> (\<exists>e. res = Inl e \<and> IsAlreadyExistsErr e) \<Longrightarrow> tuple_key t \<in> tuple_key ` stored w'"
proof -
  have effect: "write_effect rq S = insert t S" for S using assms(4,5) by (auto simp: write_effect_def)
  from atomic_writesD(2)[OF assms(1,3)] show "k \<noteq> tuple_key t \<Longrightarrow> k \<in> tuple_key ` stored w' \<longleftrightarrow> k \<in> tuple_key ` stored w"
    unfolding effect by auto
  show "tuple_key t \<in> tuple_key ` stored w'" if "res = Inr () \<or> (\<exists>e. res = Inl e \<and> IsAlreadyExistsErr e)"
    using that atomic_writesD(1)[OF assms(1,3)] assms(2-5) unfolding effect duplicate_errors_def by blast
qed

lemma delete_one:
  assumes "atomic_writes client stored" and "duplicate_errors client stored"
    and "Write client rq w = (res, w')" and "write_keys rq = []" and "delete_keys rq = [d]"
  shows "k \<noteq> d \<Longrightarrow> k \<in> tuple_key ` stored w' \<longleftrightarrow> k \<in> tuple_key ` stored w"
    and "res = Inr () \<or> (\<exists>e. res = Inl e \<and> IsTupleNotFoundErr e) \<Longrightarrow> d \<notin> tuple_key ` stored w'"
proof -
  have effect: "write_effect rq S = {t \<in> S. tuple_key t \<noteq> d}" for S using assms(4,5) by (auto simp: write_effect_def)
  from atomic_writesD(2)[OF assms(1,3)] show "k \<noteq> d \<Longrightarrow> k \<in> tuple_key ` stored w' \<longleftrightarrow> k \<in> tuple_key ` stored w"
    unfolding effect by auto
  show "d \<notin> tuple_key ` stored w'" if "res = Inr () \<or> (\<exists>e. res = Inl e \<and> IsTupleNotFoundErr e)"
    using that atomic_writesD(1)[OF assms(1,3)] assms(2-5) unfolding effect duplicate_errors_def by blast
qed

definition member_tuple :: "GroupMembershipRequest \<Rightarrow> TupleKey" where
  "member_tuple rq =
     \<lparr>tk_User = TypeInternalUser @ '':'' @ MemberUID rq, tk_Relation = ''member'', tk_Object = TypeInternalUserGroup @ '':'' @ GroupUID rq,
      tk_Condition = None\<rparr>"

lemma check_member:
  assumes "direct_checks (ug_Check r) stored" and "checkIfTupleKeyExists r (member_tuple rq) w = Inr b"
  shows "b \<longleftrightarrow> tuple_key (member_tuple rq) \<in> tuple_key ` stored w"
proof -
  let ?c = "\<lparr>ck_StoreId = ug_StoreID r, ck_User = tk_User (member_tuple rq), ck_Relation = tk_Relation (member_tuple rq),
    ck_Object = tk_Object (member_tuple rq)\<rparr>"
  have "ug_Check r ?c w = Inr b" using assms(2) by (simp add: checkIfTupleKeyExists_def go_calls)
  moreover have "ck_Relation ?c = ''member''" by (simp add: member_tuple_def)
  ultimately have "b \<longleftrightarrow> \<lparr>tkd_User = ck_User ?c, tkd_Relation = ck_Relation ?c, tkd_Object = ck_Object ?c\<rparr> \<in> tuple_key ` stored w"
    using assms(1) unfolding direct_checks_def by blast
  then show ?thesis unfolding tuple_key_def[of "member_tuple rq"] by simp
qed

lemma AddMemberToGroup_alt:
  "AddMemberToGroup r rq w =
     (case checkIfTupleKeyExists r (member_tuple rq) w of
        Inl err \<Rightarrow> (Inl (WrapError ''failed to check if GroupMember tuple key exists'' err), w)
      | Inr True \<Rightarrow> (Inr (), w)
      | Inr False \<Rightarrow>
          (case Write (ug_Client r)
             \<lparr>wr_StoreId = ug_StoreID r, wr_AuthorizationModelId = ModelIDFrom (ug_ModelIDProvider r) w,
              wr_Writes = Some \<lparr>writes_TupleKeys = [member_tuple rq], writes_OnDuplicate = []\<rparr>, wr_Deletes = None\<rparr> w of
             (Inl err, w) \<Rightarrow> if IsAlreadyExistsErr err then (Inr (), w) else (Inl (WrapError ''failed to write group membership tuple'' err), w)
           | (Inr _, w) \<Rightarrow> (Inr (), w)))"
  by (simp add: AddMemberToGroup_def getOpenFGAGroupAndMember_def member_tuple_def split: sum.splits bool.splits)

lemma RemoveMemberFromGroup_alt:
  "RemoveMemberFromGroup r rq w =
     (case checkIfTupleKeyExists r (member_tuple rq) w of
        Inl err \<Rightarrow> (Inl (WrapError ''failed to check if GroupMember tuple key exists'' err), w)
      | Inr False \<Rightarrow> (Inr (), w)
      | Inr True \<Rightarrow>
          (case Write (ug_Client r)
             \<lparr>wr_StoreId = ug_StoreID r, wr_AuthorizationModelId = ModelIDFrom (ug_ModelIDProvider r) w, wr_Writes = None,
              wr_Deletes = Some \<lparr>deletes_TupleKeys = [tuple_key (member_tuple rq)], deletes_OnMissing = []\<rparr>\<rparr> w of
             (Inl err, w) \<Rightarrow> if IsTupleNotFoundErr err then (Inr (), w) else (Inl (WrapError ''failed to delete group membership'' err), w)
           | (Inr _, w) \<Rightarrow> (Inr (), w)))"
  by (simp add: RemoveMemberFromGroup_def getOpenFGAGroupAndMember_def member_tuple_def convertTuplesForDelete_def tuple_key_def
      split: sum.splits bool.splits)

lemma AddMemberToGroup_cases:
  assumes "AddMemberToGroup r rq w = (res, w')"
  obtains (unread) "w' = w" and "res \<noteq> Inr ()"
    | (present) "w' = w" and "checkIfTupleKeyExists r (member_tuple rq) w = Inr True"
    | (written) q res1 where "Write (ug_Client r) q w = (res1, w')" and "write_keys q = [member_tuple rq]" and "delete_keys q = []"
        and "res = Inr () \<Longrightarrow> res1 = Inr () \<or> (\<exists>e. res1 = Inl e \<and> IsAlreadyExistsErr e)"
  using assms by (auto simp: AddMemberToGroup_alt write_keys_def delete_keys_def split: sum.splits bool.splits prod.splits if_splits)

lemma RemoveMemberFromGroup_cases:
  assumes "RemoveMemberFromGroup r rq w = (res, w')"
  obtains (unread) "w' = w" and "res \<noteq> Inr ()"
    | (absent) "w' = w" and "checkIfTupleKeyExists r (member_tuple rq) w = Inr False"
    | (deleted) q res1 where "Write (ug_Client r) q w = (res1, w')" and "write_keys q = []" and "delete_keys q = [tuple_key (member_tuple rq)]"
        and "res = Inr () \<Longrightarrow> res1 = Inr () \<or> (\<exists>e. res1 = Inl e \<and> IsTupleNotFoundErr e)"
  using assms by (auto simp: RemoveMemberFromGroup_alt write_keys_def delete_keys_def split: sum.splits bool.splits prod.splits if_splits)

lemma groups_frame:
  assumes ok: "groups_ok r stored" and "k \<noteq> tuple_key (member_tuple rq)"
  shows "AddMemberToGroup r rq w = (res, w') \<Longrightarrow> k \<in> tuple_key ` stored w' \<longleftrightarrow> k \<in> tuple_key ` stored w"
    and "RemoveMemberFromGroup r rq w = (res, w') \<Longrightarrow> k \<in> tuple_key ` stored w' \<longleftrightarrow> k \<in> tuple_key ` stored w"
proof -
  from ok have laws: "atomic_writes (ug_Client r) stored" "duplicate_errors (ug_Client r) stored" by (simp_all add: groups_ok_def)
  show "AddMemberToGroup r rq w = (res, w') \<Longrightarrow> k \<in> tuple_key ` stored w' \<longleftrightarrow> k \<in> tuple_key ` stored w"
    by (erule AddMemberToGroup_cases) (simp_all add: write_one(1)[OF laws _ _ _ assms(2)])
  show "RemoveMemberFromGroup r rq w = (res, w') \<Longrightarrow> k \<in> tuple_key ` stored w' \<longleftrightarrow> k \<in> tuple_key ` stored w"
    by (erule RemoveMemberFromGroup_cases) (simp_all add: delete_one(1)[OF laws _ _ _ assms(2)])
qed

lemma AddMemberToGroup_there:
  assumes ok: "groups_ok r stored" and run: "AddMemberToGroup r rq w = (Inr (), w')"
  shows "tuple_key (member_tuple rq) \<in> tuple_key ` stored w'"
  using run
proof (cases rule: AddMemberToGroup_cases)
  case present
  have "direct_checks (ug_Check r) stored" using ok by (simp add: groups_ok_def)
  from check_member[OF this present(2)] present(1) show ?thesis by simp
next
  case (written q res1)
  from ok have laws: "atomic_writes (ug_Client r) stored" "duplicate_errors (ug_Client r) stored" by (simp_all add: groups_ok_def)
  from write_one(2)[OF laws written(1-3) written(4)[OF refl]] show ?thesis .
qed simp

lemma RemoveMemberFromGroup_gone:
  assumes ok: "groups_ok r stored" and run: "RemoveMemberFromGroup r rq w = (Inr (), w')"
  shows "tuple_key (member_tuple rq) \<notin> tuple_key ` stored w'"
  using run
proof (cases rule: RemoveMemberFromGroup_cases)
  case absent
  have "direct_checks (ug_Check r) stored" using ok by (simp add: groups_ok_def)
  from check_member[OF this absent(2)] absent(1) show ?thesis by simp
next
  case (deleted q res1)
  from ok have laws: "atomic_writes (ug_Client r) stored" "duplicate_errors (ug_Client r) stored" by (simp_all add: groups_ok_def)
  from delete_one(2)[OF laws deleted(1-3) deleted(4)[OF refl]] show ?thesis .
qed simp

interpretation groups: membership_ops groups_ok member_tuple AddMemberToGroup RemoveMemberFromGroup
  by unfold_locales (auto dest: AddMemberToGroup_there RemoveMemberFromGroup_gone simp: groups_frame)

lemma systemGroupTupleExists_stored:
  assumes "paged_reads (sg_FGAClient r) stored listing position" and "systemGroupTupleExists r (systemGroupTupleKey p) w = Inr True"
  shows "tuple_key (systemGroupTupleKey p) \<in> tuple_key ` stored w"
proof -
  let ?t = "systemGroupTupleKey p"
  let ?k = "\<lparr>rk_User = tk_User ?t, rk_Relation = tk_Relation ?t, rk_Object = tk_Object ?t\<rparr>"
  let ?q = "\<lparr>rq_StoreId = sg_FGAStoreID r, rq_ContinuationToken = [], rq_PageSize = 1, rq_TupleKey = ?k\<rparr>"
  from assms(2) obtain resp where "Read (sg_FGAClient r) ?q w = Inr resp" and "rs_Tuples resp \<noteq> []"
    by (auto simp: systemGroupTupleExists_def go_calls)
  with assms(1) have "listing w ?k \<noteq> []"
    unfolding paged_reads_def Let_def by (metis ReadRequest.select_convs(2,4) append_is_Nil_conv drop_Nil)
  with assms(1) have "matching (stored w) ?k \<noteq> {}" unfolding paged_reads_def by (metis set_empty)
  then obtain t where "t \<in> stored w" "tk_User t = tk_User ?t" "tk_Relation t = tk_Relation ?t" "tk_Object t = tk_Object ?t"
    by (auto simp: matching_def object_matches_def type_filter_def systemGroupTupleKey_def systemAuthenticatedGroup_def Let_def)
  then have "tuple_key ?t = tuple_key t" by (simp add: tuple_key_def)
  with \<open>t \<in> stored w\<close> show ?thesis by blast
qed

lemma writeSystemGroupTuple_cases:
  assumes "writeSystemGroupTuple r p w = (res, w')"
  obtains (present) "w' = w" and "systemGroupTupleExists r (systemGroupTupleKey p) w = Inr True"
    | (written) q res1 where "Write (sg_FGAClient r) q w = (res1, w')" and "write_keys q = [systemGroupTupleKey p]" and "delete_keys q = []"
        and "res = Inr () \<Longrightarrow> res1 = Inr () \<or> (\<exists>e. res1 = Inl e \<and> IsAlreadyExistsErr e)"
  using assms by (auto simp: writeSystemGroupTuple_def Let_def write_keys_def delete_keys_def split: sum.splits prod.splits if_splits)

lemma deleteSystemGroupTuple_write:
  assumes "deleteSystemGroupTuple r p w = (res, w')"
  obtains q res1 where "Write (sg_FGAClient r) q w = (res1, w')" and "write_keys q = []" and "delete_keys q = [tuple_key (systemGroupTupleKey p)]"
    and "res = Inr () \<Longrightarrow> res1 = Inr () \<or> (\<exists>e. res1 = Inl e \<and> IsTupleNotFoundErr e)"
  using assms by (auto simp: deleteSystemGroupTuple_def Let_def write_keys_def delete_keys_def tuple_key_def split: sum.splits prod.splits if_splits)

lemma system_frame:
  assumes ok: "system_ok r stored" and "k \<noteq> tuple_key (systemGroupTupleKey p)"
  shows "writeSystemGroupTuple r p w = (res, w') \<Longrightarrow> k \<in> tuple_key ` stored w' \<longleftrightarrow> k \<in> tuple_key ` stored w"
    and "deleteSystemGroupTuple r p w = (res, w') \<Longrightarrow> k \<in> tuple_key ` stored w' \<longleftrightarrow> k \<in> tuple_key ` stored w"
proof -
  from ok have laws: "atomic_writes (sg_FGAClient r) stored" "duplicate_errors (sg_FGAClient r) stored" by (simp_all add: system_ok_def)
  show "writeSystemGroupTuple r p w = (res, w') \<Longrightarrow> k \<in> tuple_key ` stored w' \<longleftrightarrow> k \<in> tuple_key ` stored w"
    by (erule writeSystemGroupTuple_cases) (simp_all add: write_one(1)[OF laws _ _ _ assms(2)])
  show "deleteSystemGroupTuple r p w = (res, w') \<Longrightarrow> k \<in> tuple_key ` stored w' \<longleftrightarrow> k \<in> tuple_key ` stored w"
    by (erule deleteSystemGroupTuple_write) (simp add: delete_one(1)[OF laws _ _ _ assms(2)])
qed

lemma writeSystemGroupTuple_there:
  assumes ok: "system_ok r stored" and run: "writeSystemGroupTuple r p w = (Inr (), w')"
  shows "tuple_key (systemGroupTupleKey p) \<in> tuple_key ` stored w'"
  using run
proof (cases rule: writeSystemGroupTuple_cases)
  case present
  from ok obtain listing position where "paged_reads (sg_FGAClient r) stored listing position" by (auto simp: system_ok_def)
  from systemGroupTupleExists_stored[OF this present(2)] present(1) show ?thesis by simp
next
  case (written q res1)
  from ok have laws: "atomic_writes (sg_FGAClient r) stored" "duplicate_errors (sg_FGAClient r) stored" by (simp_all add: system_ok_def)
  from write_one(2)[OF laws written(1-3) written(4)[OF refl]] show ?thesis .
qed

lemma deleteSystemGroupTuple_gone:
  assumes ok: "system_ok r stored" and run: "deleteSystemGroupTuple r p w = (Inr (), w')"
  shows "tuple_key (systemGroupTupleKey p) \<notin> tuple_key ` stored w'"
proof -
  from ok have laws: "atomic_writes (sg_FGAClient r) stored" "duplicate_errors (sg_FGAClient r) stored" by (simp_all add: system_ok_def)
  from run show ?thesis by (rule deleteSystemGroupTuple_write) (use delete_one(2)[OF laws] in blast)
qed

interpretation sysgroup: membership_ops system_ok systemGroupTupleKey writeSystemGroupTuple deleteSystemGroupTuple
  by unfold_locales (auto dest: writeSystemGroupTuple_there deleteSystemGroupTuple_gone simp: system_frame)

section \<open>Memberships\<close>

lemma inj_member_tuple: "inj (\<lambda>rq. tuple_key (member_tuple rq))"
  by (rule injI) (simp add: tuple_key_def member_tuple_def)

text \<open>
  C16. Group membership refines a set of (member, group) pairs: after any sequence of
  successful additions and removals, the pairs whose tuple is stored are those that the
  same insertions and deletions leave of the pairs stored at the start, and the keys of
  all other tuples are as they were.
\<close>

theorem group_membership_refines_set:
  assumes "groups_ok r stored" and "run_updates (AddMemberToGroup r) (RemoveMemberFromGroup r) ops w = (Inr (), w')"
  shows "{rq. tuple_key (member_tuple rq) \<in> tuple_key ` stored w'} = fold apply_update ops {rq. tuple_key (member_tuple rq) \<in> tuple_key ` stored w} \<and>
    (\<forall>k. k \<notin> range (\<lambda>rq. tuple_key (member_tuple rq)) \<longrightarrow> (k \<in> tuple_key ` stored w' \<longleftrightarrow> k \<in> tuple_key ` stored w))"
  using groups.run_requests[OF assms inj_member_tuple] groups.run_frame[OF assms] unfolding groups.requests_def by blast


abbreviation membership_registry :: "('f \<Rightarrow> GroupMembership \<Rightarrow> 'w \<Rightarrow> (bool \<times> GroupMembership, 'w) call) \<Rightarrow> bool" where
  "membership_registry \<equiv> adds_finalizer (\<lambda>x. x) groupMembershipFinalizerKey gm_Deleting gm_Finalizers gm_Finalizers_update"

text \<open>
  \<open>membership_server\<close>: a successful status update is what the next read of the
  GroupMembership returns and leaves the tuples alone; writing tuples changes no
  GroupMembership.
\<close>

definition membership_server :: "('w, 'z) GroupMembershipReconciler_scheme \<Rightarrow> ('w \<Rightarrow> TupleKey set) \<Rightarrow> bool" where
  "membership_server r stored \<longleftrightarrow>
     (\<forall>gm w w'. gr_StatusUpdate r gm w = (Inr (), w') \<longrightarrow> gr_Get r (gm_Namespace gm) (gm_Name gm) w' = Inr gm \<and> stored w' = stored w) \<and>
     (\<forall>rq w res w' ns n. Write (ug_Client (gr_UserGroupReconciler r)) rq w = (res, w') \<longrightarrow> gr_Get r ns n w' = gr_Get r ns n w)"

definition ready_status :: "GroupMembership \<Rightarrow> string option" where
  "ready_status gm = map_option cond_Status (condition_of (gm_Conditions gm) ''Ready'')"

lemma gm_update_status_spec:
  assumes "membership_server r stored" and "gr_Get r (gm_Namespace gm) (gm_Name gm) w = Inr gm"
    and "gm_update_status r (gm_Conditions gm) (gm\<lparr>gm_Conditions := cs\<rparr>) w = (Inr b, w')"
  shows "\<exists>gm'. gr_Get r (gm_Namespace gm) (gm_Name gm) w' = Inr gm' \<and> gm_Conditions gm' = cs" and "stored w' = stored w"
proof -
  consider "w' = w" "gm_Conditions gm = cs" | "gr_StatusUpdate r (gm\<lparr>gm_Conditions := cs\<rparr>) w = (Inr (), w')"
    using assms(3) by (auto simp: gm_update_status_def go_calls split: if_splits)
  then have "(\<exists>gm'. gr_Get r (gm_Namespace gm) (gm_Name gm) w' = Inr gm' \<and> gm_Conditions gm' = cs) \<and> stored w' = stored w"
  proof cases
    case 1
    with assms(2) show ?thesis by blast
  next
    case 2
    with assms(1) show ?thesis by (fastforce simp: membership_server_def)
  qed
  then show "\<exists>gm'. gr_Get r (gm_Namespace gm) (gm_Name gm) w' = Inr gm' \<and> gm_Conditions gm' = cs" and "stored w' = stored w" by auto
qed

lemma AddMemberToGroup_keeps_objects:
  assumes "membership_server r stored" and "AddMemberToGroup (gr_UserGroupReconciler r) rq w = (res, w')"
  shows "gr_Get r ns n w' = gr_Get r ns n w"
  using assms(2) by (rule AddMemberToGroup_cases) (use assms(1) in \<open>auto simp: membership_server_def\<close>)

definition lookup_refs :: "('w, 'z) GroupMembershipReconciler_scheme \<Rightarrow> GroupMembership \<Rightarrow> 'w \<Rightarrow> GroupMembershipRequest option" where
  "lookup_refs r gm w =
     (case (gr_GetUser r [] (gm_UserRef_Name gm) w, gr_GetGroup r (gm_GroupRef_Namespace gm) (gm_GroupRef_Name gm) w) of
        (Inr user, Inr g) \<Rightarrow> Some \<lparr>MemberUID = obj_Name user, GroupUID = obj_UID g\<rparr> | _ \<Rightarrow> None)"

lemma gm_reconcile_refs_cases:
  assumes "condition_setter (gr_SetStatusCondition r)" and "gm_reconcile_refs r old gm w = (Inr b, w')"
  obtains (valid) rq w1 cs where "lookup_refs r gm w = Some rq" and "AddMemberToGroup (gr_UserGroupReconciler r) rq w = (Inr (), w1)"
      and "gm_update_status r old (gm\<lparr>gm_Conditions := cs\<rparr>) w1 = (Inr b, w')" and "map_option cond_Status (condition_of cs ''Ready'') = Some ''True''"
    | (invalid) cs where "lookup_refs r gm w = None"
      and "gm_update_status r old (gm\<lparr>gm_Conditions := cs\<rparr>) w = (Inr b, w')" and "map_option cond_Status (condition_of cs ''Ready'') = Some ''False''"
  using assms
  by (auto simp: gm_reconcile_refs_def lookup_refs_def validateRef_def gm_set_condition_def condition_of_set
      split: sum.splits option.splits prod.splits if_splits)

lemma reconcile_refs_exact:
  assumes ok: "groups_ok (gr_UserGroupReconciler r) stored" and setter: "condition_setter (gr_SetStatusCondition r)"
    and server: "membership_server r stored" and get: "gr_Get r (gm_Namespace gm) (gm_Name gm) w = Inr gm"
    and run: "gm_reconcile_refs r (gm_Conditions gm) gm w = (Inr requeue, w')"
  shows "\<exists>gm'. gr_Get r (gm_Namespace gm) (gm_Name gm) w' = Inr gm' \<and>
    (case lookup_refs r gm w of
       Some rq \<Rightarrow> ready_status gm' = Some ''True'' \<and> tuple_key ` stored w' = insert (tuple_key (member_tuple rq)) (tuple_key ` stored w)
     | None \<Rightarrow> ready_status gm' = Some ''False'' \<and> stored w' = stored w)"
proof -
  from setter run show ?thesis
  proof (cases rule: gm_reconcile_refs_cases)
    case (valid rq w1 cs)
    have get1: "gr_Get r (gm_Namespace gm) (gm_Name gm) w1 = Inr gm"
      using AddMemberToGroup_keeps_objects[OF server valid(2)] get by simp
    note status = gm_update_status_spec[OF server get1 valid(3)]
    from status(1) groups.add_refines[OF ok valid(2)] valid(1,4) show ?thesis
      unfolding status(2) by (auto simp: ready_status_def)
  next
    case (invalid cs)
    note status = gm_update_status_spec[OF server get invalid(2)]
    from status(1) invalid(1,3) show ?thesis unfolding status(2) by (auto simp: ready_status_def)
  qed
qed

text \<open>
  C30. When a live GroupMembership is reconciled without error: if it does not carry the
  finalizer yet, it is updated to carry it, nothing else happens and another round is
  asked for. If it carries it, it is afterwards Ready exactly if both the User and the
  Group it names exist; in that case the store has gained the membership tuple of the
  User's name and the Group's UID and nothing else, and otherwise the store is as it was.
\<close>

theorem GroupMembership_Reconcile_exact:
  assumes ok: "groups_ok (gr_UserGroupReconciler r) stored" and setter: "condition_setter (gr_SetStatusCondition r)"
    and server: "membership_server r stored" and reg: "membership_registry (gr_Finalizers r)"
    and get: "gr_Get r (gm_Namespace gm) (gm_Name gm) w = Inr gm" and live: "\<not> gm_Deleting gm"
    and run: "GroupMembership_Reconcile r (gm_Namespace gm) (gm_Name gm) w = (Inr requeue, w')"
  shows "if groupMembershipFinalizerKey \<notin> set (gm_Finalizers gm)
    then requeue \<and> gr_Update r (gm\<lparr>gm_Finalizers := gm_Finalizers gm @ [groupMembershipFinalizerKey]\<rparr>) w = (Inr (), w')
    else \<exists>gm'. gr_Get r (gm_Namespace gm) (gm_Name gm) w' = Inr gm' \<and>
      (case lookup_refs r gm w of
         Some rq \<Rightarrow> ready_status gm' = Some ''True'' \<and> tuple_key ` stored w' = insert (tuple_key (member_tuple rq)) (tuple_key ` stored w)
       | None \<Rightarrow> ready_status gm' = Some ''False'' \<and> stored w' = stored w)"
proof (cases "groupMembershipFinalizerKey \<in> set (gm_Finalizers gm)")
  case True
  with run live adds_finalizer_run[OF reg, of gm] have "gm_reconcile_refs r (gm_Conditions gm) gm w = (Inr requeue, w')"
    by (simp add: GroupMembership_Reconcile_def get)
  with True reconcile_refs_exact[OF ok setter server get] show ?thesis by simp
next
  case False
  with run live adds_finalizer_run[OF reg, of gm] show ?thesis
    by (auto simp: GroupMembership_Reconcile_def get go_calls)
qed

text \<open>
  The finalizer of a GroupMembership removes its tuple only while both objects exist.
  When the User went first the tuple stays, and since the tuple names the User by name, a
  later User of that name is a member of the Group.
\<close>

lemma UserGroup_Finalize_effect:
  assumes "groups_ok (gr_UserGroupReconciler r) stored" and "UserGroup_Finalize r gm w = (Inr (), w')"
    and "\<And>n u. gr_GetUser r [] n w = Inr u \<Longrightarrow> obj_UID u \<noteq> []" and "\<And>ns n g. gr_GetGroup r ns n w = Inr g \<Longrightarrow> obj_UID g \<noteq> []"
  shows "case lookup_refs r gm w of
      Some rq \<Rightarrow> tuple_key ` stored w' = tuple_key ` stored w - {tuple_key (member_tuple rq)}
    | None \<Rightarrow> w' = w"
  using assms groups.remove_refines[OF assms(1)]
  by (auto simp: UserGroup_Finalize_def lookup_refs_def split: sum.splits if_splits)

theorem UserGroup_Finalize_leaves_member:
  assumes "gr_GetUser r [] (gm_UserRef_Name gm) w = Inl err" and "IsNotFound err"
    and "gr_GetGroup r (gm_GroupRef_Namespace gm) (gm_GroupRef_Name gm) w = Inr g"
  shows "UserGroup_Finalize r gm w = (Inr (), w)"
  using assms by (simp add: UserGroup_Finalize_def)

section \<open>The authenticated principals\<close>

text \<open>
  A reconcile of a principal that ends without asking for another round leaves its tuple
  there while the principal lives, and gone once its deletion has started, provided the
  finalizer of the controller was on it; updates of the API server do not touch tuples.
\<close>

theorem sg_reconcileObject_effect:
  assumes ok: "system_ok r stored" and api: "\<And>obj w res w'. cc_Update cli obj w = (res, w') \<Longrightarrow> stored w' = stored w"
    and held: "ContainsFinalizer (sg_Util r) (principal_object p) systemGroupFinalizerKey"
    and run: "sg_reconcileObject r p cli w = (Inr requeue, w')"
  shows "\<not> requeue \<and> tuple_key ` stored w' =
    (if obj_Deleting (principal_object p) then tuple_key ` stored w - {tuple_key (systemGroupTupleKey p)}
     else insert (tuple_key (systemGroupTupleKey p)) (tuple_key ` stored w))"
proof (cases "obj_Deleting (principal_object p)")
  case True
  with run held obtain w1 where del: "deleteSystemGroupTuple r p w = (Inr (), w1)" and "\<not> requeue"
    and "cc_Update cli (sg_RemoveFinalizer r (principal_object p) systemGroupFinalizerKey) w1 = (Inr (), w')"
    by (auto simp: sg_reconcileObject_def sg_handleDeletion_def Let_def go_calls)
  with True sysgroup.remove_refines[OF ok del] api show ?thesis by simp
next
  case False
  with run held have "writeSystemGroupTuple r p w = (Inr (), w')" and "\<not> requeue"
    by (auto simp: sg_reconcileObject_def Let_def go_calls)
  with False sysgroup.add_refines[OF ok] show ?thesis by simp
qed


section \<open>Evaluations\<close>

record gm_world = mem_world +
  gw_membership :: GroupMembership

definition mem_check :: "TupleCheckRequest \<Rightarrow> ('z) mem_world_scheme \<Rightarrow> bool result" where
  "mem_check rq w = Inr (list_ex (\<lambda>t. tk_User t = ck_User rq \<and> tk_Relation t = ck_Relation rq \<and> tk_Object t = ck_Object rq) (mem_tuples w))"

definition example_groups :: "('z mem_world_scheme) UserGroupReconciler" where
  "example_groups = \<lparr>ug_StoreID = ''s'', ug_Client = mem_client, ug_Check = mem_check, ug_ModelIDProvider = None\<rparr>"

lemma mem_duplicate_errors: "duplicate_errors mem_client mem_stored"
  by (auto simp: duplicate_errors_def mem_Write_def DeadlineExceeded_def IsAlreadyExistsErr_def IsTupleNotFoundErr_def split: if_splits)

lemma mem_direct_checks: "direct_checks mem_check mem_stored"
  by (auto simp: direct_checks_def mem_check_def mem_stored_def list_ex_iff tuple_key_def image_iff) metis

lemma example_groups_ok: "groups_ok example_groups mem_stored"
  by (simp add: groups_ok_def example_groups_def mem_atomic_writes mem_duplicate_errors mem_direct_checks)

definition empty_world :: mem_world where
  "empty_world = \<lparr>mem_tuples = [], mem_models = [], mem_timeouts = 0, mem_model_id = []\<rparr>"

definition membership :: "string \<Rightarrow> string \<Rightarrow> GroupMembershipRequest" where
  "membership m g = \<lparr>MemberUID = m, GroupUID = g\<rparr>"

text \<open>Ada joins twice, Bob joins, and Ada leaves.\<close>

theorem group_membership_refines_set_witness:
  "\<exists>w'. run_updates (AddMemberToGroup example_groups) (RemoveMemberFromGroup example_groups)
       [(True, membership ''ada'' ''g''), (True, membership ''ada'' ''g''), (True, membership ''bob'' ''g''), (False, membership ''ada'' ''g'')] empty_world = (Inr (), w') \<and>
     {rq. tuple_key (member_tuple rq) \<in> tuple_key ` mem_stored w'} = {membership ''bob'' ''g''}"
proof -
  let ?ops = "[(True, membership ''ada'' ''g''), (True, membership ''ada'' ''g''), (True, membership ''bob'' ''g''), (False, membership ''ada'' ''g'')]"
  let ?run = "run_updates (AddMemberToGroup example_groups) (RemoveMemberFromGroup example_groups) ?ops empty_world"
  define w' where "w' = snd ?run"
  have run: "?run = (Inr (), w')" unfolding w'_def by code_simp
  have "fold apply_update ?ops {rq. tuple_key (member_tuple rq) \<in> tuple_key ` mem_stored empty_world} = {membership ''bob'' ''g''}"
    by (auto simp: apply_update_def mem_stored_def empty_world_def membership_def)
  with group_membership_refines_set[OF example_groups_ok run] run show ?thesis by auto
qed

definition example_gm :: GroupMembership where
  "example_gm =
     \<lparr>gm_Namespace = ''ns'', gm_Name = ''ada-in-g'', gm_Deleting = False, gm_Finalizers = [groupMembershipFinalizerKey],
      gm_UserRef_Name = ''ada'', gm_GroupRef_Name = ''g'', gm_GroupRef_Namespace = ''ns'', gm_Conditions = []\<rparr>"

definition example_object :: "string \<Rightarrow> string \<Rightarrow> K8sObject" where
  "example_object kind name =
     \<lparr>obj_Group = ''iam.miloapis.com'', obj_Kind = kind, obj_Namespace = [], obj_Name = name, obj_UID = name @ ''-uid'', obj_Deleting = False,
      obj_Generation = 1, obj_Finalizers = [], obj_OwnerReferences = []\<rparr>"

definition example_gr :: "gm_world GroupMembershipReconciler" where
  "example_gr =
     \<lparr>gr_Get = (\<lambda>_ _ w. Inr (gw_membership w)), gr_GetUser = (\<lambda>_ n _. Inr (example_object ''User'' n)),
      gr_GetGroup = (\<lambda>_ n _. Inr (example_object ''Group'' n)), gr_List = (\<lambda>w. Inr [gw_membership w]),
      gr_Update = (\<lambda>gm w. (Inr (), w\<lparr>gw_membership := gm\<rparr>)), gr_StatusUpdate = (\<lambda>gm w. (Inr (), w\<lparr>gw_membership := gm\<rparr>)),
      gr_Finalizers = (\<lambda>f gm w. (Inr (registry_result groupMembershipFinalizerKey gm_Finalizers gm_Finalizers_update gm), w)), gr_Event = (\<lambda>_ _ _ _ w. w), gr_SetStatusCondition = put_condition,
      gr_UserGroupReconciler = example_groups, gr_MaxConcurrentReconciles = 0\<rparr>"

definition example_gm_world :: gm_world where
  "example_gm_world = \<lparr>mem_tuples = [], mem_models = [], mem_timeouts = 0, mem_model_id = [], gw_membership = example_gm\<rparr>"

theorem GroupMembership_Reconcile_exact_witness:
  "\<exists>w' gm'. GroupMembership_Reconcile example_gr ''ns'' ''ada-in-g'' example_gm_world = (Inr False, w') \<and>
     gr_Get example_gr ''ns'' ''ada-in-g'' w' = Inr gm' \<and> ready_status gm' = Some ''True'' \<and>
     tuple_key ` mem_stored w' = {tuple_key (member_tuple (membership ''ada'' ''g-uid''))}"
proof -
  define w' where "w' = snd (GroupMembership_Reconcile example_gr ''ns'' ''ada-in-g'' example_gm_world)"
  have run: "GroupMembership_Reconcile example_gr (gm_Namespace example_gm) (gm_Name example_gm) example_gm_world = (Inr False, w')"
    unfolding w'_def by code_simp
  have names: "gm_Namespace example_gm = ''ns''" "gm_Name example_gm = ''ada-in-g''" by (simp_all add: example_gm_def)
  have ok: "groups_ok (gr_UserGroupReconciler example_gr) mem_stored" and setter: "condition_setter (gr_SetStatusCondition example_gr)"
    by (simp_all add: example_gr_def example_groups_ok put_condition_setter)
  have server: "membership_server example_gr mem_stored"
    by (auto simp: membership_server_def example_gr_def example_groups_def mem_stored_def mem_Write_def split: if_splits)
  have start: "gr_Get example_gr (gm_Namespace example_gm) (gm_Name example_gm) example_gm_world = Inr example_gm" "\<not> gm_Deleting example_gm"
    by (simp_all add: example_gr_def example_gm_world_def example_gm_def)
  have reg: "membership_registry (gr_Finalizers example_gr)" by (simp add: example_gr_def adds_finalizer_def)
  have key: "groupMembershipFinalizerKey \<in> set (gm_Finalizers example_gm)" by (simp add: example_gm_def)
  have refs: "lookup_refs example_gr example_gm example_gm_world = Some (membership ''ada'' ''g-uid'')" by code_simp
  have "mem_stored example_gm_world = {}" by (simp add: mem_stored_def example_gm_world_def)
  with GroupMembership_Reconcile_exact[OF ok setter server reg start run] key run refs show ?thesis unfolding names by auto
qed


end
