(* ===== verification/Wiring.thy ===== *)
theory Wiring
  imports Binding_Controller Role_Controller Membership Hierarchy Model_Controller Webhook_Caches
begin

text \<open>
  How the controllers are registered with their managers: the \<open>SetupWithManager\<close> methods of
  \<open>internal/controller\<close>. What a method does to the manager is recorded as a list of actions:
  the indexes, the finalizers and the finished controller with the kinds it watches, the
  predicates on their events and the functions that map an event to requests. The manager, the
  finalizer registry and the controller builder are library code: whether a call succeeds is a
  field of the record \<open>libs\<close>. Handles of library objects (clients, managers, lock pools) have the
  type \<open>'h\<close>.
\<close>

section \<open>Controllers as data\<close>

datatype watched_kind =
    PolicyBindings | Roles | ProtectedResources | Users | ServiceAccounts | Groups | GroupMemberships | Projects | Organizations

text \<open>The predicates: none, \<open>predicate.GenerationChangedPredicate\<close>, and the two that the repository defines.\<close>

datatype event_predicate = EveryEvent | GenerationChanged | ProtectedResourceEvents | ProjectEvents

datatype map_func =
    OwnKey | PolicyBindingsForProtectedResource | PolicyBindingsForRole | RolesForProtectedResource | RolesForInheritedRole |
    MembershipsForUser | MembershipsForGroup

record controller_watch =
  cw_Kind :: watched_kind
  cw_Predicate :: event_predicate
  cw_Map :: map_func

abbreviation watches :: "watched_kind \<Rightarrow> event_predicate \<Rightarrow> map_func \<Rightarrow> controller_watch" where
  "watches k p f \<equiv> \<lparr>cw_Kind = k, cw_Predicate = p, cw_Map = f\<rparr>"

text \<open>A model ID watcher with the cluster and, if it is restricted to one, the namespace of its informer.\<close>

record 'h model_id_source =
  mis_Cluster :: 'h
  mis_Namespace :: "string option"
  mis_Watcher :: AuthorizationModelIDWatcher

text \<open>
  The fields of the reconciler structs that the set-up reads or passes on; a nil field, and a
  field that a struct does not have, is \<open>None\<close>.
\<close>

record 'h Reconciler =
  rc_EnableSubresourceAuthorization :: "bool option"
  rc_Client :: 'h
  rc_FGAClient :: "'h option"
  rc_StoreID :: string
  rc_ModelIDProvider :: "'h model_id_source option"
  rc_MaxConcurrentReconciles :: int
  rc_Locks :: "'h option"
  rc_ConfigMapNamespace :: string
  rc_ConfigMapName :: string
  rc_ConfigMapClient :: "'h option"
  rc_RESTMapper :: "'h option"
  rc_AuthzModelReconciler :: "('h option \<times> string) option"

text \<open>\<open>Options\<close> that are not given leave a parallelism of zero, which the library reads as one.\<close>

record 'h controller_spec =
  cs_Name :: string
  cs_Manager :: 'h
  cs_Watches :: "controller_watch list"
  cs_StartupSource :: bool
  cs_MaxConcurrentReconciles :: int
  cs_JitteredRateLimiter :: bool
  cs_PriorityQueue :: bool
  cs_Reconciler :: "'h Reconciler"

datatype 'h action =
    IndexField 'h watched_kind string
  | RegisterFinalizer string "'h Reconciler"
  | Complete "'h controller_spec"

record 'h libs =
  lib_IndexField :: "'h \<Rightarrow> watched_kind \<Rightarrow> string \<Rightarrow> unit result"
  lib_Register :: "string \<Rightarrow> unit result"
  lib_Complete :: "'h controller_spec \<Rightarrow> unit result"
  lib_GetRESTMapper :: "'h \<Rightarrow> 'h"

text \<open>A call that changes a library object when it succeeds.\<close>

definition attempt :: "'a result \<Rightarrow> 'b \<Rightarrow> 'b list \<Rightarrow> ('a, 'b list) call" where
  "attempt res act log = (case res of Inl err \<Rightarrow> (Inl err, log) | Inr x \<Rightarrow> (Inr x, log @ [act]))"

definition index_field :: "('h, 'z) libs_scheme \<Rightarrow> 'h \<Rightarrow> watched_kind \<Rightarrow> string \<Rightarrow> 'h action list \<Rightarrow> (unit, 'h action list) call" where
  "index_field L mgr k field = attempt (lib_IndexField L mgr k field) (IndexField mgr k field)"

definition register_finalizer :: "('h, 'z) libs_scheme \<Rightarrow> string \<Rightarrow> 'h Reconciler \<Rightarrow> 'h action list \<Rightarrow> (unit, 'h action list) call" where
  "register_finalizer L key r = attempt (lib_Register L key) (RegisterFinalizer key r)"

definition complete :: "('h, 'z) libs_scheme \<Rightarrow> 'h controller_spec \<Rightarrow> 'h action list \<Rightarrow> (unit, 'h action list) call" where
  "complete L spec = attempt (lib_Complete L spec) (Complete spec)"

section \<open>The options of the controllers\<close>

definition TargetObjectIndexField :: string where "TargetObjectIndexField = ''openfga.targetObject''"
definition TargetKindIndexField :: string where "TargetKindIndexField = ''openfga.targetKind''"
definition RoleRefIndexField :: string where "RoleRefIndexField = ''openfga.roleRef''"
definition protectedResourceServiceKindIndexField :: string where
  "protectedResourceServiceKindIndexField = ''protectedresource.serviceKind''"
definition groupMembershipUserRefIndexField :: string where "groupMembershipUserRefIndexField = ''groupmembership.userRef.name''"
definition groupMembershipGroupRefIndexField :: string where "groupMembershipGroupRefIndexField = ''groupmembership.groupRef''"
definition systemGroupMaxConcurrentReconciles :: int where "systemGroupMaxConcurrentReconciles = 1"
definition DefaultOpenFGAStoreID :: string where "DefaultOpenFGAStoreID = ''default_store_id''"

definition errNoLocks :: go_error where
  "errNoLocks = ErrorString ''the reconciler needs the object locks it shares with the other reconcilers''"

definition enablePriorityQueue :: bool where "enablePriorityQueue = True"

text \<open>\<open>WithOptions\<close> with a parallelism, the jittered rate limiter and the priority queue.\<close>

definition with_options :: "string \<Rightarrow> 'h \<Rightarrow> controller_watch list \<Rightarrow> int \<Rightarrow> 'h Reconciler \<Rightarrow> 'h controller_spec" where
  "with_options name mgr ws n r =
     \<lparr>cs_Name = name, cs_Manager = mgr, cs_Watches = ws, cs_StartupSource = False, cs_MaxConcurrentReconciles = n,
      cs_JitteredRateLimiter = True, cs_PriorityQueue = enablePriorityQueue, cs_Reconciler = r\<rparr>"

section \<open>\<open>SetupWithManager\<close>\<close>

definition max_or :: "'h Reconciler \<Rightarrow> int \<Rightarrow> int" where
  "max_or r n = (if rc_MaxConcurrentReconciles r > 0 then rc_MaxConcurrentReconciles r else n)"

definition Role_SetupWithManager :: "('h, 'z) libs_scheme \<Rightarrow> 'h Reconciler \<Rightarrow> 'h \<Rightarrow> 'h action list \<Rightarrow> (unit, 'h action list) call" where
  "Role_SetupWithManager L r mgr log =
     try_call (register_finalizer L roleFinalizerKey r log) (WrapError ''failed to register role finalizer'')
     (\<lambda>_. complete L (with_options ''role'' mgr
        [watches Roles GenerationChanged OwnKey,
         watches ProtectedResources GenerationChanged RolesForProtectedResource,
         watches Roles GenerationChanged RolesForInheritedRole]
        (max_or r defaultRoleMaxConcurrentReconciles) r))"

definition setupPolicyBindingIndexes :: "('h, 'z) libs_scheme \<Rightarrow> 'h \<Rightarrow> 'h action list \<Rightarrow> (unit, 'h action list) call" where
  "setupPolicyBindingIndexes L mgr log =
     try_call (index_field L mgr PolicyBindings TargetObjectIndexField log) (WrapError ''index PolicyBinding target object'')
     (\<lambda>_ log. try_call (index_field L mgr PolicyBindings TargetKindIndexField log) (WrapError ''index PolicyBinding target kind'')
     (\<lambda>_ log. try_call (index_field L mgr PolicyBindings RoleRefIndexField log) (WrapError ''index PolicyBinding roleRef'')
     (\<lambda>_ log. try_call (index_field L mgr ProtectedResources protectedResourceServiceKindIndexField log)
        (WrapError ''index ProtectedResource service/kind'')
     (\<lambda>_ log. (Inr (), log)))))"

definition with_mapper :: "('h, 'z) libs_scheme \<Rightarrow> 'h Reconciler \<Rightarrow> 'h \<Rightarrow> 'h Reconciler" where
  "with_mapper L r mgr = (if rc_RESTMapper r = None then r\<lparr>rc_RESTMapper := Some (lib_GetRESTMapper L mgr)\<rparr> else r)"

definition PolicyBinding_SetupWithManager :: "('h, 'z) libs_scheme \<Rightarrow> 'h Reconciler \<Rightarrow> 'h \<Rightarrow> 'h action list \<Rightarrow> (unit, 'h action list) call" where
  "PolicyBinding_SetupWithManager L r mgr log =
     (if rc_Locks r = None then (Inl errNoLocks, log)
      else
        let r = with_mapper L r mgr in
        try_call (setupPolicyBindingIndexes L mgr log) (\<lambda>e. e)
     (\<lambda>_ log. try_call (register_finalizer L policyBindingFinalizerKey r log) (WrapError ''failed to register policy binding finalizer'')
     (\<lambda>_. complete L (with_options ''policybinding'' mgr
        [watches PolicyBindings GenerationChanged OwnKey,
         watches ProtectedResources GenerationChanged PolicyBindingsForProtectedResource,
         watches Roles EveryEvent PolicyBindingsForRole]
        (max_or r defaultPolicyBindingMaxConcurrentReconciles) r))))"

definition Hierarchy_SetupWithManager :: "('h, 'z) libs_scheme \<Rightarrow> 'h Reconciler \<Rightarrow> 'h \<Rightarrow> 'h action list \<Rightarrow> (unit, 'h action list) call" where
  "Hierarchy_SetupWithManager L r mgr log =
     (if rc_Locks r = None then (Inl errNoLocks, log)
      else let r = (if rc_StoreID r = [] then r\<lparr>rc_StoreID := DefaultOpenFGAStoreID\<rparr> else r) in
        try_call (register_finalizer L resourceOwnerHierarchyFinalizer r log) (WrapError ''failed to register finalizer'')
     (\<lambda>_ log.
        if rc_FGAClient r = None \<and> rc_AuthzModelReconciler r \<noteq> None then (Inl (ErrorString ''FGAClient is not initialized''), log)
        else
          let r = (if rc_AuthzModelReconciler r \<noteq> None then r\<lparr>rc_AuthzModelReconciler := Some (rc_FGAClient r, rc_StoreID r)\<rparr> else r) in
          complete L
        \<lparr>cs_Name = ''resourceownerhierarchy-controller'', cs_Manager = mgr, cs_Watches = [watches Projects ProjectEvents OwnKey],
         cs_StartupSource = False, cs_MaxConcurrentReconciles = 0, cs_JitteredRateLimiter = False, cs_PriorityQueue = False, cs_Reconciler = r\<rparr> log))"

definition Organization_SetupWithManager :: "('h, 'z) libs_scheme \<Rightarrow> 'h Reconciler \<Rightarrow> 'h \<Rightarrow> 'h action list \<Rightarrow> (unit, 'h action list) call" where
  "Organization_SetupWithManager L r mgr log =
     (if rc_Locks r = None then (Inl errNoLocks, log)
      else try_call (register_finalizer L resourceOwnerHierarchyFinalizer r log) (WrapError ''failed to register finalizer'')
     (\<lambda>_. complete L
        \<lparr>cs_Name = ''organization-controller'', cs_Manager = mgr, cs_Watches = [watches Organizations EveryEvent OwnKey],
         cs_StartupSource = False, cs_MaxConcurrentReconciles = 0, cs_JitteredRateLimiter = False, cs_PriorityQueue = False, cs_Reconciler = r\<rparr>))"

definition AuthorizationModel_SetupWithManager ::
    "('h, 'z) libs_scheme \<Rightarrow> 'h Reconciler \<Rightarrow> 'h \<Rightarrow> 'h action list \<Rightarrow> (unit, 'h action list) call" where
  "AuthorizationModel_SetupWithManager L r mgr log =
     (if rc_FGAClient r = None then (Inl (ErrorString ''FGAClient is not set on AuthorizationModelReconciler''), log)
      else if rc_StoreID r = [] then (Inl (ErrorString ''FGAStoreID is not set on AuthorizationModelReconciler''), log)
      else
        let r = r\<lparr>rc_ConfigMapClient := (case rc_ConfigMapClient r of None \<Rightarrow> Some (rc_Client r) | Some c \<Rightarrow> Some c)\<rparr> in
        try_call (register_finalizer L protectedResourceFinalizerKey r log) (WrapError ''failed to register protected resource finalizer'')
     (\<lambda>_. complete L
        \<lparr>cs_Name = ''authorizationmodel_controller'', cs_Manager = mgr, cs_Watches = [watches ProtectedResources ProtectedResourceEvents OwnKey],
         cs_StartupSource = True, cs_MaxConcurrentReconciles = 1, cs_JitteredRateLimiter = False, cs_PriorityQueue = False, cs_Reconciler = r\<rparr>))"

definition GroupMembership_SetupWithManager :: "('h, 'z) libs_scheme \<Rightarrow> 'h Reconciler \<Rightarrow> 'h \<Rightarrow> 'h action list \<Rightarrow> (unit, 'h action list) call" where
  "GroupMembership_SetupWithManager L r mgr log =
     try_call (register_finalizer L groupMembershipFinalizerKey r log) (WrapError ''failed to register group membership finalizer'')
     (\<lambda>_ log. try_call (index_field L mgr GroupMemberships groupMembershipUserRefIndexField log) (WrapError ''index GroupMembership userRef'')
     (\<lambda>_ log. try_call (index_field L mgr GroupMemberships groupMembershipGroupRefIndexField log) (WrapError ''index GroupMembership groupRef'')
     (\<lambda>_. complete L (with_options ''groupmembership'' mgr
        [watches GroupMemberships GenerationChanged OwnKey,
         watches Users GenerationChanged MembershipsForUser,
         watches Groups GenerationChanged MembershipsForGroup]
        (max_or r defaultGroupMembershipMaxConcurrentReconciles) r))))"

definition systemgroup_user :: "'h Reconciler \<Rightarrow> 'h \<Rightarrow> 'h controller_spec" where
  "systemgroup_user r mgr =
     with_options ''systemgroup_user'' mgr [watches Users GenerationChanged OwnKey] systemGroupMaxConcurrentReconciles r"

definition systemgroup_serviceaccount :: "'h Reconciler \<Rightarrow> 'h \<Rightarrow> 'h controller_spec" where
  "systemgroup_serviceaccount r mcMgr =
     with_options ''systemgroup_serviceaccount'' mcMgr [watches ServiceAccounts GenerationChanged OwnKey] systemGroupMaxConcurrentReconciles r"

definition SystemGroup_SetupWithManager :: "('h, 'z) libs_scheme \<Rightarrow> 'h Reconciler \<Rightarrow> 'h \<Rightarrow> 'h action list \<Rightarrow> (unit, 'h action list) call" where
  "SystemGroup_SetupWithManager L r mgr log =
     try_call (complete L (systemgroup_user r mgr) log) (WrapError ''failed to register user systemgroup reconciler'')
     (\<lambda>_ log. (Inr (), log))"

definition SetupWithManagerMultiCluster ::
    "('h, 'z) libs_scheme \<Rightarrow> 'h Reconciler \<Rightarrow> 'h \<Rightarrow> 'h \<Rightarrow> 'h action list \<Rightarrow> (unit, 'h action list) call" where
  "SetupWithManagerMultiCluster L r mgr mcMgr log =
     try_call (complete L (systemgroup_user r mgr) log) (WrapError ''failed to register user systemgroup reconciler'')
     (\<lambda>_ log. try_call (complete L (systemgroup_serviceaccount r mcMgr) log)
        (WrapError ''failed to register serviceaccount systemgroup reconciler'')
     (\<lambda>_ log. (Inr (), log)))"

text \<open>The reconcile function that the system group controllers leave unused.\<close>

definition SystemGroup_Reconcile :: "'q \<Rightarrow> 'w \<Rightarrow> (unit, 'w) call" where
  "SystemGroup_Reconcile req w = (Inr (), w)"

section \<open>What a registration does\<close>

text \<open>Every action of a successful set-up, and where each controller comes from.\<close>

lemma attempt_ok_iff: "attempt res act log = (Inr x, log') \<longleftrightarrow> res = Inr x \<and> log' = log @ [act]"
  by (auto simp: attempt_def split: sum.splits)

lemmas setup_steps = attempt_ok_iff index_field_def register_finalizer_def complete_def try_call_ok_iff

lemma Role_setup_complete:
  assumes "Role_SetupWithManager L r mgr log = (Inr (), log')"
  shows "log' = log @ [RegisterFinalizer roleFinalizerKey r,
    Complete (with_options ''role'' mgr
        [watches Roles GenerationChanged OwnKey,
         watches ProtectedResources GenerationChanged RolesForProtectedResource,
         watches Roles GenerationChanged RolesForInheritedRole]
        (max_or r defaultRoleMaxConcurrentReconciles) r)]"
  using assms by (auto simp: Role_SetupWithManager_def setup_steps)

lemma PolicyBinding_setup_complete:
  assumes "PolicyBinding_SetupWithManager L r mgr log = (Inr (), log')"
  shows "rc_Locks r \<noteq> None \<and> (let r = with_mapper L r mgr in log' = log @ [
    IndexField mgr PolicyBindings TargetObjectIndexField, IndexField mgr PolicyBindings TargetKindIndexField,
    IndexField mgr PolicyBindings RoleRefIndexField, IndexField mgr ProtectedResources protectedResourceServiceKindIndexField,
    RegisterFinalizer policyBindingFinalizerKey r,
    Complete (with_options ''policybinding'' mgr
        [watches PolicyBindings GenerationChanged OwnKey,
         watches ProtectedResources GenerationChanged PolicyBindingsForProtectedResource,
         watches Roles EveryEvent PolicyBindingsForRole]
        (max_or r defaultPolicyBindingMaxConcurrentReconciles) r)])"
  using assms by (auto simp: PolicyBinding_SetupWithManager_def setupPolicyBindingIndexes_def setup_steps Let_def split: if_splits)

section \<open>Events\<close>

text \<open>
  An event on an object of a watched kind. The library asks the predicate of a watch whether
  to admit the event, and calls the map function on the object, on an update on both versions.
\<close>

datatype 'o change = Created 'o | Updated 'o 'o | Removed 'o

fun changed_objects :: "'o change \<Rightarrow> 'o set" where
  "changed_objects (Created x) = {x}"
| "changed_objects (Updated x y) = {x, y}"
| "changed_objects (Removed x) = {x}"

definition delivered ::
    "(event_predicate \<Rightarrow> 'o change \<Rightarrow> bool) \<Rightarrow> (map_func \<Rightarrow> 'o \<Rightarrow> 'q list option) \<Rightarrow> 'h controller_spec \<Rightarrow> watched_kind \<Rightarrow>
     'o change \<Rightarrow> 'q set" where
  "delivered admits maps spec k change =
     {q. \<exists>wt \<in> set (cs_Watches spec). cw_Kind wt = k \<and> admits (cw_Predicate wt) change \<and>
        (\<exists>x \<in> changed_objects change. \<exists>qs. maps (cw_Map wt) x = Some qs \<and> q \<in> set qs)}"

text \<open>
  The documented behaviour of the predicates on Roles: without a predicate every event is
  admitted; the generation predicate drops exactly the updates that keep the generation.
\<close>

definition predicates_ok :: "(event_predicate \<Rightarrow> RoleObject change \<Rightarrow> bool) \<Rightarrow> bool" where
  "predicates_ok admits \<longleftrightarrow> (\<forall>c. admits EveryEvent c) \<and>
     (\<forall>c. \<not> admits GenerationChanged c \<longleftrightarrow> (\<exists>x y. c = Updated x y \<and> role_Generation x = role_Generation y))"

text \<open>How the controllers map an event on a Role to requests.\<close>

definition binding_maps :: "('w, 'z) PolicyBindingReconciler_scheme \<Rightarrow> 'w \<Rightarrow> map_func \<Rightarrow> RoleObject \<Rightarrow> (string \<times> string) list option" where
  "binding_maps r w f x = (case f of PolicyBindingsForRole \<Rightarrow> enqueuePolicyBindingsForRoleChange r (Role.truncate x) w | _ \<Rightarrow> Some [])"

definition role_maps :: "('w, 'z) RoleReconciler_scheme \<Rightarrow> 'w \<Rightarrow> map_func \<Rightarrow> RoleObject \<Rightarrow> ObjectKey list option" where
  "role_maps r w f x =
     (case f of OwnKey \<Rightarrow> Some [role_key x] | RolesForInheritedRole \<Rightarrow> enqueueRequestsForInheritedRoleChange r x w | _ \<Rightarrow> Some [])"

section \<open>Effective permissions depend on specifications only\<close>

definition same_spec :: "'z Role_scheme \<Rightarrow> 'z Role_scheme \<Rightarrow> bool" where
  "same_spec x y \<longleftrightarrow> role_key x = role_key y \<and> role_IncludedPermissions x = role_IncludedPermissions y \<and>
     role_InheritedRoles x = role_InheritedRoles y"

definition same_specs :: "'z role_lookup \<Rightarrow> 'z role_lookup \<Rightarrow> bool" where
  "same_specs Get Get' \<longleftrightarrow> (\<forall>ns n. rel_sum (=) same_spec (Get ns n) (Get' ns n))"

lemma same_spec_identifier: "same_spec x y \<Longrightarrow> roleIdentifier x = roleIdentifier y \<and> role_Namespace x = role_Namespace y"
  by (simp add: same_spec_def roleIdentifier_def role_key_def)

lemma same_specs_sym:
  fixes Get :: "'a role_lookup"
  assumes "same_specs Get Get'"
  shows "same_specs Get' Get"
proof -
  have "rel_sum (=) same_spec b a" if "rel_sum (=) same_spec a b" for a b :: "go_error + 'a Role_scheme"
    using that by (cases a; cases b) (auto simp: same_spec_def)
  with assms show ?thesis by (simp add: same_specs_def)
qed

lemma effective_loop_same_specs:
  assumes same: "same_specs Get Get'" and run: "effective_loop Get ns refs visited perms unresolved = Some y"
  shows "effective_loop Get' ns refs visited perms unresolved = Some y"
  using run same
proof (induction Get ns refs visited perms unresolved y rule: effective_loop.raw_induct[rotated, consumes 1])
  case (1 loop Get ns refs visited perms unresolved y)
  note IH = "1.IH"[OF _ "1.prems"] and body = "1.hyps"
  show ?case
  proof (cases refs)
    case Nil
    with body show ?thesis by simp
  next
    case (Cons ref rest)
    have "rel_sum (=) same_spec (Get (ref_namespace ns ref) (roleRef_Name ref)) (Get' (ref_namespace ns ref) (roleRef_Name ref))"
      using "1.prems" by (simp add: same_specs_def)
    then show ?thesis
    proof (cases rule: rel_sum.cases)
      case (1 err err')
      with body Cons show ?thesis by (subst effective_loop.simps) (auto simp: Let_def intro: IH split: if_splits)
    next
      case (2 role role')
      then have "role_InheritedRoles role' = role_InheritedRoles role" "role_IncludedPermissions role' = role_IncludedPermissions role"
        "role_Namespace role' = role_Namespace role" "roleIdentifier role' = roleIdentifier role"
        using same_spec_identifier[of role role'] by (simp_all add: same_spec_def)
      with 2 body Cons show ?thesis
        by (subst effective_loop.simps)
          (auto simp: Let_def bind_eq_Some_conv IH split: if_splits sum.splits prod.splits dest!: IH)
    qed
  qed
qed

lemma getAllEffectivePermissions_same_specs:
  assumes "same_specs Get Get'" and "same_spec role role'"
  shows "getAllEffectivePermissions Get role visited = getAllEffectivePermissions Get' role' visited"
proof -
  have loop: "effective_loop Get ns refs V perms unresolved = effective_loop Get' ns refs V perms unresolved" for ns refs V perms unresolved
    using effective_loop_same_specs[OF assms(1)] effective_loop_same_specs[OF same_specs_sym[OF assms(1)]]
    by (metis option.exhaust)
  show ?thesis using assms(2) same_spec_identifier[OF assms(2)] unfolding getAllEffectivePermissions_def loop by (simp add: same_spec_def)
qed

section \<open>No event is lost\<close>

text \<open>A Role event changes one object of the cache; an update goes from the version it had to the version it has.\<close>

definition role_event :: "'z role_lookup \<Rightarrow> 'z role_lookup \<Rightarrow> ObjectKey \<Rightarrow> 'z Role_scheme change \<Rightarrow> bool" where
  "role_event Get Get' key c \<longleftrightarrow> changed_objects c \<subseteq> {x. role_key x = key} \<and> (\<forall>ns n. (ns, n) \<noteq> key \<longrightarrow> Get ns n = Get' ns n) \<and>
     (\<forall>x y. c = Updated x y \<longrightarrow> Get (fst key) (snd key) = Inr x \<and> Get' (fst key) (snd key) = Inr y)"

lemma changed_objects_nonempty: "\<exists>x. x \<in> changed_objects c"
  by (cases c) auto

lemma deliveredI:
  assumes "wt \<in> set (cs_Watches spec)" "admits (cw_Predicate wt) c" "x \<in> changed_objects c" "maps (cw_Map wt) x = Some qs" "q \<in> set qs"
  shows "q \<in> delivered admits maps spec (cw_Kind wt) c"
  using assms unfolding delivered_def by blast

text \<open>
  C26. Through the PolicyBinding controller as it is registered, no event on a Role is lost:
  after a successful set-up, a binding that an event on a Role does not queue is bound to
  another Role, and that Role's effective permissions are what they were.
\<close>

theorem role_events_reach_bindings:
  assumes setup_ok: "PolicyBinding_SetupWithManager L rc mgr [] = (Inr (), log)" "Complete spec \<in> set log" and admits: "predicates_ok admits"
    and lookups: "lookup_ok Get" "lookup_ok Get'" "\<And>ns n. (ns, n) \<noteq> key \<Longrightarrow> Get ns n = Get' ns n"
      "\<And>s. s \<in> set roles \<longleftrightarrow> Get' (role_Namespace s) (role_Name s) = Inr s"
    and event: "changed_objects c \<subseteq> {x. role_key x = key}"
    and lists: "pbr_ListRoles r w = Inr roles" "pbr_ListPolicyBindings r w = Inr pbs" and pb: "pb \<in> set pbs"
    and out: "(pb_Namespace pb, pb_Name pb) \<notin> delivered admits (binding_maps r w) spec Roles c"
    and bound: "Get' (ref_namespace (pb_Namespace pb) (pb_RoleRef pb)) (roleRef_Name (pb_RoleRef pb)) = Inr role"
  shows "Get (ref_namespace (pb_Namespace pb) (pb_RoleRef pb)) (roleRef_Name (pb_RoleRef pb)) = Inr role \<and>
    getAllEffectivePermissions Get role [] = getAllEffectivePermissions Get' role []"
proof -
  from changed_objects_nonempty[of c] obtain x where x: "x \<in> changed_objects c" by blast
  with event have key: "(role_Namespace (Role.truncate x), role_Name (Role.truncate x)) = key"
    by (auto simp: role_key_def Role.truncate_def)
  from rolesDependentOnRole_set[of roles key] obtain deps where deps: "rolesDependentOnRole (Inr roles) key = Some (Inr deps)" by auto
  then obtain requests where queue: "enqueuePolicyBindingsForRoleChange r (Role.truncate x) w = Some requests"
    using lists key by (auto simp: enqueuePolicyBindingsForRoleChange_def)
  have "watches Roles EveryEvent PolicyBindingsForRole \<in> set (cs_Watches spec)"
    using PolicyBinding_setup_complete[OF setup_ok(1)] setup_ok(2) by (auto simp: Let_def with_options_def)
  from deliveredI[OF this, of admits c x "binding_maps r w" requests "(pb_Namespace pb, pb_Name pb)"] out x queue admits
  have "(pb_Namespace pb, pb_Name pb) \<notin> set requests" by (auto simp: binding_maps_def predicates_ok_def)
  from unqueued_binding_keeps_permissions[OF lookups(1,2) _ lookups(4) lists pb queue this bound] lookups(3) key show ?thesis
    by metis
qed

text \<open>
  C27. Through the Role controller as it is registered, no event on a Role that matters is lost:
  after a successful set-up, a Role that an event does not queue has the effective permissions
  it had, where a Role keeps its specification as long as it keeps its generation.
\<close>

theorem role_events_reach_roles:
  assumes setup_ok: "Role_SetupWithManager L rc mgr [] = (Inr (), log)" "Complete spec \<in> set log" and admits: "predicates_ok admits"
    and lookups: "lookup_ok Get" "lookup_ok Get'" "\<And>s. s \<in> set roles \<longleftrightarrow> Get' (role_Namespace s) (role_Name s) = Inr s"
    and event: "role_event Get Get' key c"
    and generation: "\<And>x y. c = Updated x y \<Longrightarrow> role_Generation x = role_Generation y \<Longrightarrow> same_spec x y"
    and lists: "rr_ListRoles r w = Inr roles" and role: "role \<in> set roles"
    and out: "role_key role \<notin> delivered admits (role_maps r w) spec Roles c"
  shows "\<exists>old. Get (role_Namespace role) (role_Name role) = Inr old \<and>
    getAllEffectivePermissions Get old [] = getAllEffectivePermissions Get' role []"
proof (cases "admits GenerationChanged c")
  case False
  then obtain x y where c: "c = Updated x y" and spec: "same_spec x y"
    using admits generation unfolding predicates_ok_def by blast
  with event have get: "Get (fst key) (snd key) = Inr x" "Get' (fst key) (snd key) = Inr y" by (auto simp: role_event_def)
  have "rel_sum (=) same_spec (Get ns n) (Get' ns n)" for ns n
  proof (cases "(ns, n) = key")
    case True
    with get spec show ?thesis by auto
  next
    case False
    with event have "Get ns n = Get' ns n" by (simp add: role_event_def)
    then show ?thesis by (cases "Get' ns n") (simp_all add: same_spec_def)
  qed
  then have specs: "same_specs Get Get'" by (simp add: same_specs_def)
  have "Get' (role_Namespace role) (role_Name role) = Inr role" using lookups(3) role by blast
  then obtain old where "Get (role_Namespace role) (role_Name role) = Inr old" "same_spec old role"
    using specs[unfolded same_specs_def, rule_format, of "role_Namespace role" "role_Name role"]
    by (cases "Get (role_Namespace role) (role_Name role)") auto
  with getAllEffectivePermissions_same_specs[OF specs] show ?thesis by blast
next
  case True
  from changed_objects_nonempty[of c] obtain x where x: "x \<in> changed_objects c" by blast
  with event have key: "role_key x = key" by (auto simp: role_event_def)
  from rolesDependentOnRole_set[of roles key] obtain deps where deps: "rolesDependentOnRole (Inr roles) key = Some (Inr deps)" by auto
  have wts: "watches Roles GenerationChanged OwnKey \<in> set (cs_Watches spec)"
    "watches Roles GenerationChanged RolesForInheritedRole \<in> set (cs_Watches spec)"
    using Role_setup_complete[OF setup_ok(1)] setup_ok(2) by (auto simp: with_options_def)
  have maps: "role_maps r w OwnKey x = Some [key]" "role_maps r w RolesForInheritedRole x = Some (filter (\<lambda>k. k \<noteq> key) deps)"
    using lists deps key by (simp_all add: role_maps_def enqueueRequestsForInheritedRoleChange_def)
  from deliveredI[OF wts(1), of admits c x "role_maps r w" "[key]" key] True x maps(1) out have "role_key role \<noteq> key" by auto
  moreover from this deliveredI[OF wts(2), of admits c x "role_maps r w" "filter (\<lambda>k. k \<noteq> key) deps" "role_key role"] True x maps(2) out
  have "role_key role \<notin> set deps" by auto
  moreover have same: "(ns, n) \<noteq> key \<Longrightarrow> Get ns n = Get' ns n" for ns n using event by (simp add: role_event_def)
  ultimately show ?thesis
    using role_change_outside_dependents[OF lookups(1,2) same lookups(3) deps role] lookups(3) role same[of "role_Namespace role" "role_Name role"]
    by (auto simp: role_key_def)
qed

section \<open>Evaluations\<close>

definition example_libs :: "nat libs" where
  "example_libs = \<lparr>lib_IndexField = (\<lambda>_ _ _. Inr ()), lib_Register = (\<lambda>_. Inr ()), lib_Complete = (\<lambda>_. Inr ()), lib_GetRESTMapper = (\<lambda>m. m)\<rparr>"

definition example_reconciler :: "nat Reconciler" where
  "example_reconciler =
     \<lparr>rc_EnableSubresourceAuthorization = Some False, rc_Client = 1, rc_FGAClient = Some 2, rc_StoreID = ''s'', rc_ModelIDProvider = None,
      rc_MaxConcurrentReconciles = 0, rc_Locks = Some 4, rc_ConfigMapNamespace = [], rc_ConfigMapName = [], rc_ConfigMapClient = None,
      rc_RESTMapper = None, rc_AuthzModelReconciler = None\<rparr>"

definition example_admits :: "event_predicate \<Rightarrow> RoleObject change \<Rightarrow> bool" where
  "example_admits p c = (case (p, c) of (GenerationChanged, Updated x y) \<Rightarrow> role_Generation x \<noteq> role_Generation y | _ \<Rightarrow> True)"

lemma example_admits_ok: "predicates_ok example_admits"
proof -
  have "(\<not> example_admits GenerationChanged c) = (\<exists>x y. c = Updated x y \<and> role_Generation x = role_Generation y)" for c
    by (cases c) (simp_all add: example_admits_def)
  then show ?thesis by (simp add: predicates_ok_def example_admits_def)
qed

text \<open>A Role keeps its name and loses its permissions.\<close>

definition emptied :: "RoleObject \<Rightarrow> RoleObject change" where
  "emptied x = Updated x (x\<lparr>role_IncludedPermissions := [], role_Generation := role_Generation x + 1\<rparr>)"

theorem role_events_reach_bindings_witness:
  "getAllEffectivePermissions (cluster_Get [role_a, role_b, role_c]) role_c [] =
   getAllEffectivePermissions (cluster_Get [role_a, role_b\<lparr>role_IncludedPermissions := []\<rparr>, role_c]) role_c []"
proof -
  let ?roles = "[role_a, role_b\<lparr>role_IncludedPermissions := []\<rparr>, role_c]"
  let ?c = "emptied (Role.extend role_b (RoleObject.fields 1 [] 0 []))"
  let ?pb = "example_pb\<lparr>pb_RoleRef := \<lparr>roleRef_Name = ''c'', roleRef_Namespace = []\<rparr>\<rparr>"
  let ?r = "example_pbr\<lparr>pbr_ListPolicyBindings := (\<lambda>_. Inr [?pb])\<rparr>"
  obtain spec log where log: "PolicyBinding_SetupWithManager example_libs example_reconciler 0 [] = (Inr (), log)" "Complete spec \<in> set log"
    and ws: "cs_Watches spec = [watches PolicyBindings GenerationChanged OwnKey,
      watches ProtectedResources GenerationChanged PolicyBindingsForProtectedResource, watches Roles EveryEvent PolicyBindingsForRole]"
    by (simp add: PolicyBinding_SetupWithManager_def setupPolicyBindingIndexes_def index_field_def register_finalizer_def complete_def
        attempt_def example_libs_def example_reconciler_def try_call_def with_options_def Let_def)
  have oks: "lookup_ok (cluster_Get [role_a, role_b, role_c])" "lookup_ok (cluster_Get ?roles)"
    by (rule cluster_lookup_ok, auto simp: example_roles)+
  have same: "\<And>ns n. (ns, n) \<noteq> (''ns'', ''b'') \<Longrightarrow> cluster_Get [role_a, role_b, role_c] ns n = cluster_Get ?roles ns n"
    by (auto simp: cluster_Get_def example_roles)
  have listed: "\<And>s. s \<in> set ?roles \<longleftrightarrow> cluster_Get ?roles (role_Namespace s) (role_Name s) = Inr s"
    by (rule cluster_Get_iff[symmetric]) (simp add: example_roles role_key_def)
  have lists: "pbr_ListRoles ?r example_binding_world = Inr ?roles" "pbr_ListPolicyBindings ?r example_binding_world = Inr [?pb]" "?pb \<in> set [?pb]"
    by (simp_all add: example_pbr_def)
  have event: "changed_objects ?c \<subseteq> {x. role_key x = (''ns'', ''b'')}"
    by (simp add: emptied_def role_key_def example_roles Role.extend_def)
  have "list_all (\<lambda>x. binding_maps ?r example_binding_world PolicyBindingsForRole x = Some [])
     (case ?c of Updated x y \<Rightarrow> [x, y] | _ \<Rightarrow> [])" by code_simp
  then have out: "(pb_Namespace ?pb, pb_Name ?pb) \<notin> delivered example_admits (binding_maps ?r example_binding_world) spec Roles ?c"
    by (auto simp: delivered_def ws emptied_def)
  have bound: "cluster_Get ?roles (ref_namespace (pb_Namespace ?pb) (pb_RoleRef ?pb)) (roleRef_Name (pb_RoleRef ?pb)) = Inr role_c" by code_simp
  from role_events_reach_bindings[OF log example_admits_ok oks same listed event lists out bound] show ?thesis by simp
qed

theorem role_events_reach_roles_witness:
  "let viewer = role_object ''viewer'' [''s/ks.get''] []; solo = role_object ''solo'' [''s/ks.list''] [];
       after = [viewer\<lparr>role_IncludedPermissions := [], role_Generation := role_Generation viewer + 1\<rparr>, solo] in
   getAllEffectivePermissions (cluster_Get [viewer, solo]) solo [] = getAllEffectivePermissions (cluster_Get after) solo []"
proof -
  let ?viewer = "role_object ''viewer'' [''s/ks.get''] []" and ?solo = "role_object ''solo'' [''s/ks.list''] []"
  let ?c = "emptied ?viewer"
  let ?after = "[?viewer\<lparr>role_IncludedPermissions := [], role_Generation := role_Generation ?viewer + 1\<rparr>, ?solo]"
  obtain spec log where log: "Role_SetupWithManager example_libs example_reconciler 0 [] = (Inr (), log)" "Complete spec \<in> set log"
    and ws: "cs_Watches spec = [watches Roles GenerationChanged OwnKey,
      watches ProtectedResources GenerationChanged RolesForProtectedResource, watches Roles GenerationChanged RolesForInheritedRole]"
    by (simp add: Role_SetupWithManager_def register_finalizer_def complete_def attempt_def example_libs_def try_call_def with_options_def)
  have oks: "lookup_ok (cluster_Get [?viewer, ?solo])" "lookup_ok (cluster_Get ?after)"
    by (rule cluster_lookup_ok, auto simp: role_object_def)+
  have listed: "\<And>s. s \<in> set ?after \<longleftrightarrow> cluster_Get ?after (role_Namespace s) (role_Name s) = Inr s"
    by (rule cluster_Get_iff[symmetric]) (simp add: role_object_def role_key_def)
  have event: "role_event (cluster_Get [?viewer, ?solo]) (cluster_Get ?after) (''ns'', ''viewer'') ?c"
    by (auto simp: role_event_def emptied_def role_key_def role_object_def cluster_Get_def)
  have generation: "\<And>x y. ?c = Updated x y \<Longrightarrow> role_Generation x = role_Generation y \<Longrightarrow> same_spec x y"
    by (auto simp: emptied_def role_object_def)
  have lists: "rr_ListRoles example_role_reconciler ?after = Inr ?after" "?solo \<in> set ?after" by (simp_all add: example_role_reconciler_def)
  have "list_all (\<lambda>x. role_maps example_role_reconciler ?after OwnKey x = Some [(''ns'', ''viewer'')] \<and>
      role_maps example_role_reconciler ?after RolesForInheritedRole x = Some [])
     (case ?c of Updated x y \<Rightarrow> [x, y] | _ \<Rightarrow> [])" by code_simp
  then have out: "role_key ?solo \<notin> delivered example_admits (role_maps example_role_reconciler ?after) spec Roles ?c"
    by (auto simp: delivered_def ws emptied_def role_key_def role_object_def)
  have "cluster_Get [?viewer, ?solo] (role_Namespace ?solo) (role_Name ?solo) = Inr ?solo"
    by (simp add: cluster_Get_def role_object_def)
  with role_events_reach_roles[OF log example_admits_ok oks listed event generation lists out] show ?thesis by (simp add: Let_def)
qed

end
