(* ===== verification/Process.thy ===== *)
theory Process
  imports Wiring Webhook
begin

text \<open>
  The two processes of the program (\<open>cmd/manager.go\<close>, \<open>cmd/webhook.go\<close>, \<open>internal/config/config.go\<close>):
  what they construct from their flags, what they register and in which order, and that they
  release what they opened. Constructors of libraries are fields of the record \<open>platform\<close>, a
  function of their arguments that gives a handle or an error; what a process does to its managers,
  connections and servers is a log of steps. \<open>ctrl.GetConfigOrDie\<close> ends the process when there is
  no configuration; the field is the configuration it returns otherwise. What the manager command
  does from the start of the primary manager on is an argument here and the subject of \<open>Shutdown\<close>.
\<close>

section \<open>Options of managers and connections\<close>

text \<open>A copy of a REST configuration with its own rate limits and dialer, durations in nanoseconds.\<close>

record 'h election_config =
  ec_Base :: 'h
  ec_RateLimiter :: "'h option"
  ec_QPS :: int
  ec_Burst :: int
  ec_DialTimeout :: int
  ec_DialKeepAlive :: int

record 'h manager_options =
  mo_LeaderElection :: bool
  mo_LeaderElectionID :: string
  mo_LeaderElectionNamespace :: string
  mo_LeaderElectionResourceLock :: string
  mo_LeaseDuration :: "int option"
  mo_RenewDeadline :: "int option"
  mo_RetryPeriod :: "int option"
  mo_LeaderElectionConfig :: "'h election_config option"
  mo_LeaderElectionReleaseOnCancel :: bool
  mo_UnstructuredCache :: bool
  mo_MetricsBindAddress :: string
  mo_HealthProbeBindAddress :: string
  mo_WebhookServer :: "(string \<times> string \<times> string \<times> int) option"

definition no_options :: "'h manager_options" where
  "no_options =
     \<lparr>mo_LeaderElection = False, mo_LeaderElectionID = [], mo_LeaderElectionNamespace = [], mo_LeaderElectionResourceLock = [],
      mo_LeaseDuration = None, mo_RenewDeadline = None, mo_RetryPeriod = None, mo_LeaderElectionConfig = None,
      mo_LeaderElectionReleaseOnCancel = False, mo_UnstructuredCache = False, mo_MetricsBindAddress = [], mo_HealthProbeBindAddress = [],
      mo_WebhookServer = None\<rparr>"

definition seconds :: "int \<Rightarrow> int" where "seconds n = n * 1000000000"

definition leaderElectionQPS :: int where "leaderElectionQPS = 5"
definition leaderElectionBurst :: int where "leaderElectionBurst = 10"

definition leaderElectionRestConfig :: "'h \<Rightarrow> 'h election_config" where
  "leaderElectionRestConfig base =
     \<lparr>ec_Base = base, ec_RateLimiter = None, ec_QPS = leaderElectionQPS, ec_Burst = leaderElectionBurst,
      ec_DialTimeout = seconds 30, ec_DialKeepAlive = seconds 30\<rparr>"

definition electionOptions ::
    "'h \<Rightarrow> bool \<Rightarrow> string \<Rightarrow> string \<Rightarrow> string \<Rightarrow> int \<Rightarrow> int \<Rightarrow> int \<Rightarrow> 'h manager_options" where
  "electionOptions cfg enabled ident namespace lock lease renew retry = no_options
     \<lparr>mo_LeaderElection := enabled, mo_LeaderElectionID := ident, mo_LeaderElectionNamespace := namespace,
      mo_LeaderElectionResourceLock := lock, mo_LeaseDuration := Some lease, mo_RenewDeadline := Some renew, mo_RetryPeriod := Some retry,
      mo_LeaderElectionConfig := Some (leaderElectionRestConfig cfg), mo_LeaderElectionReleaseOnCancel := True\<rparr>"

record dial_options =
  do_TLS :: bool
  do_Keepalive :: "(int \<times> int \<times> bool) option"
  do_CallTimeout :: "int option"

text \<open>The interceptor of the manager's calls: a call without a deadline gets one, \<open>now\<close> and the timeout apart.\<close>

definition timeoutUnaryInterceptor :: "int \<Rightarrow> int \<Rightarrow> int option \<Rightarrow> (int option \<Rightarrow> 'w \<Rightarrow> ('a, 'w) call) \<Rightarrow> 'w \<Rightarrow> ('a, 'w) call" where
  "timeoutUnaryInterceptor timeout now deadline invoker =
     invoker (case deadline of None \<Rightarrow> Some (now + timeout) | Some d \<Rightarrow> Some d)"

definition ToLower_char :: "char \<Rightarrow> char" where
  "ToLower_char c = (if CHR ''A'' \<le> c \<and> c \<le> CHR ''Z'' then char_of (of_char c + 32 :: nat) else c)"

text \<open>\<open>strings.ToLower(openfgaScheme) == "https"\<close>: no character outside ASCII has one of these letters as its lower case.\<close>

definition is_https :: "string \<Rightarrow> bool" where
  "is_https scheme \<longleftrightarrow> map ToLower_char scheme = ''https''"

section \<open>The configuration file\<close>

text \<open>The discovery modes of the multicluster library; any other text is \<open>OtherProvider\<close>.\<close>

datatype discovery_mode = ProviderSingle | ProviderMilo | OtherProvider string

record DiscoveryConfig =
  dc_Mode :: discovery_mode
  dc_InternalServiceDiscovery :: bool
  dc_DiscoveryKubeconfigPath :: string
  dc_ProjectKubeconfigPath :: string

record AuthProviderOpenFGA =
  cfg_Discovery :: DiscoveryConfig

definition zero_config :: AuthProviderOpenFGA where
  "zero_config = \<lparr>cfg_Discovery = \<lparr>dc_Mode = OtherProvider [], dc_InternalServiceDiscovery = False, dc_DiscoveryKubeconfigPath = [],
     dc_ProjectKubeconfigPath = []\<rparr>\<rparr>"

section \<open>Steps of a process\<close>

datatype 'h worker = RunnableStart 'h | ProviderStart 'h 'h

datatype ready_check = Ping | CacheReady

record 'h webhook_config =
  wc_EnableSubresourceAuthorization :: bool
  wc_FGAClient :: 'h
  wc_FGAStoreID :: string
  wc_ModelIDWatcher :: "'h model_id_source"
  wc_ProtectedResourceCache :: 'h
  wc_DiscoveryClient :: 'h
  wc_DiscoveryTTL :: int

datatype 'h step =
    TracerInstalled 'h
  | TracerStopped 'h
  | Dialed 'h dial_options
  | Closed 'h
  | Did "'h action"
  | Registered 'h string "'h webhook_config"
  | Healthz 'h string
  | Readyz 'h string ready_check
  | AwaitsCache 'h
  | Added 'h 'h
  | Started 'h "'h worker list"

type_synonym ('a, 'h) process = "('a, 'h step list) call"

definition set_up :: "('h action list \<Rightarrow> (unit, 'h action list) call) \<Rightarrow> 'h step list \<Rightarrow> (unit, 'h) process" where
  "set_up f log = (case f [] of (res, acts) \<Rightarrow> (res, log @ map Did acts))"

text \<open>\<open>defer\<close>: the step is taken however the function returns.\<close>

definition deferred :: "'h step list \<Rightarrow> ('a, 'h) process \<Rightarrow> ('a, 'h) process" where
  "deferred acts p = (case p of (res, log) \<Rightarrow> (res, log @ acts))"

section \<open>Library constructors\<close>

text \<open>
  \<open>NewObjectLocks\<close> makes a new pool of mutexes each time: the pool depends on the steps taken
  before. \<open>url_Path\<close> is the path of the URL that \<open>url.Parse\<close> reads.
\<close>

record 'h platform = "'h libs" +
  ReadFile :: "string \<Rightarrow> string result"
  DecodeInto :: "string \<Rightarrow> AuthProviderOpenFGA \<Rightarrow> AuthProviderOpenFGA result"
  BuildConfigFromFlags :: "string \<Rightarrow> 'h result"
  GetConfig :: "'h result"
  GetConfigOrDie :: 'h
  InClusterConfig :: "'h result"
  grpc_NewClient :: "string \<Rightarrow> dial_options \<Rightarrow> 'h result"
  NewOpenFGAServiceClient :: "'h \<Rightarrow> 'h"
  cluster_New :: "'h \<Rightarrow> 'h result"
  mcsingle_New :: "string \<Rightarrow> 'h \<Rightarrow> 'h"
  miloprovider_New :: "'h \<Rightarrow> bool \<Rightarrow> 'h \<Rightarrow> 'h result"
  manager_New :: "'h \<Rightarrow> 'h manager_options \<Rightarrow> 'h result"
  mcmanager_New :: "'h \<Rightarrow> 'h \<Rightarrow> 'h manager_options \<Rightarrow> 'h result"
  NewForConfig :: "'h \<Rightarrow> 'h result"
  GetInformer :: "'h \<Rightarrow> unit result"
  GetProtectedResourceInformer :: "'h \<Rightarrow> unit result"
  AddEventHandler :: "'h \<Rightarrow> unit result"
  NewObjectLocks :: "int \<Rightarrow> 'h step list \<Rightarrow> 'h"
  client_New :: "'h \<Rightarrow> 'h result"
  GetClient :: "'h \<Rightarrow> 'h"
  AddHealthzCheck :: "'h \<Rightarrow> string \<Rightarrow> unit result"
  AddReadyzCheck :: "'h \<Rightarrow> string \<Rightarrow> unit result"
  mgr_Add :: "'h \<Rightarrow> 'h \<Rightarrow> unit result"
  resource_New :: "string \<Rightarrow> string \<Rightarrow> 'h result"
  url_Path :: "string \<Rightarrow> string result"
  url_JoinPath :: "string \<Rightarrow> string \<Rightarrow> string result"
  otlptracehttp_New :: "string \<Rightarrow> 'h result"
  NewTracerProvider :: "'h \<Rightarrow> 'h \<Rightarrow> 'h"
  noop_TracerProvider :: 'h
  AddToScheme :: "string \<Rightarrow> unit result"
  NewDiscoveryClientForConfig :: "'h \<Rightarrow> 'h result"
  NewMemCacheClient :: "'h \<Rightarrow> 'h"

definition DiscoveryRestConfig :: "('h, 'z) platform_scheme \<Rightarrow> DiscoveryConfig \<Rightarrow> 'h result" where
  "DiscoveryRestConfig P c = (if dc_DiscoveryKubeconfigPath c = [] then GetConfig P else BuildConfigFromFlags P (dc_DiscoveryKubeconfigPath c))"

definition ProjectRestConfig :: "('h, 'z) platform_scheme \<Rightarrow> DiscoveryConfig \<Rightarrow> 'h result" where
  "ProjectRestConfig P c = (if dc_ProjectKubeconfigPath c = [] then GetConfig P else BuildConfigFromFlags P (dc_ProjectKubeconfigPath c))"

definition load_server_config :: "('h, 'z) platform_scheme \<Rightarrow> string \<Rightarrow> AuthProviderOpenFGA result" where
  "load_server_config P serverConfigFile =
     (if serverConfigFile = [] then Inr (zero_config\<lparr>cfg_Discovery := (cfg_Discovery zero_config)\<lparr>dc_Mode := ProviderSingle\<rparr>\<rparr>)
      else (case ReadFile P serverConfigFile of
          Inl err \<Rightarrow> Inl (ErrorString (''unable to read server config from '' @ [CHR 0x22] @ serverConfigFile @ [CHR 0x22]))
        | Inr data \<Rightarrow> try_pure (DecodeInto P data zero_config) (WrapError ''unable to decode server config'') Inr))"

definition load_config :: "('h, 'z) platform_scheme \<Rightarrow> string \<Rightarrow> string \<Rightarrow> 'h result" where
  "load_config P kubeconfig msg =
     (if kubeconfig \<noteq> [] then try_pure (BuildConfigFromFlags P kubeconfig) (WrapError msg) Inr else Inr (GetConfigOrDie P))"

definition initializeClusterDiscovery :: "('h, 'z) platform_scheme \<Rightarrow> AuthProviderOpenFGA \<Rightarrow> 'h \<Rightarrow> ('h list \<times> 'h) result" where
  "initializeClusterDiscovery P serverConfig deploymentCluster =
     (let discovery = cfg_Discovery serverConfig; runnables = [deploymentCluster] in
      case dc_Mode discovery of
        ProviderSingle \<Rightarrow> Inr (runnables, mcsingle_New P ''single'' deploymentCluster)
      | ProviderMilo \<Rightarrow>
          try_pure (DiscoveryRestConfig P discovery) (WrapError ''unable to get discovery rest config'') (\<lambda>discoveryRestConfig.
          try_pure (ProjectRestConfig P discovery) (WrapError ''unable to get project rest config'') (\<lambda>projectRestConfig.
          try_pure (manager_New P discoveryRestConfig
              (no_options\<lparr>mo_UnstructuredCache := True, mo_MetricsBindAddress := ''0'', mo_HealthProbeBindAddress := ''0''\<rparr>))
            (WrapError ''unable to set up overall controller manager'') (\<lambda>discoveryManager.
          try_pure (miloprovider_New P discoveryManager (dc_InternalServiceDiscovery discovery) projectRestConfig)
            (WrapError ''unable to create datum project provider'') (\<lambda>provider.
          Inr (runnables @ [discoveryManager], provider)))))
      | OtherProvider mode \<Rightarrow> Inl (ErrorString (''unsupported cluster discovery mode '' @ mode)))"

section \<open>Model ID watchers\<close>

text \<open>
  The watcher on a manager's cache takes the namespace as an argument and does not use it: its
  informer is not restricted to a namespace.
\<close>

definition manager_watcher :: "('h, 'z) platform_scheme \<Rightarrow> 'h \<Rightarrow> string \<Rightarrow> string \<Rightarrow> string \<Rightarrow> 'h model_id_source result" where
  "manager_watcher P mgr namespace name seedModelID =
     try_pure (NewAuthorizationModelIDWatcher name seedModelID) (\<lambda>e. e) (\<lambda>w.
     try_pure (GetInformer P mgr) (WrapError ''failed to get ConfigMap informer'') (\<lambda>_.
     Inr \<lparr>mis_Cluster = mgr, mis_Namespace = None, mis_Watcher = w\<rparr>))"

definition NewAuthorizationModelIDWatcherWithConfig ::
    "('h, 'z) platform_scheme \<Rightarrow> 'h \<Rightarrow> string \<Rightarrow> string \<Rightarrow> string \<Rightarrow> 'h model_id_source result" where
  "NewAuthorizationModelIDWatcherWithConfig P cfg namespace name seedModelID =
     try_pure (NewAuthorizationModelIDWatcher name seedModelID) (\<lambda>e. e) (\<lambda>w.
     try_pure (NewForConfig P cfg) (WrapError ''failed to create kubernetes clientset for ConfigMap watcher'') (\<lambda>clientset.
     Inr \<lparr>mis_Cluster = cfg, mis_Namespace = Some namespace, mis_Watcher = w\<rparr>))"

definition new_watcher :: "('h, 'z) platform_scheme \<Rightarrow> 'h \<Rightarrow> string \<Rightarrow> string \<Rightarrow> 'h model_id_source result" where
  "new_watcher P mgr namespace name =
     try_pure
       (case InClusterConfig P of
          Inr inClusterCfg \<Rightarrow> NewAuthorizationModelIDWatcherWithConfig P inClusterCfg namespace name []
        | Inl inClusterErr \<Rightarrow> manager_watcher P mgr namespace name [])
       (WrapError ''failed to create authorization model ID watcher'') Inr"

section \<open>The manager command\<close>

record manager_flags =
  mf_EnableSubresourceAuthorization :: bool
  mf_MetricsAddr :: string
  mf_EnableLeaderElection :: bool
  mf_ProbeAddr :: string
  mf_OpenFGAAPIURL :: string
  mf_OpenFGAStoreID :: string
  mf_OpenFGAScheme :: string
  mf_LeaderElectionID :: string
  mf_LeaderElectionNamespace :: string
  mf_LeaderElectionResourceLock :: string
  mf_LeaseDuration :: int
  mf_RenewDeadline :: int
  mf_RetryPeriod :: int
  mf_ConfigmapNamespace :: string
  mf_ConfigmapName :: string
  mf_ServerConfigFile :: string
  mf_UpstreamClusterKubeconfig :: string
  mf_CoreControlPlaneKubeconfig :: string
  mf_PolicyBindingMaxConcurrentReconciles :: int
  mf_OpenFGATimeout :: int
  mf_OpenFGAKeepaliveTime :: int
  mf_OpenFGAKeepaliveTimeout :: int

text \<open>The defaults of the flags, given the variable \<open>POD_NAMESPACE\<close>; the URL and the store are required.\<close>

definition manager_defaults :: "string \<Rightarrow> manager_flags" where
  "manager_defaults pod_namespace =
     \<lparr>mf_EnableSubresourceAuthorization = False, mf_MetricsAddr = '':8080'', mf_EnableLeaderElection = False, mf_ProbeAddr = '':8081'',
      mf_OpenFGAAPIURL = [], mf_OpenFGAStoreID = [], mf_OpenFGAScheme = ''http'', mf_LeaderElectionID = ''4b85f171.miloapis.com'',
      mf_LeaderElectionNamespace = [], mf_LeaderElectionResourceLock = ''leases'', mf_LeaseDuration = seconds 15,
      mf_RenewDeadline = seconds 10, mf_RetryPeriod = seconds 2, mf_ConfigmapNamespace = pod_namespace,
      mf_ConfigmapName = ''openfga-authorization-model'', mf_ServerConfigFile = [], mf_UpstreamClusterKubeconfig = [],
      mf_CoreControlPlaneKubeconfig = [], mf_PolicyBindingMaxConcurrentReconciles = 8, mf_OpenFGATimeout = seconds 15,
      mf_OpenFGAKeepaliveTime = seconds 30, mf_OpenFGAKeepaliveTimeout = seconds 10\<rparr>"

record 'h managers =
  pm_Runnables :: "'h list"
  pm_Provider :: 'h
  pm_Primary :: 'h
  pm_Local :: 'h

text \<open>The clusters and the two managers.\<close>

definition new_managers :: "('h, 'z) platform_scheme \<Rightarrow> manager_flags \<Rightarrow> AuthProviderOpenFGA \<Rightarrow> 'h \<Rightarrow> 'h \<Rightarrow> 'h managers result" where
  "new_managers P fl serverConfig upstreamClusterConfig coreControlPlaneConfig =
     try_pure (cluster_New P (GetConfigOrDie P)) (WrapError ''failed to construct downstream cluster'') (\<lambda>deploymentCluster.
     try_pure (initializeClusterDiscovery P serverConfig deploymentCluster) (WrapError ''unable to initialize cluster discovery'')
       (\<lambda>(runnables, provider).
     try_pure (cluster_New P coreControlPlaneConfig) (WrapError ''failed to construct core control plane cluster'') (\<lambda>coreControlPlaneCluster.
     try_pure (mcmanager_New P upstreamClusterConfig provider
         ((electionOptions upstreamClusterConfig (mf_EnableLeaderElection fl) (mf_LeaderElectionID fl) (mf_LeaderElectionNamespace fl)
             (mf_LeaderElectionResourceLock fl) (mf_LeaseDuration fl) (mf_RenewDeadline fl) (mf_RetryPeriod fl))
           \<lparr>mo_MetricsBindAddress := mf_MetricsAddr fl, mo_HealthProbeBindAddress := mf_ProbeAddr fl\<rparr>))
       (WrapError ''unable to start multicluster manager'') (\<lambda>mcMgr.
     try_pure (manager_New P coreControlPlaneConfig
         (no_options\<lparr>mo_MetricsBindAddress := ''0'', mo_HealthProbeBindAddress := ''0'', mo_LeaderElection := False\<rparr>))
       (WrapError ''unable to create local manager'') (\<lambda>localMgr.
     Inr \<lparr>pm_Runnables = runnables @ [coreControlPlaneCluster], pm_Provider = provider, pm_Primary = mcMgr, pm_Local = localMgr\<rparr>)))))"

text \<open>A reconciler with the client of a manager, the OpenFGA client and the store.\<close>

definition new_reconciler :: "('h, 'z) platform_scheme \<Rightarrow> 'h \<Rightarrow> 'h \<Rightarrow> string \<Rightarrow> 'h Reconciler" where
  "new_reconciler P mgr fgaClient storeID =
     \<lparr>rc_EnableSubresourceAuthorization = None, rc_Client = GetClient P mgr, rc_FGAClient = Some fgaClient, rc_StoreID = storeID,
      rc_ModelIDProvider = None, rc_MaxConcurrentReconciles = 0, rc_Locks = None, rc_ConfigMapNamespace = [], rc_ConfigMapName = [],
      rc_ConfigMapClient = None, rc_RESTMapper = None, rc_AuthzModelReconciler = None\<rparr>"

definition setupHierarchyControllers :: "('h, 'z) platform_scheme \<Rightarrow> 'h \<Rightarrow> 'h \<Rightarrow> string \<Rightarrow> 'h \<Rightarrow> 'h step list \<Rightarrow> (unit, 'h) process" where
  "setupHierarchyControllers P mgr fgaClient storeID locks log =
     (let r = (new_reconciler P mgr fgaClient storeID)\<lparr>rc_Locks := Some locks\<rparr> in
      try_call (set_up (Hierarchy_SetupWithManager P r mgr) log) (WrapError ''unable to create controller ResourceOwnerHierarchy'')
     (\<lambda>_ log. try_call (set_up (Organization_SetupWithManager P r mgr) log) (WrapError ''unable to create controller Organization'')
     (\<lambda>_ log. (Inr (), log))))"

definition config_map_client :: "('h, 'z) platform_scheme \<Rightarrow> 'h option result" where
  "config_map_client P =
     (case InClusterConfig P of
        Inr inClusterConfig \<Rightarrow> try_pure (client_New P inClusterConfig) (WrapError ''unable to create in-cluster client for ConfigMap'') (\<lambda>c. Inr (Some c))
      | Inl inClusterErr \<Rightarrow> Inr None)"

text \<open>The controllers of the manager command, in the order of their registration.\<close>

definition setup_controllers ::
    "('h, 'z) platform_scheme \<Rightarrow> manager_flags \<Rightarrow> 'h \<Rightarrow> 'h managers \<Rightarrow> 'h model_id_source \<Rightarrow> 'h step list \<Rightarrow> (unit, 'h) process" where
  "setup_controllers P fl fgaClient ms modelIDWatcher log =
     (let localMgr = pm_Local ms;
          base = new_reconciler P localMgr fgaClient (mf_OpenFGAStoreID fl);
          pinned = base\<lparr>rc_ModelIDProvider := Some modelIDWatcher\<rparr>;
          enabled = Some (mf_EnableSubresourceAuthorization fl) in
      try_call (set_up (Role_SetupWithManager P (pinned\<lparr>rc_EnableSubresourceAuthorization := enabled\<rparr>) localMgr) log)
        (WrapError ''unable to create controller Role'')
     (\<lambda>_ log. let locks = NewObjectLocks P 0 log in
        try_call (set_up (PolicyBinding_SetupWithManager P
            (pinned\<lparr>rc_EnableSubresourceAuthorization := enabled,
                    rc_MaxConcurrentReconciles := mf_PolicyBindingMaxConcurrentReconciles fl, rc_Locks := Some locks\<rparr>) localMgr) log)
        (WrapError ''unable to create controller PolicyBinding'')
     (\<lambda>_ log. try_call (setupHierarchyControllers P localMgr fgaClient (mf_OpenFGAStoreID fl) locks log) (\<lambda>e. e)
     (\<lambda>_ log. try_call (config_map_client P, log) (\<lambda>e. e)
     (\<lambda>configMapClient log. try_call (set_up (AuthorizationModel_SetupWithManager P
            (base\<lparr>rc_EnableSubresourceAuthorization := enabled, rc_ConfigMapNamespace := mf_ConfigmapNamespace fl,
                  rc_ConfigMapName := mf_ConfigmapName fl, rc_ConfigMapClient := configMapClient\<rparr>) localMgr) log)
        (WrapError ''unable to create controller AuthorizationModel'')
     (\<lambda>_ log. try_call (set_up (GroupMembership_SetupWithManager P pinned localMgr) log)
        (WrapError ''unable to create controller GroupMembership'')
     (\<lambda>_ log. try_call (set_up (SetupWithManagerMultiCluster P pinned localMgr (pm_Primary ms)) log)
        (WrapError ''unable to create controller SystemGroup'')
     (\<lambda>_ log. (Inr (), log)))))))))"

text \<open>Probes, the local manager behind the primary one, and the run of the primary manager with its workers.\<close>

definition serve ::
    "('h, 'z) platform_scheme \<Rightarrow> ('h \<Rightarrow> 'h worker list \<Rightarrow> unit result) \<Rightarrow> 'h managers \<Rightarrow> 'h step list \<Rightarrow> (unit, 'h) process" where
  "serve P run ms log =
     (let mcMgr = pm_Primary ms; workers = map RunnableStart (pm_Runnables ms) @ [ProviderStart (pm_Provider ms) mcMgr] in
      try_call (attempt (AddHealthzCheck P mcMgr ''healthz'') (Healthz mcMgr ''healthz'') log) (WrapError ''unable to set up health check'')
     (\<lambda>_ log. try_call (attempt (AddReadyzCheck P mcMgr ''readyz'') (Readyz mcMgr ''readyz'' Ping) log) (WrapError ''unable to set up ready check'')
     (\<lambda>_ log. try_call (attempt (mgr_Add P mcMgr (pm_Local ms)) (Added mcMgr (pm_Local ms)) log) (WrapError ''unable to add local manager runnable'')
     (\<lambda>_ log. try_call (run mcMgr workers, log @ [Started mcMgr workers]) (WrapError ''manager error'')
     (\<lambda>_ log. (Inr (), log))))))"

text \<open>From the connection to OpenFGA on.\<close>

definition run_connected ::
    "('h, 'z) platform_scheme \<Rightarrow> ('h \<Rightarrow> 'h worker list \<Rightarrow> unit result) \<Rightarrow> manager_flags \<Rightarrow> AuthProviderOpenFGA \<Rightarrow> 'h \<Rightarrow> 'h \<Rightarrow> 'h \<Rightarrow>
     'h step list \<Rightarrow> (unit, 'h) process" where
  "run_connected P run fl serverConfig upstreamClusterConfig coreControlPlaneConfig conn log =
     try_call (new_managers P fl serverConfig upstreamClusterConfig coreControlPlaneConfig, log) (\<lambda>e. e)
     (\<lambda>ms log. try_call (new_watcher P (pm_Local ms) (mf_ConfigmapNamespace fl) (mf_ConfigmapName fl), log) (\<lambda>e. e)
     (\<lambda>modelIDWatcher log. try_call (setup_controllers P fl (NewOpenFGAServiceClient P conn) ms modelIDWatcher log) (\<lambda>e. e)
     (\<lambda>_. serve P run ms)))"

definition runManager ::
    "('h, 'z) platform_scheme \<Rightarrow> ('h \<Rightarrow> 'h worker list \<Rightarrow> unit result) \<Rightarrow> manager_flags \<Rightarrow> 'h step list \<Rightarrow> (unit, 'h) process" where
  "runManager P run fl log =
     try_call (load_server_config P (mf_ServerConfigFile fl), log) (\<lambda>e. e)
     (\<lambda>serverConfig log. try_call (load_config P (mf_UpstreamClusterKubeconfig fl) ''unable to load upstream kubeconfig'', log) (\<lambda>e. e)
     (\<lambda>upstream log. try_call (load_config P (mf_CoreControlPlaneKubeconfig fl) ''unable to load core control plane kubeconfig'', log) (\<lambda>e. e)
     (\<lambda>core log.
        if mf_OpenFGAAPIURL fl = [] then (Inl (ErrorString ''OpenFGA API URL must be provided via --openfga-api-url''), log)
        else if mf_OpenFGAStoreID fl = [] then (Inl (ErrorString ''OpenFGA Store ID must be provided via --openfga-store-id''), log)
        else
          let dial = \<lparr>do_TLS = is_https (mf_OpenFGAScheme fl),
                      do_Keepalive = Some (mf_OpenFGAKeepaliveTime fl, mf_OpenFGAKeepaliveTimeout fl, True),
                      do_CallTimeout = Some (mf_OpenFGATimeout fl)\<rparr> in
          try_call (grpc_NewClient P (mf_OpenFGAAPIURL fl) dial, log) (WrapError ''unable to create gRPC connection to OpenFGA'')
     (\<lambda>conn log. deferred [Closed conn] (run_connected P run fl serverConfig upstream core conn (log @ [Dialed conn dial]))))))"

text \<open>The local manager's runnable waits for the election of the primary one; \<open>None\<close> is waiting.\<close>

definition localManagerRunnable_Start :: "bool \<Rightarrow> 'a \<Rightarrow> 'a option" where
  "localManagerRunnable_Start elected start = (if elected then Some start else None)"

section \<open>The webhook command\<close>

record webhook_flags =
  wf_EnableSubresourceAuthorization :: bool
  wf_CertDir :: string
  wf_CertFile :: string
  wf_KeyFile :: string
  wf_OpenFGAAPIURL :: string
  wf_OpenFGAStoreID :: string
  wf_OpenFGAScheme :: string
  wf_WebhookPort :: int
  wf_MetricsBindAddress :: string
  wf_ProbeAddr :: string
  wf_DiscoveryCacheTTL :: int
  wf_OTLPEndpoint :: string
  wf_ConfigmapNamespace :: string
  wf_ConfigmapName :: string

text \<open>The defaults, given the variables \<open>POD_NAMESPACE\<close> and \<open>OTEL_EXPORTER_OTLP_ENDPOINT\<close>.\<close>

definition webhook_defaults :: "string \<Rightarrow> string \<Rightarrow> webhook_flags" where
  "webhook_defaults pod_namespace otlp =
     \<lparr>wf_EnableSubresourceAuthorization = False, wf_CertDir = ''/etc/certs'', wf_CertFile = ''tls.crt'', wf_KeyFile = ''tls.key'',
      wf_OpenFGAAPIURL = [], wf_OpenFGAStoreID = [], wf_OpenFGAScheme = ''http'', wf_WebhookPort = 9443, wf_MetricsBindAddress = '':8080'',
      wf_ProbeAddr = '':8081'', wf_DiscoveryCacheTTL = seconds 300, wf_OTLPEndpoint = otlp, wf_ConfigmapNamespace = pod_namespace,
      wf_ConfigmapName = ''openfga-authorization-model''\<rparr>"

definition tracesEndpointURL :: "('h, 'z) platform_scheme \<Rightarrow> string \<Rightarrow> string result" where
  "tracesEndpointURL P endpoint =
     try_pure (url_Path P endpoint) (WrapError (''failed to parse OTLP endpoint '' @ [CHR 0x22] @ endpoint @ [CHR 0x22])) (\<lambda>path.
       if path \<noteq> [] \<and> path \<noteq> ''/'' then Inr endpoint else url_JoinPath P endpoint ''/v1/traces'')"

text \<open>The tracer set-up returns the steps of its shutdown function.\<close>

definition SetupTracer :: "('h, 'z) platform_scheme \<Rightarrow> string \<Rightarrow> string \<Rightarrow> string \<Rightarrow> 'h step list \<Rightarrow> ('h step list, 'h) process" where
  "SetupTracer P serviceName serviceVersion otlpEndpoint log =
     (if otlpEndpoint = [] then (Inr [], log @ [TracerInstalled (noop_TracerProvider P)])
      else try_call (resource_New P serviceName serviceVersion, log) (WrapError ''failed to create OTEL resource'')
     (\<lambda>res log. try_call (tracesEndpointURL P otlpEndpoint, log) (\<lambda>e. e)
     (\<lambda>endpointURL log. try_call (otlptracehttp_New P endpointURL, log) (WrapError ''failed to create OTLP HTTP exporter'')
     (\<lambda>exporter log. let tp = NewTracerProvider P exporter res in (Inr [TracerStopped tp], log @ [TracerInstalled tp])))))"

definition SubjectAccessReviewWebhookPath :: string where
  "SubjectAccessReviewWebhookPath = ''/apis/authorization.k8s.io/v1/subjectaccessreviews''"

definition RegisterSubjectAccessReviewWebhook :: "'h \<Rightarrow> 'h webhook_config \<Rightarrow> 'h step list \<Rightarrow> 'h step list" where
  "RegisterSubjectAccessReviewWebhook server config log = log @ [Registered server SubjectAccessReviewWebhookPath config]"

text \<open>The cache of a manager on which the handlers of \<open>Webhook_Caches\<close> are registered.\<close>

definition NewProtectedResourceCache :: "('h, 'z) platform_scheme \<Rightarrow> 'h \<Rightarrow> 'h result" where
  "NewProtectedResourceCache P mgr =
     try_pure (GetProtectedResourceInformer P mgr) (WrapError ''failed to get ProtectedResource informer'') (\<lambda>_.
     try_pure (AddEventHandler P mgr) (WrapError ''failed to add event handler to ProtectedResource informer'') (\<lambda>_. Inr mgr))"

definition webhook_schemes :: "string list" where
  "webhook_schemes = [''corev1'', ''v1beta1'', ''resourcemanagerv1alpha1'', ''iamv1alpha1'']"

fun add_schemes :: "('h, 'z) platform_scheme \<Rightarrow> string list \<Rightarrow> unit result" where
  "add_schemes P [] = Inr ()"
| "add_schemes P (s # ss) = try_pure (AddToScheme P s) (WrapError (''failed to add '' @ s @ '' to scheme'')) (\<lambda>_. add_schemes P ss)"

text \<open>The readiness probe, given whether the informer caches have synced.\<close>

definition readyz :: "ready_check \<Rightarrow> bool \<Rightarrow> unit result" where
  "readyz check cacheReady =
     (case check of Ping \<Rightarrow> Inr ()
      | CacheReady \<Rightarrow> if \<not> cacheReady then Inl (ErrorString ''informer caches have not yet synced'') else Inr ())"

text \<open>From the manager on: probes and start.\<close>

definition webhook_serve :: "('h, 'z) platform_scheme \<Rightarrow> ('h \<Rightarrow> unit result) \<Rightarrow> 'h \<Rightarrow> 'h step list \<Rightarrow> (unit, 'h) process" where
  "webhook_serve P run mgr log =
     try_call (attempt (AddHealthzCheck P mgr ''healthz'') (Healthz mgr ''healthz'') log) (WrapError ''unable to set up health check'')
     (\<lambda>_ log. try_call (attempt (AddReadyzCheck P mgr ''readyz'') (Readyz mgr ''readyz'' CacheReady) (log @ [AwaitsCache mgr]))
         (WrapError ''unable to set up ready check'')
     (\<lambda>_ log. (run mgr, log @ [Started mgr []])))"

text \<open>From the connection to OpenFGA on.\<close>

definition webhook_connected ::
    "('h, 'z) platform_scheme \<Rightarrow> ('h \<Rightarrow> unit result) \<Rightarrow> webhook_flags \<Rightarrow> 'h \<Rightarrow> 'h step list \<Rightarrow> (unit, 'h) process" where
  "webhook_connected P run fl conn log =
     try_call (GetConfig P, log) (WrapError ''failed to get rest config'')
     (\<lambda>restConfig log. try_call (add_schemes P webhook_schemes, log) (\<lambda>e. e)
     (\<lambda>_ log. try_call (NewDiscoveryClientForConfig P restConfig, log) (WrapError ''failed to create discovery client'')
     (\<lambda>liveDiscovery log. try_call (manager_New P restConfig
           (no_options\<lparr>mo_MetricsBindAddress := wf_MetricsBindAddress fl, mo_HealthProbeBindAddress := wf_ProbeAddr fl,
                       mo_WebhookServer := Some (wf_CertDir fl, wf_CertFile fl, wf_KeyFile fl, wf_WebhookPort fl)\<rparr>), log)
         (WrapError ''failed to setup manager'')
     (\<lambda>mgr log. try_call (NewProtectedResourceCache P mgr, log) (WrapError ''failed to create ProtectedResource cache'')
     (\<lambda>prCache log. try_call (new_watcher P mgr (wf_ConfigmapNamespace fl) (wf_ConfigmapName fl), log) (\<lambda>e. e)
     (\<lambda>modelIDWatcher log.
        webhook_serve P run mgr (RegisterSubjectAccessReviewWebhook mgr
          \<lparr>wc_EnableSubresourceAuthorization = wf_EnableSubresourceAuthorization fl, wc_FGAClient = NewOpenFGAServiceClient P conn,
           wc_FGAStoreID = wf_OpenFGAStoreID fl, wc_ModelIDWatcher = modelIDWatcher, wc_ProtectedResourceCache = prCache,
           wc_DiscoveryClient = NewMemCacheClient P liveDiscovery, wc_DiscoveryTTL = wf_DiscoveryCacheTTL fl\<rparr> log)))))))"

definition runWebhookServer ::
    "('h, 'z) platform_scheme \<Rightarrow> ('h \<Rightarrow> unit result) \<Rightarrow> webhook_flags \<Rightarrow> 'h step list \<Rightarrow> (unit, 'h) process" where
  "runWebhookServer P run fl log =
     try_call (SetupTracer P ''auth-provider-openfga-webhook'' ''dev'' (wf_OTLPEndpoint fl) log) (WrapError ''failed to setup tracer'')
     (\<lambda>tracerShutdown log. deferred tracerShutdown
       (let dial = \<lparr>do_TLS = is_https (wf_OpenFGAScheme fl), do_Keepalive = None, do_CallTimeout = None\<rparr> in
        try_call (grpc_NewClient P (wf_OpenFGAAPIURL fl) dial, log) (WrapError ''unable to create gRPC connection to OpenFGA'')
     (\<lambda>conn log. deferred [Closed conn] (webhook_connected P run fl conn (log @ [Dialed conn dial])))))"

section \<open>Logs\<close>

definition completed :: "'h action list \<Rightarrow> 'h controller_spec list" where
  "completed acts = concat (map (\<lambda>a. case a of Complete spec \<Rightarrow> [spec] | _ \<Rightarrow> []) acts)"

definition controllers :: "'h step list \<Rightarrow> 'h controller_spec list" where
  "controllers log = concat (map (\<lambda>s. case s of Did a \<Rightarrow> completed [a] | _ \<Rightarrow> []) log)"

definition unstarted :: "'h step list \<Rightarrow> bool" where
  "unstarted log \<longleftrightarrow> (\<forall>m ws. Started m ws \<notin> set log)"

definition wiring :: "'h controller_spec \<Rightarrow> string \<times> 'h \<times> 'h Reconciler" where
  "wiring spec = (cs_Name spec, cs_Manager spec, cs_Reconciler spec)"

lemma completed_simps [simp]:
  "completed [] = []" "completed (IndexField m k f # acts) = completed acts" "completed (RegisterFinalizer key r # acts) = completed acts"
  "completed (Complete spec # acts) = spec # completed acts" "completed (xs @ ys) = completed xs @ completed ys"
  by (simp_all add: completed_def)

lemma controllers_append [simp]: "controllers (xs @ ys) = controllers xs @ controllers ys"
  by (simp add: controllers_def)

lemma controllers_Did [simp]: "controllers (map Did acts) = completed acts"
  by (simp add: controllers_def completed_def comp_def)

lemma controllers_other [simp]:
  "controllers [] = []" "controllers (Dialed c d # log) = controllers log" "controllers (Closed c # log) = controllers log"
  "controllers (Healthz m t # log) = controllers log" "controllers (Readyz m t check # log) = controllers log"
  "controllers (Added m n # log) = controllers log" "controllers (Started m ws # log) = controllers log"
  by (simp_all add: controllers_def)

lemma unstarted_simps [simp]:
  "unstarted []" "unstarted (xs @ ys) \<longleftrightarrow> unstarted xs \<and> unstarted ys" "unstarted (map Did acts)"
  "unstarted (s # log) \<longleftrightarrow> (\<forall>m ws. s \<noteq> Started m ws) \<and> unstarted log"
  by (auto simp: unstarted_def)

lemma try_callE:
  assumes "try_call c wrap k = (res, w')"
  obtains e w where "c = (Inl e, w)" "res = Inl (wrap e)" "w' = w" | x w where "c = (Inr x, w)" "k x w = (res, w')"
  using assms by (cases c; cases "fst c") (auto simp: try_call_def)

lemma log_try_call:
  assumes "Q (snd c)" and "\<And>x log. Q log \<Longrightarrow> Q (snd (k x log))"
  shows "Q (snd (try_call c wrap k))"
  using assms by (cases c; cases "fst c") (auto simp: try_call_def)

lemma unstarted_set_up [simp]: "unstarted (snd (set_up f log)) \<longleftrightarrow> unstarted log"
  by (simp add: set_up_def split: prod.splits)

lemma set_up_ok_iff: "set_up f log = (Inr (), log') \<longleftrightarrow> (\<exists>acts. f [] = (Inr (), acts) \<and> log' = log @ map Did acts)"
  by (auto simp: set_up_def split: prod.splits)

lemma unstarted_setup_controllers: "unstarted log \<Longrightarrow> unstarted (snd (setup_controllers P fl fga ms source log))"
  unfolding setup_controllers_def setupHierarchyControllers_def Let_def
  by (intro log_try_call[where Q = unstarted]) simp_all

lemma setup_controllers_extends: "\<exists>more. snd (setup_controllers P fl fga ms source log) = log @ more"
proof -
  have set_up: "\<exists>more. snd (set_up f log') = log @ more" if "\<exists>more. log' = log @ more" for f log'
    using that by (auto simp: set_up_def split: prod.splits)
  show ?thesis unfolding setup_controllers_def setupHierarchyControllers_def Let_def
    by (intro log_try_call[where Q = "\<lambda>l. \<exists>more. l = log @ more"]) (auto intro!: set_up)
qed

section \<open>What each set-up registers\<close>

lemma Role_completed:
  "Role_SetupWithManager L r mgr [] = (Inr (), acts) \<Longrightarrow> map wiring (completed acts) = [(''role'', mgr, r)]"
  by (auto dest!: Role_setup_complete simp: wiring_def with_options_def)

lemma PolicyBinding_completed:
  "PolicyBinding_SetupWithManager L r mgr [] = (Inr (), acts) \<Longrightarrow> map wiring (completed acts) = [(''policybinding'', mgr, with_mapper L r mgr)]"
  by (auto dest!: PolicyBinding_setup_complete simp: wiring_def with_options_def Let_def)

lemma Hierarchy_completed:
  assumes "Hierarchy_SetupWithManager L r mgr [] = (Inr (), acts)" and "rc_StoreID r \<noteq> []" and "rc_AuthzModelReconciler r = None"
  shows "map wiring (completed acts) = [(''resourceownerhierarchy-controller'', mgr, r)]"
  using assms by (auto simp: Hierarchy_SetupWithManager_def setup_steps wiring_def Let_def split: if_splits)

lemma Organization_completed:
  "Organization_SetupWithManager L r mgr [] = (Inr (), acts) \<Longrightarrow> map wiring (completed acts) = [(''organization-controller'', mgr, r)]"
  by (auto simp: Organization_SetupWithManager_def setup_steps wiring_def split: if_splits)

lemma AuthorizationModel_completed:
  "AuthorizationModel_SetupWithManager L r mgr [] = (Inr (), acts) \<Longrightarrow> map wiring (completed acts) =
     [(''authorizationmodel_controller'', mgr, r\<lparr>rc_ConfigMapClient := Some (case rc_ConfigMapClient r of None \<Rightarrow> rc_Client r | Some c \<Rightarrow> c)\<rparr>)]"
  by (auto simp: AuthorizationModel_SetupWithManager_def setup_steps wiring_def Let_def split: if_splits option.splits)

lemma GroupMembership_completed:
  "GroupMembership_SetupWithManager L r mgr [] = (Inr (), acts) \<Longrightarrow> map wiring (completed acts) = [(''groupmembership'', mgr, r)]"
  by (auto simp: GroupMembership_SetupWithManager_def setup_steps wiring_def with_options_def)

lemma MultiCluster_completed:
  "SetupWithManagerMultiCluster L r mgr mcMgr [] = (Inr (), acts) \<Longrightarrow>
     map wiring (completed acts) = [(''systemgroup_user'', mgr, r), (''systemgroup_serviceaccount'', mcMgr, r)]"
  by (auto simp: SetupWithManagerMultiCluster_def setup_steps wiring_def with_options_def systemgroup_user_def systemgroup_serviceaccount_def)

lemmas setups_completed = Role_completed PolicyBinding_completed Hierarchy_completed Organization_completed AuthorizationModel_completed
  GroupMembership_completed MultiCluster_completed

text \<open>The controllers as they are registered, for a lock pool and an in-cluster client.\<close>

definition wired ::
    "('h, 'z) platform_scheme \<Rightarrow> manager_flags \<Rightarrow> 'h \<Rightarrow> 'h managers \<Rightarrow> 'h model_id_source \<Rightarrow> 'h \<Rightarrow> 'h option \<Rightarrow> (string \<times> 'h \<times> 'h Reconciler) list" where
  "wired P fl fga ms source locks cmc =
    (let local = pm_Local ms; base = new_reconciler P local fga (mf_OpenFGAStoreID fl); pinned = base\<lparr>rc_ModelIDProvider := Some source\<rparr>;
         enabled = Some (mf_EnableSubresourceAuthorization fl); locked = base\<lparr>rc_Locks := Some locks\<rparr> in
     [(''role'', local, pinned\<lparr>rc_EnableSubresourceAuthorization := enabled\<rparr>),
      (''policybinding'', local, with_mapper P (pinned\<lparr>rc_EnableSubresourceAuthorization := enabled,
         rc_MaxConcurrentReconciles := mf_PolicyBindingMaxConcurrentReconciles fl, rc_Locks := Some locks\<rparr>) local),
      (''resourceownerhierarchy-controller'', local, locked), (''organization-controller'', local, locked),
      (''authorizationmodel_controller'', local, base\<lparr>rc_EnableSubresourceAuthorization := enabled,
         rc_ConfigMapNamespace := mf_ConfigmapNamespace fl, rc_ConfigMapName := mf_ConfigmapName fl,
         rc_ConfigMapClient := Some (case cmc of None \<Rightarrow> GetClient P local | Some c \<Rightarrow> c)\<rparr>),
      (''groupmembership'', local, pinned), (''systemgroup_user'', local, pinned), (''systemgroup_serviceaccount'', pm_Primary ms, pinned)])"

lemma setup_controllers_wiring:
  assumes "setup_controllers P fl fga ms source log = (Inr (), log')" and store: "mf_OpenFGAStoreID fl \<noteq> []"
  shows "\<exists>locks cmc. config_map_client P = Inr cmc \<and>
    map wiring (controllers log') = map wiring (controllers log) @ wired P fl fga ms source locks cmc"
  using assms(1) unfolding wired_def setup_controllers_def setupHierarchyControllers_def Let_def try_call_ok_iff set_up_ok_iff
  by (auto dest!: setups_completed simp: set_up_ok_iff new_reconciler_def store) (simp split: option.split)

section \<open>The manager\<close>

lemma serve_started:
  assumes "serve P run ms log = (res, log')" and "unstarted log" and "Started m ws \<in> set log'"
  shows "m = pm_Primary ms \<and> log' = log @ [Healthz m ''healthz'', Readyz m ''readyz'' Ping, Added m (pm_Local ms), Started m ws]"
  using assms by (auto simp: serve_def Let_def attempt_def unstarted_def elim!: try_callE split: sum.splits)

lemma run_connected_started:
  assumes run: "run_connected P run fl sc up core conn log = (res, log')" and "unstarted log" and started: "Started m ws \<in> set log'"
  obtains ms source log1 where "pm_Primary ms = m" "new_watcher P (pm_Local ms) (mf_ConfigmapNamespace fl) (mf_ConfigmapName fl) = Inr source"
    "setup_controllers P fl (NewOpenFGAServiceClient P conn) ms source log = (Inr (), log1)"
    "log' = log1 @ [Healthz m ''healthz'', Readyz m ''readyz'' Ping, Added m (pm_Local ms), Started m ws]"
proof -
  have not: "Started m ws \<notin> set log" using assms(2) by (simp add: unstarted_def)
  from run obtain ms where ms: "new_managers P fl sc up core = Inr ms" unfolding run_connected_def
    by (rule try_callE) (use started not in auto)
  with run obtain source where source: "new_watcher P (pm_Local ms) (mf_ConfigmapNamespace fl) (mf_ConfigmapName fl) = Inr source"
    and rest: "try_call (setup_controllers P fl (NewOpenFGAServiceClient P conn) ms source log) (\<lambda>e. e) (\<lambda>_. serve P run ms) = (res, log')"
    unfolding run_connected_def by (auto elim!: try_callE simp: started not) (use started not in auto)
  have quiet: "unstarted (snd (setup_controllers P fl (NewOpenFGAServiceClient P conn) ms source log))"
    by (rule unstarted_setup_controllers[OF assms(2)])
  from rest obtain log1 where done_ok: "setup_controllers P fl (NewOpenFGAServiceClient P conn) ms source log = (Inr (), log1)"
    and serve: "serve P run ms log1 = (res, log')"
    by (rule try_callE) (use started quiet in \<open>auto simp: unstarted_def\<close>)
  with serve_started[OF serve _ started] quiet that[OF _ source done_ok] show thesis by auto
qed

lemma runManager_started:
  assumes run: "runManager P run fl [] = (res, log)" and started: "Started m ws \<in> set log"
  obtains conn dial ms source log1 where "mf_OpenFGAStoreID fl \<noteq> []" "pm_Primary ms = m"
    "new_watcher P (pm_Local ms) (mf_ConfigmapNamespace fl) (mf_ConfigmapName fl) = Inr source"
    "setup_controllers P fl (NewOpenFGAServiceClient P conn) ms source [Dialed conn dial] = (Inr (), log1)"
    "log = log1 @ [Healthz m ''healthz'', Readyz m ''readyz'' Ping, Added m (pm_Local ms), Started m ws, Closed conn]"
proof -
  from run started obtain sc up core conn dial log' where store: "mf_OpenFGAStoreID fl \<noteq> []"
    and inner: "run_connected P run fl sc up core conn [Dialed conn dial] = (res, log')" and log: "log = log' @ [Closed conn]"
    unfolding runManager_def Let_def deferred_def by (auto elim!: try_callE split: if_splits prod.splits)
  from started log have "Started m ws \<in> set log'" by simp
  then show thesis by (rule run_connected_started[OF inner, rotated]) (rule that[OF store], assumption+, simp_all add: log)
qed

text \<open>The watcher on a manager's cache follows ConfigMaps of its name in every namespace, whatever namespace it is given.\<close>

theorem manager_watcher_any_namespace:
  "manager_watcher P mgr namespace name seed = manager_watcher P mgr namespace' name seed \<and>
   (manager_watcher P mgr namespace name seed = Inr source \<longrightarrow> mis_Namespace source = None)"
  by (auto simp: manager_watcher_def try_pure_ok_iff)

text \<open>
  What the parts of the program rely on of each other in the manager: one connection and one store,
  one lock pool for the three reconcilers that write or clear tuples of Projects and Organizations,
  one subresource flag, and model IDs read from the ConfigMap to which the model reconciler
  publishes them: in a cluster, the ConfigMap of that namespace and name in the cluster the process
  runs in. Without an in-cluster configuration the two use the same control plane and name; the
  watcher then follows the name in every namespace (\<open>manager_watcher_any_namespace\<close>), so
  no agreement on the namespace is stated for that case.
\<close>

definition consistent :: "('h, 'z) platform_scheme \<Rightarrow> manager_flags \<Rightarrow> 'h \<Rightarrow> 'h \<Rightarrow> 'h model_id_source \<Rightarrow> 'h \<Rightarrow> 'h \<Rightarrow> 'h controller_spec \<Rightarrow> bool" where
  "consistent P fl conn locks source primary local spec \<longleftrightarrow>
     (let r = cs_Reconciler spec; name = cs_Name spec in
      cs_Manager spec = (if name = ''systemgroup_serviceaccount'' then primary else local) \<and>
      rc_Client r = GetClient P local \<and> rc_FGAClient r = Some (NewOpenFGAServiceClient P conn) \<and> rc_StoreID r = mf_OpenFGAStoreID fl \<and>
      rc_Locks r = (if name \<in> {''policybinding'', ''resourceownerhierarchy-controller'', ''organization-controller''} then Some locks else None) \<and>
      rc_EnableSubresourceAuthorization r =
        (if name \<in> {''role'', ''policybinding'', ''authorizationmodel_controller''} then Some (mf_EnableSubresourceAuthorization fl) else None) \<and>
      rc_ModelIDProvider r =
        (if name \<in> {''role'', ''policybinding'', ''groupmembership'', ''systemgroup_user'', ''systemgroup_serviceaccount''} then Some source else None) \<and>
      (name = ''authorizationmodel_controller'' \<longrightarrow>
        rc_ConfigMapName r = configMapName (mis_Watcher source) \<and> rc_ConfigMapNamespace r = mf_ConfigmapNamespace fl \<and>
        (case InClusterConfig P of
           Inr cfg \<Rightarrow> mis_Cluster source = cfg \<and> mis_Namespace source = Some (rc_ConfigMapNamespace r) \<and>
             map_option Inr (rc_ConfigMapClient r) = Some (client_New P cfg)
         | Inl _ \<Rightarrow> mis_Cluster source = local \<and> rc_ConfigMapClient r = Some (GetClient P local))))"

definition bare :: "string \<times> 'h \<times> 'h Reconciler \<Rightarrow> 'h controller_spec" where
  "bare = (\<lambda>(n, m, r). \<lparr>cs_Name = n, cs_Manager = m, cs_Watches = [], cs_StartupSource = False, cs_MaxConcurrentReconciles = 0,
     cs_JitteredRateLimiter = False, cs_PriorityQueue = False, cs_Reconciler = r\<rparr>)"

lemma consistent_wiring:
  "consistent P fl conn locks source primary local spec = consistent P fl conn locks source primary local (bare (wiring spec))"
  by (simp add: consistent_def bare_def wiring_def)

lemma names_wiring: "map cs_Name specs = map fst (map wiring specs)"
  by (simp add: wiring_def)

lemma new_watcher_ok:
  assumes "new_watcher P mgr ns name = Inr source"
  shows "configMapName (mis_Watcher source) = name \<and>
    mis_Namespace source = (case InClusterConfig P of Inr _ \<Rightarrow> Some ns | Inl _ \<Rightarrow> None) \<and>
    mis_Cluster source = (case InClusterConfig P of Inr cfg \<Rightarrow> cfg | Inl _ \<Rightarrow> mgr)"
  using assms by (auto simp: new_watcher_def NewAuthorizationModelIDWatcherWithConfig_def manager_watcher_def NewAuthorizationModelIDWatcher_def
      try_pure_ok_iff split: sum.splits if_splits)

lemma wired_consistent:
  assumes source: "new_watcher P (pm_Local ms) (mf_ConfigmapNamespace fl) (mf_ConfigmapName fl) = Inr source"
    and cmc: "config_map_client P = Inr cmc"
    and specs: "map wiring specs = wired P fl (NewOpenFGAServiceClient P conn) ms source locks cmc"
    and spec: "spec \<in> set specs"
  shows "consistent P fl conn locks source (pm_Primary ms) (pm_Local ms) spec"
proof -
  have "list_all (\<lambda>w. consistent P fl conn locks source (pm_Primary ms) (pm_Local ms) (bare w))
      (wired P fl (NewOpenFGAServiceClient P conn) ms source locks cmc)"
    using new_watcher_ok[OF source] cmc
    by (simp add: wired_def Let_def consistent_def bare_def new_reconciler_def with_mapper_def config_map_client_def try_pure_ok_iff
        split: sum.splits) auto
  with spec show ?thesis unfolding specs[symmetric] consistent_wiring[of P fl conn locks source _ _ spec] by (simp add: list_all_iff)
qed

text \<open>
  C28. Whenever the manager command starts its primary manager, all eight controllers are
  registered before, each once, on the local manager except for the ServiceAccount controller;
  they share one connection and store; the three that write or clear tuples of Projects and
  Organizations share one lock pool; Role, PolicyBinding and model controllers agree on the
  subresource flag; in a cluster, model IDs are read from the namespace and name, in the
  cluster, where the model controller writes them, and without an in-cluster configuration from
  that name in the local manager's control plane, to which the model controller writes then (in
  any of its namespaces: \<open>manager_watcher_any_namespace\<close>); the local manager runs behind the
  primary one; and the connection is closed when the command returns.
\<close>

theorem runManager_wiring:
  assumes run: "runManager P run fl [] = (res, log)" and started: "Started primary workers \<in> set log"
  shows "\<exists>conn dial locks source local pre. log = Dialed conn dial # pre @ [Started primary workers, Closed conn] \<and>
    Added primary local \<in> set pre \<and> unstarted pre \<and>
    map cs_Name (controllers pre) = [''role'', ''policybinding'', ''resourceownerhierarchy-controller'', ''organization-controller'',
      ''authorizationmodel_controller'', ''groupmembership'', ''systemgroup_user'', ''systemgroup_serviceaccount''] \<and>
    (\<forall>spec \<in> set (controllers pre). consistent P fl conn locks source primary local spec)"
proof -
  from run started obtain conn dial ms source log1 where store: "mf_OpenFGAStoreID fl \<noteq> []" and primary: "pm_Primary ms = primary"
    and source: "new_watcher P (pm_Local ms) (mf_ConfigmapNamespace fl) (mf_ConfigmapName fl) = Inr source"
    and ok: "setup_controllers P fl (NewOpenFGAServiceClient P conn) ms source [Dialed conn dial] = (Inr (), log1)"
    and log: "log = log1 @ [Healthz primary ''healthz'', Readyz primary ''readyz'' Ping, Added primary (pm_Local ms), Started primary workers, Closed conn]"
    by (rule runManager_started)
  obtain more where more: "log1 = Dialed conn dial # more" using ok setup_controllers_extends[of P fl _ ms source "[Dialed conn dial]"] by (metis append_Cons append_Nil snd_conv)
  from setup_controllers_wiring[OF ok store] obtain locks cmc where cmc: "config_map_client P = Inr cmc"
    and specs: "map wiring (controllers more) = wired P fl (NewOpenFGAServiceClient P conn) ms source locks cmc"
    by (auto simp: more)
  let ?pre = "more @ [Healthz primary ''healthz'', Readyz primary ''readyz'' Ping, Added primary (pm_Local ms)]"
  have "unstarted more" using unstarted_setup_controllers[of "[Dialed conn dial]" P fl _ ms source] ok more by (metis snd_conv unstarted_simps(1,4) step.distinct)
  moreover have "consistent P fl conn locks source primary (pm_Local ms) spec" if "spec \<in> set (controllers more)" for spec
    using wired_consistent[OF source cmc specs that] primary by simp
  ultimately show ?thesis
    by (intro exI[of _ conn] exI[of _ dial] exI[of _ locks] exI[of _ source] exI[of _ "pm_Local ms"] exI[of _ ?pre])
      (simp add: log more names_wiring specs wired_def Let_def)
qed

section \<open>The webhook server\<close>

lemma webhook_serve_started:
  assumes "webhook_serve P run mgr log = (res, log')" and "unstarted log" and "Started m ws \<in> set log'"
  shows "m = mgr \<and> ws = [] \<and> log' = log @ [Healthz mgr ''healthz'', AwaitsCache mgr, Readyz mgr ''readyz'' CacheReady, Started mgr []]"
  using assms by (auto simp: webhook_serve_def attempt_def unstarted_def elim!: try_callE split: sum.splits)

lemma webhook_connected_started:
  assumes run: "webhook_connected P run fl conn log = (res, log')" and log: "unstarted log" and started: "Started m ws \<in> set log'"
  shows "\<exists>config. log' = log @ [Registered m SubjectAccessReviewWebhookPath config, Healthz m ''healthz'', AwaitsCache m,
      Readyz m ''readyz'' CacheReady, Started m []] \<and>
    wc_EnableSubresourceAuthorization config = wf_EnableSubresourceAuthorization fl \<and> wc_FGAClient config = NewOpenFGAServiceClient P conn \<and>
    wc_FGAStoreID config = wf_OpenFGAStoreID fl \<and> NewProtectedResourceCache P m = Inr (wc_ProtectedResourceCache config) \<and>
    new_watcher P m (wf_ConfigmapNamespace fl) (wf_ConfigmapName fl) = Inr (wc_ModelIDWatcher config)"
proof -
  have not: "Started m ws \<notin> set log" using log by (simp add: unstarted_def)
  from run show ?thesis unfolding webhook_connected_def RegisterSubjectAccessReviewWebhook_def
    by (elim try_callE) (use started not log in \<open>auto dest!: webhook_serve_started[OF _ _ started]\<close>)
qed

text \<open>
  Whenever the webhook command starts its manager, the review handler is registered before,
  for the store and the subresource flag of the command line, over the open connection, with the
  ProtectedResource cache of that manager and the model ID of the ConfigMap of the command line;
  the readiness probe fails until the informer caches have synced; and the connection is closed
  when the command returns.
\<close>

theorem runWebhookServer_wiring:
  assumes run: "runWebhookServer P run fl [] = (res, log)" and started: "Started mgr ws \<in> set log"
  shows "\<exists>conn config pre post. log = pre @ [Started mgr []] @ post \<and> Closed conn \<in> set post \<and>
    Registered mgr SubjectAccessReviewWebhookPath config \<in> set pre \<and> wc_FGAClient config = NewOpenFGAServiceClient P conn \<and>
    wc_FGAStoreID config = wf_OpenFGAStoreID fl \<and> wc_EnableSubresourceAuthorization config = wf_EnableSubresourceAuthorization fl \<and>
    wc_ProtectedResourceCache config = mgr \<and> configMapName (mis_Watcher (wc_ModelIDWatcher config)) = wf_ConfigmapName fl \<and>
    mis_Namespace (wc_ModelIDWatcher config) = (case InClusterConfig P of Inr _ \<Rightarrow> Some (wf_ConfigmapNamespace fl) | Inl _ \<Rightarrow> None) \<and>
    (\<exists>check. Readyz mgr ''readyz'' check \<in> set pre \<and> (\<forall>synced. readyz check synced = Inr () \<longleftrightarrow> synced))"
proof -
  from run obtain shutdown log0 where tracer: "SetupTracer P ''auth-provider-openfga-webhook'' ''dev'' (wf_OTLPEndpoint fl) [] = (Inr shutdown, log0)"
    and rest: "deferred shutdown (let dial = \<lparr>do_TLS = is_https (wf_OpenFGAScheme fl), do_Keepalive = None, do_CallTimeout = None\<rparr> in
        try_call (grpc_NewClient P (wf_OpenFGAAPIURL fl) dial, log0) (WrapError ''unable to create gRPC connection to OpenFGA'')
     (\<lambda>conn log. deferred [Closed conn] (webhook_connected P run fl conn (log @ [Dialed conn dial])))) = (res, log)"
    unfolding runWebhookServer_def
    by (rule try_callE) (use started in \<open>auto simp: SetupTracer_def Let_def elim!: try_callE split: if_splits\<close>)
  have tracer_steps: "unstarted log0" "Started mgr ws \<notin> set shutdown"
    using tracer by (auto simp: SetupTracer_def Let_def unstarted_def elim!: try_callE split: if_splits)
  with rest started obtain conn dial log1 where inner: "webhook_connected P run fl conn (log0 @ [Dialed conn dial]) = (res, log1)"
    and log: "log = log1 @ [Closed conn] @ shutdown"
    by (auto simp: deferred_def Let_def unstarted_def elim!: try_callE split: prod.splits)
  have started1: "Started mgr ws \<in> set log1" using started log tracer_steps(2) by auto
  from webhook_connected_started[OF inner _ this] tracer_steps(1) obtain config where "log1 = (log0 @ [Dialed conn dial]) @ [Registered mgr SubjectAccessReviewWebhookPath config, Healthz mgr ''healthz'', AwaitsCache mgr,
      Readyz mgr ''readyz'' CacheReady, Started mgr []]"
    and config: "wc_EnableSubresourceAuthorization config = wf_EnableSubresourceAuthorization fl" "wc_FGAClient config = NewOpenFGAServiceClient P conn"
    "wc_FGAStoreID config = wf_OpenFGAStoreID fl" "NewProtectedResourceCache P mgr = Inr (wc_ProtectedResourceCache config)"
    "new_watcher P mgr (wf_ConfigmapNamespace fl) (wf_ConfigmapName fl) = Inr (wc_ModelIDWatcher config)"
    by auto
  with log new_watcher_ok[OF config(5)] show ?thesis
    by (intro exI[of _ conn] exI[of _ config] exI[of _ "log0 @ [Dialed conn dial, Registered mgr SubjectAccessReviewWebhookPath config,
        Healthz mgr ''healthz'', AwaitsCache mgr, Readyz mgr ''readyz'' CacheReady]"] exI[of _ "Closed conn # shutdown"])
      (auto simp: NewProtectedResourceCache_def try_pure_ok_iff readyz_def)
qed

section \<open>Evaluations\<close>

text \<open>A platform on which every call succeeds: in a cluster, with numbers for handles.\<close>

definition example_platform :: "nat platform" where
  "example_platform = libs.extend example_libs
     \<lparr>ReadFile = (\<lambda>f. Inr f), DecodeInto = (\<lambda>_ c. Inr c), BuildConfigFromFlags = (\<lambda>_. Inr 10), GetConfig = Inr 11, GetConfigOrDie = 12,
      InClusterConfig = Inr 13, grpc_NewClient = (\<lambda>_ _. Inr 14), NewOpenFGAServiceClient = (\<lambda>c. 100 + c), cluster_New = (\<lambda>c. Inr (200 + c)),
      mcsingle_New = (\<lambda>_ c. 300 + c), miloprovider_New = (\<lambda>_ _ _. Inr 15), manager_New = (\<lambda>c _. Inr (400 + c)),
      mcmanager_New = (\<lambda>c _ _. Inr (500 + c)), NewForConfig = (\<lambda>c. Inr (600 + c)), GetInformer = (\<lambda>_. Inr ()),
      GetProtectedResourceInformer = (\<lambda>_. Inr ()), AddEventHandler = (\<lambda>_. Inr ()), NewObjectLocks = (\<lambda>_ log. 700 + length log),
      client_New = (\<lambda>c. Inr (800 + c)), GetClient = (\<lambda>m. 900 + m), AddHealthzCheck = (\<lambda>_ _. Inr ()), AddReadyzCheck = (\<lambda>_ _. Inr ()),
      mgr_Add = (\<lambda>_ _. Inr ()), resource_New = (\<lambda>_ _. Inr 16), url_Path = (\<lambda>_. Inr []), url_JoinPath = (\<lambda>u p. Inr (u @ p)),
      otlptracehttp_New = (\<lambda>_. Inr 17), NewTracerProvider = (\<lambda>_ _. 18), noop_TracerProvider = 19, AddToScheme = (\<lambda>_. Inr ()),
      NewDiscoveryClientForConfig = (\<lambda>_. Inr 20), NewMemCacheClient = (\<lambda>c. c)\<rparr>"

definition example_manager_flags :: manager_flags where
  "example_manager_flags = (manager_defaults ''auth'')\<lparr>mf_OpenFGAAPIURL := ''fga:8081'', mf_OpenFGAStoreID := ''s''\<rparr>"

definition example_webhook_flags :: webhook_flags where
  "example_webhook_flags = (webhook_defaults ''auth'' [])\<lparr>wf_OpenFGAAPIURL := ''fga:8081'', wf_OpenFGAStoreID := ''s''\<rparr>"

definition example_manager_run :: "(unit, nat) process" where
  "example_manager_run = runManager example_platform (\<lambda>_ _. Inr ()) example_manager_flags []"

definition example_webhook_run :: "(unit, nat) process" where
  "example_webhook_run = runWebhookServer example_platform (\<lambda>_. Inr ()) example_webhook_flags []"

theorem runManager_wiring_witness:
  "fst example_manager_run = Inr () \<and>
   (\<exists>conn locks source local. Closed conn \<in> set (snd example_manager_run) \<and>
     set (controllers (snd example_manager_run)) \<subseteq> Collect (consistent example_platform example_manager_flags conn locks source 512 local))"
proof -
  let ?workers = "[RunnableStart 212, RunnableStart 212, ProviderStart 512 512]"
  have res: "fst example_manager_run = Inr ()" by code_simp
  have started: "Started 512 ?workers \<in> set (snd example_manager_run)" by code_simp
  have run: "runManager example_platform (\<lambda>_ _. Inr ()) example_manager_flags [] = (fst example_manager_run, snd example_manager_run)"
    by (simp add: example_manager_run_def)
  from runManager_wiring[OF run started] obtain conn dial locks source local pre
    where "snd example_manager_run = Dialed conn dial # pre @ [Started 512 ?workers, Closed conn]"
      "\<forall>spec \<in> set (controllers pre). consistent example_platform example_manager_flags conn locks source 512 local spec" by blast
  with res show ?thesis by (intro conjI exI[of _ conn] exI[of _ locks] exI[of _ source] exI[of _ local]) (simp_all add: subset_iff)
qed

theorem runWebhookServer_wiring_witness:
  "\<exists>conn config. Closed conn \<in> set (snd example_webhook_run) \<and>
     Registered 411 SubjectAccessReviewWebhookPath config \<in> set (snd example_webhook_run) \<and> wc_FGAStoreID config = ''s'' \<and>
     configMapName (mis_Watcher (wc_ModelIDWatcher config)) = ''openfga-authorization-model''"
proof -
  have started: "Started 411 [] \<in> set (snd example_webhook_run)" by code_simp
  have run: "runWebhookServer example_platform (\<lambda>_. Inr ()) example_webhook_flags [] = (fst example_webhook_run, snd example_webhook_run)"
    by (simp add: example_webhook_run_def)
  have flags: "wf_OpenFGAStoreID example_webhook_flags = ''s''" "wf_ConfigmapName example_webhook_flags = ''openfga-authorization-model''"
    by (simp_all add: example_webhook_flags_def webhook_defaults_def)
  from runWebhookServer_wiring[OF run started] obtain conn config pre post where "snd example_webhook_run = pre @ [Started 411 []] @ post"
    "Closed conn \<in> set post" "Registered 411 SubjectAccessReviewWebhookPath config \<in> set pre" "wc_FGAStoreID config = ''s''"
    "configMapName (mis_Watcher (wc_ModelIDWatcher config)) = ''openfga-authorization-model''"
    unfolding flags by blast
  then show ?thesis by (intro exI[of _ conn] exI[of _ config]) simp
qed

end
