(* ===== verification/Shutdown.thy ===== *)
theory Shutdown
  imports Prelude
begin

text \<open>
  How the manager process ends (\<open>runUntilManagerStops\<close> of \<open>cmd/manager.go\<close>): the primary manager
  and the workers are goroutines of an error group, and the process returns what the group returns.
  The step relation interleaves their returns, the bookkeeping of the group, the signal handler and
  the waiting caller. What a goroutine's body does and when it returns is not restricted.
\<close>

section \<open>The group of goroutines\<close>

text \<open>\<open>context.Canceled\<close>, and \<open>errors.Is\<close> for it.\<close>

definition Canceled :: go_error where
  "Canceled = ExternalError None False False ''context canceled''"

fun is_canceled :: "go_error \<Rightarrow> bool" where
  "is_canceled (WrapError msg e) = is_canceled e"
| "is_canceled e = (e = Canceled)"

definition ignoreCanceled :: "go_error option \<Rightarrow> go_error option" where
  "ignoreCanceled err = (case err of Some e \<Rightarrow> if is_canceled e then None else Some e | None \<Rightarrow> None)"

text \<open>
  A goroutine runs; then its body has returned, with a result that the group has not recorded
  yet; then it is done.
\<close>

datatype goroutine = Running | Returning "go_error option" | Finished "go_error option"

text \<open>
  The workers in their order and the manager last; whether a signal came, whether \<open>cancel\<close> was
  called, the first error the group recorded, and the result once the function has returned.
\<close>

record run_state =
  rs_Goroutines :: "goroutine list"
  rs_Signalled :: bool
  rs_Cancelled :: bool
  rs_GroupErr :: "go_error option"
  rs_Result :: "go_error option option"

definition manager_index :: "run_state \<Rightarrow> nat" where
  "manager_index s = length (rs_Goroutines s) - 1"

text \<open>Whether the context of the goroutines is done: it is derived from all three.\<close>

definition context_done :: "run_state \<Rightarrow> bool" where
  "context_done s \<longleftrightarrow> rs_Signalled s \<or> rs_Cancelled s \<or> rs_GroupErr s \<noteq> None"

definition run_init :: "nat \<Rightarrow> run_state" where
  "run_init n = \<lparr>rs_Goroutines = replicate n Running @ [Running], rs_Signalled = False, rs_Cancelled = False, rs_GroupErr = None, rs_Result = None\<rparr>"

text \<open>The body of a goroutine returns; the manager's calls \<open>cancel\<close>.\<close>

definition body_returns :: "nat \<Rightarrow> go_error option \<Rightarrow> run_state \<Rightarrow> run_state" where
  "body_returns i err s =
     s\<lparr>rs_Goroutines := (rs_Goroutines s)[i := Returning err], rs_Cancelled := rs_Cancelled s \<or> i = manager_index s\<rparr>"

text \<open>The group keeps the first error and cancels its context with it.\<close>

definition group_records :: "nat \<Rightarrow> go_error option \<Rightarrow> run_state \<Rightarrow> run_state" where
  "group_records i err s =
     s\<lparr>rs_Goroutines := (rs_Goroutines s)[i := Finished err],
       rs_GroupErr := (case rs_GroupErr s of None \<Rightarrow> ignoreCanceled err | Some e \<Rightarrow> Some e)\<rparr>"

text \<open>\<open>g.Wait\<close> and the deferred \<open>cancel\<close>.\<close>

definition group_waits :: "run_state \<Rightarrow> run_state" where
  "group_waits s = s\<lparr>rs_Result := Some (rs_GroupErr s), rs_Cancelled := True\<rparr>"

inductive run_step :: "run_state \<Rightarrow> run_state \<Rightarrow> bool" where
  signal: "\<not> rs_Signalled s \<Longrightarrow> run_step s (s\<lparr>rs_Signalled := True\<rparr>)"
| returns: "i < length (rs_Goroutines s) \<Longrightarrow> rs_Goroutines s ! i = Running \<Longrightarrow> run_step s (body_returns i err s)"
| records: "i < length (rs_Goroutines s) \<Longrightarrow> rs_Goroutines s ! i = Returning err \<Longrightarrow> run_step s (group_records i err s)"
| waits: "\<forall>g \<in> set (rs_Goroutines s). \<exists>err. g = Finished err \<Longrightarrow> rs_Result s = None \<Longrightarrow> run_step s (group_waits s)"

section \<open>Invariant\<close>

text \<open>The errors that count, among those of the finished goroutines.\<close>

definition failures :: "run_state \<Rightarrow> go_error set" where
  "failures s = {e. Finished (Some e) \<in> set (rs_Goroutines s) \<and> \<not> is_canceled e}"

definition run_inv :: "run_state \<Rightarrow> bool" where
  "run_inv s \<longleftrightarrow> rs_Goroutines s \<noteq> [] \<and>
     (case rs_GroupErr s of None \<Rightarrow> failures s = {} | Some e \<Rightarrow> e \<in> failures s) \<and>
     (last (rs_Goroutines s) \<noteq> Running \<longrightarrow> rs_Cancelled s) \<and>
     (\<forall>r. rs_Result s = Some r \<longrightarrow> r = rs_GroupErr s \<and> rs_Cancelled s \<and> (\<forall>g \<in> set (rs_Goroutines s). \<exists>err. g = Finished err))"

lemma ignoreCanceled_Some [simp]: "ignoreCanceled err = Some e \<longleftrightarrow> err = Some e \<and> \<not> is_canceled e"
  by (auto simp: ignoreCanceled_def split: option.splits if_splits)

lemma ignoreCanceled_None [simp]: "ignoreCanceled err = None \<longleftrightarrow> (\<forall>e. err = Some e \<longrightarrow> is_canceled e)"
  by (auto simp: ignoreCanceled_def split: option.splits if_splits)


lemma finished_update:
  assumes "i < length gs" and "\<forall>err. gs ! i \<noteq> Finished err"
  shows "Finished x \<in> set (gs[i := g]) \<longleftrightarrow> g = Finished x \<or> Finished x \<in> set gs"
proof -
  have "(Finished x \<in> set (gs[i := g])) = (\<exists>j < length gs. (if j = i then g else gs ! j) = Finished x)"
    by (auto simp: in_set_conv_nth nth_list_update)
  also have "\<dots> = (g = Finished x \<or> (\<exists>j < length gs. gs ! j = Finished x))" using assms by metis
  finally show ?thesis by (auto simp: in_set_conv_nth)
qed

lemma failures_returns:
  "i < length (rs_Goroutines s) \<Longrightarrow> rs_Goroutines s ! i = Running \<Longrightarrow> failures (body_returns i err s) = failures s"
  by (simp add: failures_def body_returns_def finished_update)

lemma failures_records:
  "i < length (rs_Goroutines s) \<Longrightarrow> rs_Goroutines s ! i = Returning err \<Longrightarrow>
   failures (group_records i err s) = failures s \<union> {e. ignoreCanceled err = Some e}"
  by (auto simp: failures_def group_records_def finished_update)

lemma unfinished_unreturned:
  "run_inv s \<Longrightarrow> i < length (rs_Goroutines s) \<Longrightarrow> (\<forall>err. rs_Goroutines s ! i \<noteq> Finished err) \<Longrightarrow> rs_Result s = None"
  unfolding run_inv_def by (metis nth_mem option.exhaust)

lemma run_step_inv:
  assumes "run_step s s'" and inv: "run_inv s"
  shows "run_inv s'"
  using assms(1)
proof (cases rule: run_step.cases)
  case signal
  with inv show ?thesis by (auto simp: run_inv_def failures_def split: option.splits)
next
  case (returns i err)
  have "rs_Result s = None" by (rule unfinished_unreturned[OF inv returns(2)]) (simp add: returns(3))
  with inv show ?thesis
    unfolding returns(1) run_inv_def failures_returns[OF returns(2,3)] by (simp add: body_returns_def manager_index_def last_list_update)
next
  case (records i err)
  have "rs_Result s = None" by (rule unfinished_unreturned[OF inv records(2)]) (simp add: records(3))
  moreover have "last ((rs_Goroutines s)[i := Finished err]) \<noteq> Running \<longrightarrow> rs_Cancelled s"
    using inv records(2,3) by (cases "rs_Goroutines s = []") (auto simp: run_inv_def last_conv_nth nth_list_update split: if_splits)
  moreover have "case rs_GroupErr (group_records i err s) of None \<Rightarrow> failures (group_records i err s) = {} | Some e \<Rightarrow> e \<in> failures (group_records i err s)"
    unfolding failures_records[OF records(2,3)] using inv
    by (auto simp: run_inv_def group_records_def split: option.splits)
  ultimately show ?thesis using inv unfolding records(1) run_inv_def by (simp add: group_records_def)
next
  case waits
  with inv show ?thesis by (auto simp: run_inv_def group_waits_def failures_def split: option.splits)
qed

lemma run_reachable_inv: "run_step\<^sup>*\<^sup>* (run_init n) s \<Longrightarrow> run_inv s"
proof (induction rule: rtranclp_induct)
  case base
  show ?case by (simp add: run_inv_def run_init_def failures_def)
next
  case (step s s')
  then show ?case using run_step_inv by blast
qed

text \<open>
  C29. However the returns of the manager and the workers, signals and the bookkeeping of the group
  interleave: the process returns only when the manager and every worker have returned, without an
  error exactly if all of them returned nil or a cancellation, and otherwise with an error one of
  them returned; and the context of all of them is done as soon as the manager has returned, one of
  them is recorded with an error that counts, or a signal came. (On a second signal the library
  exits the process; only the first is modelled.)
\<close>

theorem runUntilManagerStops_safe:
  assumes "run_step\<^sup>*\<^sup>* (run_init n) s"
  shows "(\<forall>r. rs_Result s = Some r \<longrightarrow>
      (\<forall>g \<in> set (rs_Goroutines s). \<exists>err. g = Finished err) \<and>
      (r = None \<longleftrightarrow> (\<forall>e. Finished (Some e) \<in> set (rs_Goroutines s) \<longrightarrow> is_canceled e)) \<and>
      (\<forall>e. r = Some e \<longrightarrow> Finished (Some e) \<in> set (rs_Goroutines s) \<and> \<not> is_canceled e)) \<and>
    (last (rs_Goroutines s) \<noteq> Running \<or> rs_Signalled s \<or>
      (\<exists>e. Finished (Some e) \<in> set (rs_Goroutines s) \<and> \<not> is_canceled e) \<longrightarrow> context_done s)"
proof -
  note inv = run_reachable_inv[OF assms, unfolded run_inv_def failures_def]
  show ?thesis using inv by (cases "rs_GroupErr s") (auto simp: context_done_def)
qed

section \<open>Termination\<close>

text \<open>The steps that are left: two for a running goroutine, one for one that is returning, the signal and the wait.\<close>

fun pending :: "goroutine \<Rightarrow> nat" where
  "pending Running = 2"
| "pending (Returning err) = 1"
| "pending (Finished err) = 0"

definition steps_left :: "run_state \<Rightarrow> nat" where
  "steps_left s = sum_list (map pending (rs_Goroutines s)) + (if rs_Signalled s then 0 else 1) + (if rs_Result s = None then 1 else 0)"

lemma pending_update:
  "i < length gs \<Longrightarrow> sum_list (map pending (gs[i := g])) + pending (gs ! i) = sum_list (map pending gs) + pending g"
proof (induction gs arbitrary: i)
  case (Cons h gs)
  then show ?case by (cases i) fastforce+
qed simp

lemma run_step_decreases:
  assumes "run_step s s'"
  shows "steps_left s' < steps_left s"
  using assms
proof (cases rule: run_step.cases)
  case (returns i err)
  then show ?thesis using pending_update[of i "rs_Goroutines s" "Returning err"] by (simp add: steps_left_def body_returns_def)
next
  case (records i err)
  then show ?thesis using pending_update[of i "rs_Goroutines s" "Finished err"] by (simp add: steps_left_def group_records_def)
qed (simp_all add: steps_left_def group_waits_def)

lemma run_not_stuck:
  assumes "rs_Result s = None"
  shows "\<exists>s'. run_step s s'"
proof (cases "\<forall>g \<in> set (rs_Goroutines s). \<exists>err. g = Finished err")
  case True
  with assms show ?thesis by (blast intro: run_step.waits)
next
  case False
  then obtain i where i: "i < length (rs_Goroutines s)" "\<forall>err. rs_Goroutines s ! i \<noteq> Finished err" by (metis in_set_conv_nth)
  then show ?thesis by (cases "rs_Goroutines s ! i") (blast intro: run_step.returns run_step.records)+
qed

text \<open>
  The group never deadlocks: with \<open>n\<close> workers every run is of at most \<open>2n + 4\<close> steps, and a
  run that cannot be continued has returned a result.
\<close>

theorem runUntilManagerStops_ends:
  assumes "(run_step ^^ k) (run_init n) s"
  shows "k \<le> 2 * n + 4 \<and> ((\<nexists>s'. run_step s s') \<longrightarrow> rs_Result s \<noteq> None)"
proof -
  have "steps_left s + k \<le> steps_left (run_init n)" using assms
  proof (induction k arbitrary: s)
    case (Suc k)
    then obtain s' where "(run_step ^^ k) (run_init n) s'" "run_step s' s" by auto
    with Suc.IH[of s'] run_step_decreases[of s' s] show ?case by simp
  qed simp
  moreover have "steps_left (run_init n) = 2 * n + 4"
    by (simp add: steps_left_def run_init_def sum_list_replicate)
  ultimately show ?thesis using run_not_stuck[of s] by auto
qed

section \<open>Evaluations\<close>

text \<open>The manager stops with an error, the worker sees the cancellation.\<close>

definition example_stop :: "run_state list" where
  "example_stop =
     (let s0 = run_init 1; s1 = body_returns 1 (Some (ErrorString ''lost'')) s0; s2 = body_returns 0 (Some Canceled) s1;
          s3 = group_records 0 (Some Canceled) s2; s4 = group_records 1 (Some (ErrorString ''lost'')) s3 in [s0, s1, s2, s3, s4, group_waits s4])"

lemmas example_stop_states = example_stop_def run_init_def body_returns_def group_records_def group_waits_def manager_index_def Let_def
  ignoreCanceled_def Canceled_def

lemma example_stop_steps:
  assumes "i < 5"
  shows "run_step (example_stop ! i) (example_stop ! Suc i)"
proof -
  let ?err = "Some (ErrorString ''lost'')"
  have "run_step (example_stop ! 0) (example_stop ! 1)"
    using run_step.returns[of 1 "example_stop ! 0" ?err] by (simp add: example_stop_states)
  moreover have "run_step (example_stop ! 1) (example_stop ! 2)"
    using run_step.returns[of 0 "example_stop ! 1" "Some Canceled"] by (simp add: example_stop_states)
  moreover have "run_step (example_stop ! 2) (example_stop ! 3)"
    using run_step.records[of 0 "example_stop ! 2" "Some Canceled"] by (simp add: example_stop_states)
  moreover have "run_step (example_stop ! 3) (example_stop ! 4)"
    using run_step.records[of 1 "example_stop ! 3" ?err] by (simp add: example_stop_states)
  moreover have "run_step (example_stop ! 4) (example_stop ! 5)"
    using run_step.waits[of "example_stop ! 4"] by (simp add: example_stop_states)
  ultimately show ?thesis using assms by (auto simp: less_Suc_eq numeral_eq_Suc)
qed

lemma example_stop_run: "i \<le> 5 \<Longrightarrow> (run_step ^^ i) (run_init 1) (example_stop ! i)"
proof (induction i)
  case (Suc i)
  with example_stop_steps[of i] show ?case by auto
qed (simp add: example_stop_def Let_def)

theorem runUntilManagerStops_safe_witness:
  "rs_Result (example_stop ! 5) = Some (Some (ErrorString ''lost'')) \<and>
   set (rs_Goroutines (example_stop ! 5)) \<subseteq> range Finished"
proof -
  have "run_step\<^sup>*\<^sup>* (run_init 1) (example_stop ! 5)" using example_stop_run[of 5] by (simp add: relpowp_imp_rtranclp)
  moreover have "rs_Result (example_stop ! 5) = Some (Some (ErrorString ''lost''))" by (simp add: example_stop_states)
  ultimately show ?thesis using runUntilManagerStops_safe[of 1 "example_stop ! 5"] by (auto simp: subset_iff)
qed

theorem runUntilManagerStops_ends_witness: "5 \<le> 2 * 1 + (4 :: nat) \<and> (run_step ^^ 5) (run_init 1) (example_stop ! 5)"
  using runUntilManagerStops_ends[OF example_stop_run[of 5]] example_stop_run[of 5] by simp

end
