(* ===== verification/Rate_Limiter.thy ===== *)
theory Rate_Limiter
  imports Prelude "HOL-Library.Signed_Division" "HOL-Library.Word"
begin

text \<open>
  The delay before a failed request is tried again (\<open>internal/controller/rate_limiter.go\<close>): a
  random delay around the back-off of the library's rate limiter. Durations are signed 64-bit
  words of nanoseconds. The library's limiter and \<open>rand.Int63n\<close> are arguments with a state of
  their own.
\<close>

section \<open>Definitions\<close>

definition When :: "('i \<Rightarrow> 's \<Rightarrow> 64 word \<times> 's) \<Rightarrow> (64 word \<Rightarrow> 's \<Rightarrow> 64 word \<times> 's) \<Rightarrow> 'i \<Rightarrow> 's \<Rightarrow> 64 word \<times> 's" where
  "When limiter Int63n item s =
     (let (d, s) = limiter item s in
      if d \<le>s 0 then (d, s)
      else let (j, s) = Int63n d s in (word_of_int (sint d sdiv 2) + j, s))"

text \<open>What is documented of \<open>rand.Int63n\<close>: for a positive bound, a number from zero to below it.\<close>

definition Int63n_ok :: "(64 word \<Rightarrow> 's \<Rightarrow> 64 word \<times> 's) \<Rightarrow> bool" where
  "Int63n_ok rnd \<longleftrightarrow> (\<forall>n s. 0 <s n \<longrightarrow> 0 \<le> sint (fst (rnd n s)) \<and> sint (fst (rnd n s)) < sint n)"

section \<open>Bounds\<close>

text \<open>
  C40. A delay that is not positive is kept; any other becomes a delay from half of it up to
  one and a half of it, without overflow while that fits 64 bits.
\<close>

theorem When_jitter:
  assumes "Int63n_ok Int63n" and "limiter item s = (d, s')" and "sint d div 2 + sint d \<le> 2 ^ 63"
  shows "let r = sint (fst (When limiter Int63n item s)) in
    if sint d \<le> 0 then r = sint d else sint d div 2 \<le> r \<and> r < sint d div 2 + sint d"
proof (cases "sint d \<le> 0")
  case True
  with assms(2) show ?thesis by (simp add: When_def word_sle_eq)
next
  case False
  obtain j s'' where j: "Int63n d s' = (j, s'')" by fastforce
  from assms(1) False have "0 \<le> sint (fst (Int63n d s')) \<and> sint (fst (Int63n d s')) < sint d"
    unfolding Int63n_ok_def word_sless_alt by simp
  with j have bounds: "0 \<le> sint j" "sint j < sint d" by simp_all
  have half: "sint d sdiv 2 = sint d div 2" using False by (simp add: signed_divide_int_def)
  have sum: "word_of_int (sint d sdiv 2) + j = word_of_int (sint d div 2 + sint j)"
    by (simp add: half)
  have "sint (word_of_int (sint d sdiv 2) + j) = sint d div 2 + sint j"
    unfolding sum int_word_sint using bounds assms(3) False by simp
  with bounds False assms(2) j show ?thesis by (simp add: When_def word_sle_eq)
qed

text \<open>A first back-off of five milliseconds, in nanoseconds.\<close>

theorem When_jitter_witness:
  "let r = sint (fst (When (\<lambda>_ s. (5000000, s)) (\<lambda>n s. (if 0 \<le>s s \<and> s <s n then s else 0, s + 1)) ''key'' 7)) in
   2500000 \<le> r \<and> r < 7500000"
proof -
  have "Int63n_ok (\<lambda>n (s :: 64 word). (if 0 \<le>s s \<and> s <s n then s else 0, s + 1))"
    by (auto simp: Int63n_ok_def word_sless_alt word_sle_eq)
  from When_jitter[OF this, of "\<lambda>_ s. (5000000, s)" "''key''" 7 5000000 7] show ?thesis by (simp add: Let_def)
qed

end
