(* ===== verification/Spec2Isabelle.thy ===== *)
theory Spec2Isabelle
  imports Hold_Protocol Model_Protocol Access Process Shutdown Rate_Limiter
begin

text \<open>
  A verification library for the OpenFGA authorization provider: controllers that turn
  ProtectedResources, Roles, PolicyBindings, memberships and owner references into an OpenFGA
  authorization model and relationship tuples, and a webhook that answers
  SubjectAccessReviews from them.

  \<^bold>\<open>The program and its model.\<close> State-changing code is modelled by explicit state passing: a
  call on a world \<open>'w\<close> returns a result (\<open>Inl\<close> the Go error) and the new world; code whose
  loops may not end returns an option (\<open>None\<close>: it does not return). The combinators are in
  \<open>Prelude\<close>, the API objects in \<open>Api_Types\<close>. The OpenFGA service, the Kubernetes API,
  the finalizer registry and helpers of the controller runtime, \<open>meta.SetStatusCondition\<close> and
  the protobuf comparison are not part of the repository: they are fields of the records the
  definitions take, and what is relied on is a named hypothesis (\<open>paged_reads\<close>,
  \<open>atomic_writes\<close>, \<open>model_store\<close>, \<open>config_maps\<close>, \<open>condition_setter\<close>, \<open>pr_api\<close>,
  \<open>adds_finalizer\<close> and others), each shown satisfiable by the in-memory service of \<open>Memory_Store\<close> and the
  evaluations at the end of each theory. Log output, metrics and traces are left out.

  \<^item> \<open>Permissions\<close> (\<open>internal/permissions/permissions.go\<close>): parsing and printing are mutually
    inverse; the two registries agree.
  \<^item> \<open>Resource_Graph\<close> (\<open>internal/openfga/resources.go\<close>): when the graph can be built, which types
    it holds and with what permissions, parents and children.
  \<^item> \<open>Model_Builder\<close>, \<open>Model_Facts\<close> (\<open>internal/openfga/authorization_model_reconciler.go\<close>, the
    pure part): the 32-bit hash, the memoised inherited permissions equal their closed form, the
    types and relations of the model, independence of the listing order.
  \<^item> \<open>Fga_Client\<close> (\<open>errors.go\<close>, \<open>tuples.go\<close>, \<open>index.go\<close>, \<open>model_id.go\<close>,
    \<open>model_transition.go\<close>): paged reads are complete, batched deletion ends and deletes exactly
    the given keys, a retried write has the effect of one.
  \<^item> \<open>Model_Reconciler\<close> (the effectful part of the model reconciler): merge, write and publication
    converge in one round.
  \<^item> \<open>Model_Controller\<close>, \<open>Model_Protocol\<close> (\<open>authorizationmodel_controller.go\<close>): the outcome of
    a reconcile and of a finalization; and the worker, its queue, the informer cache and the API
    server as a step relation, with the invariant that a resource recorded as handled is part of
    the stored model and that none is forgotten.
  \<^item> \<open>Model_Typing\<close>: when a built model passes the service's validation, and that the tuples of a
    binding fit the model built from the same registrations.
  \<^item> \<open>Conditions\<close>: status conditions and the finalizer registry of the controller runtime, which adds
    a missing finalizer to an object that is not being deleted. The first reconcile of a Role, a
    PolicyBinding or a GroupMembership does only that; the outcome theorems cover it and the later ones.
  \<^item> \<open>Policy\<close> (\<open>policy_reconciler.go\<close>): a specification of the tuples a binding calls for
    (\<open>calls_for\<close>, \<open>called_elsewhere\<close>), stated apart from the code; reconciliation and deletion
    meet it exactly and protect the grants of sibling bindings, and both always return.
  \<^item> \<open>Role_Inheritance\<close>, \<open>Role_Controller\<close> (\<open>role_inheritance.go\<close>, \<open>role_controller.go\<close>,
    \<open>role_reconciler.go\<close>): effective permissions over a possibly cyclic inheritance graph,
    dependents of a Role, the status a reconcile leaves, and which Roles must be queued.
  \<^item> \<open>Object_Hold\<close>, \<open>Hold_Protocol\<close> (\<open>target_hold.go\<close>, \<open>object_tuples.go\<close>, parts of
    \<open>resourceownerhierarchy_controller.go\<close>): clearing and releasing an object, and the lock and
    finalizer protocol of writers and finalizers as a step relation over any number of threads.
  \<^item> \<open>Hierarchy\<close> (\<open>resourceownerhierarchy_controller.go\<close>, \<open>organization_controller.go\<close>): the
    parent tuples of a Project after a synchronisation.
  \<^item> \<open>Membership\<close> (\<open>group_member_reconciler.go\<close>, \<open>groupmembership_controller.go\<close>,
    \<open>systemgroup_controller.go\<close>): membership tuples refine a set of pairs. The locale
    \<open>membership_ops\<close> states the contract once and is interpreted for both kinds of group.
  \<^item> \<open>Binding_Controller\<close> (\<open>policybinding_controller.go\<close>): the outcome of a reconcile of a
    PolicyBinding, and which bindings must be queued when a Role changes.
  \<^item> \<open>Webhook_Caches\<close> (\<open>protectedresource_cache.go\<close>, \<open>model_id_watcher.go\<close>, \<open>discovery.go\<close>)
    and \<open>Webhook\<close> (\<open>subjectaccessreview_authorizer.go\<close>, \<open>webhook.go\<close>, \<open>http.go\<close>,
    \<open>response.go\<close>): through any event sequence the cache returns nothing but current live
    registrations, and exactly those whose names no other live one shares; a request is
    allowed exactly when its checks are, organizations are isolated, and every failure denies.
  \<^item> \<open>Rate_Limiter\<close> (\<open>rate_limiter.go\<close>): the random delay of a retry, its bounds on 64-bit words.
  \<^item> \<open>Wiring\<close> (the \<open>SetupWithManager\<close> methods): the watches, predicates, indexes and finalizers the
    controllers register, as a list of actions; through them no event on a Role that matters is lost
    for a binding or for another Role.
  \<^item> \<open>Process\<close> (\<open>cmd/manager.go\<close>, \<open>cmd/webhook.go\<close>, \<open>internal/config\<close>, \<open>internal/telemetry\<close>): the
    two commands as logs of steps; the controllers are registered before the manager starts and
    share what the other theories assume they share (store, lock pool, flag, published model ID).
  \<^item> \<open>Shutdown\<close> (\<open>runUntilManagerStops\<close>): the error group of the manager and its workers as a step
    relation; the process ends only after all of them, with the right result, and cannot deadlock.
  \<^item> \<open>Check_Semantics\<close>, \<open>Access\<close>: the documented evaluation of a check by the service as an inductive
    relation over the stored tuples and the model, its closed form for the models built here, and
    what the store holds once every binding has been reconciled.
  \<^item> This theory: a reconciled binding makes the webhook allow what its role grants, and nothing is
    allowed without such a binding.

  \<^bold>\<open>Termination.\<close> No fuel is used. Loops on finite data are structural or have a measure (the
  unvisited types of the graph, the Roles not yet visited, the tuples not yet deleted); loops that
  depend on the service's answers are \<open>partial_function (option)\<close>, and that they return is proved
  from the law of the service they rely on.

  \<^bold>\<open>What the abstractions leave out.\<close> The step relation of the hold protocol reads objects live,
  as the code does for held targets, and follows the object that guards a tuple; the Project side of
  a parent tuple is guaranteed by the work queue and is not part of it. It takes the child types of a
  kind as fixed during a run, while the code lists the ProtectedResources at every read: a registration
  that declares a new child type while an object of the parent kind is being released is outside it.
  Correspondingly it lets a writer store only tuples that name the guarding object as their object or
  as the parent of a declared child type, a condition \<open>syncParent\<close> itself does not test; and other API
  clients may change or delete an object but do not take our finalizer off it. The step relation of the
  model controller delivers a deletion before the creation of an object of the same name, as a watch
  does; a watch delivers the latest version of an object, and listing and rebuilding are one step of
  the worker. The step relation of the shutdown knows one signal: on a second one the library exits the
  process at once. Two ProtectedResources may declare one service and plural name; the cache is then
  only known not to return anything stale. A reconcile of the model compares with the previous model through a library comparison, so
  the stored model is known up to that comparison.

  The set-up of a process is modelled up to the library objects it constructs: they are handles, and
  the reconcilers that the controllers run are connected with the models of the reconcilers by name.

  \<^bold>\<open>Not modelled.\<close> The parser of the command line, the registration of types with schemes, the
  generated copy methods of the configuration record, request identifiers for logs and the load-test
  generator: they take no decision about authorization and consist of calls of libraries.
\<close>

section \<open>From a binding to a decision\<close>

text \<open>
  C1. A grant takes effect: after a successful reconcile of a binding on a type of the model,
  a request is allowed when it is admissible, its user is a subject of the binding or a member
  of a group that is, its permission is one the bound role grants on the binding's target, and
  the target is one of the objects the authorizer checks for the request or one that the
  parents of such an object lead to.
\<close>

theorem granted_binding_allows:
  assumes service: "policy_service r stored listing position" "unconditional (stored w)" and run: "ReconcilePolicy r b w = Some (Inr (), w')"
    and target: "TargetObjectFromResourceSelector (pb_ResourceSelector b) = Inr target"
    and valid: "getHierarchicalPermissionsForSelector r (pb_ResourceSelector b) w = Inr valid" "pol_EnableSubresourceAuthorization r \<or> valid \<noteq> {}"
    and role: "fetchRole r b w = Inr role"
    and created: "createExpectedAuthorizationModel (pol_EnableSubresourceAuthorization r) prs = Inr m" "prs \<noteq> []" "reserved_free prs" "colon_free prs"
    and registered: "one_per_type prs" "ListProtectedResources (pol_K8sClient r) w = Inr prs"
      "selector_type (pb_ResourceSelector b) \<in> insert TypeRoot (reachable_types prs)"
    and s: "s \<in> set (pb_Subjects b)" "stands_for m (stored w') (user_UID (GetUser attributes)) s"
    and permission: "buildPermissionString o' attributes \<in> role_grants (pol_EnableSubresourceAuthorization r) valid role"
    and request: "admissible o' pr attributes" "obj \<in> checked_objects o' pr attributes" "(parent_link m (stored w'))\<^sup>*\<^sup>* obj target"
      "has_relation m (object_type obj) (HashPermission (buildPermissionString o' attributes))"
    and answers: "batch_answers o' allowed w'" "evaluates o' allowed m stored w'"
  shows "fst (Authorize o' attributes w') = DecisionAllow"
proof -
  have "reconcilePolicy r b w = Some (Inr (), w')" using run by (auto simp: ReconcilePolicy_def go_calls)
  from service this obtain desired where built: "buildPermissionTuples r b role target valid = Inr desired" and sub: "set desired \<subseteq> stored w'"
    by (rule reconcilePolicy_effect) (use target valid role in \<open>auto split: if_splits\<close>)
  let ?p = "buildPermissionString o' attributes"
  from built s(1) obtain u where u: "getTupleUser s = Inr u"
    using build_tuples_users unfolding buildPermissionTuples_def Let_def by blast
  then have user: "u \<in> binding_users b" using s(1) by (auto simp: binding_users_def)
  with permission sub have "permission_tuple u target ?p \<in> stored w'" using buildPermissionTuples_set[OF built] by blast
  then have "permission_tuple u target ?p \<in> usable m (stored w')"
    by (rule desired_usable[OF created registered(1,2) valid registered(3) target user permission])
  with s(2) stands_for_iff[OF created(1,2) u]
  have "granted m (stored w') (TypeInternalUser @ '':'' @ user_UID (GetUser attributes)) (HashPermission ?p) target"
    unfolding granted_def HashPermission_def by (intro bexI[of _ "permission_tuple u target ?p"]) (auto simp: permission_tuple_def)
  with request show ?thesis unfolding Authorize_allow_grants[OF created answers] by blast
qed

text \<open>
  C2. No access without a binding, in a store without left-overs: when every stored
  permission tuple is about a current subject of a current binding and that binding's target
  (so none is left of a deleted binding, nor of a subject that was taken off a binding, whose
  tuples no reconcile removes: \<open>former_subject_keeps_tuples\<close>) and then every binding has
  been reconciled, a request is allowed only if a live binding on a checked object, or on an
  object its parents lead to, binds the user or a group of the user to a role with the
  requested permission (or one with the same 32-bit hash).
\<close>

theorem access_requires_binding:
  assumes service: "policy_service r stored listing position" "unconditional (stored w)"
    and cluster: "reads_fixed r bs" "\<forall>b \<in> set bs. \<not> pb_DeletionTimestamp b"
    and clean: "\<forall>t \<in> stored w. \<forall>p. tk_Relation t = hashPermission p \<longrightarrow> (\<exists>b \<in> set bs. concerns b t)"
    and run: "reconcile_all r bs w = Some w'"
    and created: "createExpectedAuthorizationModel en prs = Inr m" "prs \<noteq> []" "reserved_free prs" "colon_free prs"
    and answers: "batch_answers o' allowed w'" "evaluates o' allowed m stored w'"
    and allow: "fst (Authorize o' attributes w') = DecisionAllow"
  shows "\<exists>pr obj target b s role q. admissible o' pr attributes \<and> obj \<in> checked_objects o' pr attributes \<and>
    (parent_link m (stored w'))\<^sup>*\<^sup>* obj target \<and>
    b \<in> set bs \<and> TargetObjectFromResourceSelector (pb_ResourceSelector b) = Inr target \<and>
    s \<in> set (pb_Subjects b) \<and> stands_for m (stored w') (user_UID (GetUser attributes)) s \<and>
    fetchRole r b w' = Inr role \<and> q \<in> role_permissions role \<and>
    HashPermission q = HashPermission (buildPermissionString o' attributes)"
proof -
  let ?u = "TypeInternalUser @ '':'' @ user_UID (GetUser attributes)" and ?r = "HashPermission (buildPermissionString o' attributes)"
  from allow obtain pr obj target where request: "admissible o' pr attributes" "obj \<in> checked_objects o' pr attributes"
      "(parent_link m (stored w'))\<^sup>*\<^sup>* obj target" and "granted m (stored w') ?u ?r target"
    unfolding Authorize_allow_grants[OF created answers] by blast
  then obtain t where t: "t \<in> stored w'" "tk_Object t = target" "tk_Relation t = ?r"
    and user: "tk_User t = ?u \<or> (\<exists>g. tk_User t = g @ ''#'' @ RelationMember \<and> member_of m (stored w') ?u g)"
    by (auto simp: granted_def usable_def)
  have "called_for r bs w' t"
    using reconcile_all_called_for[OF service(1) cluster run service(2) subset_refl _ t(1)] clean t(3) by (simp add: HashPermission_def)
  then obtain b role q where b: "b \<in> set bs" "TargetObjectFromResourceSelector (pb_ResourceSelector b) = Inr target"
      "tk_User t \<in> binding_users b" "fetchRole r b w' = Inr role" "q \<in> role_permissions role" "?r = hashPermission q"
    unfolding called_for_def t(2,3) by blast
  from b(3) obtain s where s: "s \<in> set (pb_Subjects b)" "getTupleUser s = Inr (tk_User t)" by (auto simp: binding_users_def)
  with user stands_for_iff[OF created(1,2) s(2)] have "stands_for m (stored w') (user_UID (GetUser attributes)) s" by blast
  with request b s(1) show ?thesis unfolding HashPermission_def by metis
qed

text \<open>
  An evaluation. The project \<open>web\<close> belongs to the organization \<open>acme\<close>, on which two
  bindings grant alice a role each; alice lists virtual machines through the project.
\<close>

definition acme_bindings :: "PolicyBinding list" where
  "acme_bindings = [example_binding ''b1'' ''viewer'', example_binding ''b2'' ''reader'']"

definition acme_policy :: "mem_world PolicyReconciler" where
  "acme_policy = example_policy\<lparr>pol_K8sClient := (pol_K8sClient example_policy)
     \<lparr>ListPolicyBindingsByTarget := (\<lambda>target w. Inr (if target = ''rm.io/Org:acme'' then acme_bindings else []))\<rparr>\<rparr>"

definition acme_store :: mem_world where
  "acme_store = example_store\<lparr>mem_tuples := grant ''rm.io/Org:acme'' RelationParent ''rm.io/Project:web'' # mem_tuples example_store\<rparr>"

text \<open>The first binding's grant is added and a stale tuple of alice removed; the second binding has what it calls for.\<close>

definition acme_granted :: mem_world where
  "acme_granted = acme_store\<lparr>mem_tuples :=
     [grant ''rm.io/Org:acme'' RelationParent ''rm.io/Project:web'',
      permission_tuple (TypeInternalUser @ '':alice'') ''rm.io/Org:acme'' ''rm.io/orgs.get'',
      permission_tuple (TypeInternalUser @ '':alice'') ''rm.io/Org:acme'' ''c.io/vms.list'']\<rparr>"

definition model_allowed :: "string \<Rightarrow> string \<Rightarrow> CheckRequestTupleKey \<Rightarrow> mem_world \<Rightarrow> bool" where
  "model_allowed sid mid k w = fga_check example_model (mem_stored w) (check_User k) (check_Relation k) (check_Object k)"

definition vm_pr :: ProtectedResource where
  "vm_pr = example_pr ''c.io'' ''VM'' ''vms'' [''list''] [(''rm.io'', ''Project''), (''rm.io'', ''Org'')]"

definition vm_authorizer :: "mem_world SubjectAccessReviewAuthorizer" where
  "vm_authorizer = example_authorizer\<lparr>EnableSubresourceAuthorization := False, Cache := AddFunc empty_cache (Object vm_pr)\<rparr>"

definition acme_authorizer :: "mem_world SubjectAccessReviewAuthorizer" where
  "acme_authorizer = vm_authorizer\<lparr>BatchCheck := (\<lambda>rq w. Inr (map (\<lambda>i. (item_CorrelationId i,
     model_allowed (bc_StoreId rq) (bc_AuthorizationModelId rq) (item_TupleKey i) w)) (bc_Checks rq)))\<rparr>"

definition list_vms :: Attributes where
  "list_vms =
     \<lparr>GetUser = \<lparr>user_Name = ''Alice'', user_UID = ''alice'', user_Groups = [],
        user_Extra = [(''group'', [''rm.io'']), (''kind'', [''Project'']), (''name'', [''web''])]\<rparr>,
      GetVerb = ''list'', GetNamespace = [], GetAPIGroup = ''c.io'', GetAPIVersion = ''v1'', GetResource = ''vms'', GetSubresource = [],
      GetName = [], IsResourceRequest = True, GetPath = []\<rparr>"

lemma acme_run: "ReconcilePolicy acme_policy (example_binding ''b1'' ''viewer'') acme_store = Some (Inr (), acme_granted)"
  by code_simp

lemma acme_run_all: "reconcile_all acme_policy acme_bindings acme_store = Some acme_granted"
proof -
  have "ReconcilePolicy acme_policy (example_binding ''b2'' ''reader'') acme_granted = Some (Inr (), acme_granted)" by code_simp
  then show ?thesis using acme_run by (simp add: acme_bindings_def)
qed

lemma acme_service: "policy_service acme_policy mem_stored mem_listing length"
  by (simp add: policy_service_def acme_policy_def example_policy_def mem_paged_reads mem_atomic_writes mem_provider_keeps)

lemma acme_unconditional: "unconditional (mem_stored acme_store)"
  by (simp add: unconditional_def mem_stored_def acme_store_def example_store_def permission_tuple_def grant_def)

lemma vm_answers: "batch_answers acme_authorizer model_allowed w" "evaluates acme_authorizer model_allowed example_model mem_stored w"
  by (simp_all add: batch_answers_def evaluates_def acme_authorizer_def vm_authorizer_def model_allowed_def)

lemma example_colon_free: "colon_free example_prs"
  by (auto simp: colon_free_def example_prs_def example_pr_def fqType_def fqParentResources_def)

lemmas example_created = example_model_ok example_prs_nonempty example_registrations(1) example_colon_free

lemma vm_user: "user_UID (GetUser list_vms) = ''alice''"
  by (simp add: list_vms_def)

lemma vm_request:
  "admissible acme_authorizer vm_pr list_vms" "''rm.io/Project:web'' \<in> checked_objects acme_authorizer vm_pr list_vms"
  "buildPermissionString acme_authorizer list_vms = ''c.io/vms.list''"
proof -
  have parent: "extractParentContext acme_authorizer list_vms = Some \<lparr>pc_apiGroup = ''rm.io'', pc_kind = ''Project'', pc_name = ''web''\<rparr>"
    by (simp add: extractParentContext_def acme_authorizer_def vm_authorizer_def example_authorizer_def list_vms_def)
  have "GetByAPIGroupAndResource (Cache vm_authorizer) (getEffectiveAPIGroup list_vms) (GetResource list_vms) = Some vm_pr" by code_simp
  then have hit: "GetByAPIGroupAndResource (Cache acme_authorizer) (getEffectiveAPIGroup list_vms) (GetResource list_vms) = Some vm_pr"
    by (simp add: acme_authorizer_def)
  show "admissible acme_authorizer vm_pr list_vms"
    unfolding admissible_def namespace_admitted_def registers_def hit parent
    by (simp add: list_vms_def acme_authorizer_def vm_authorizer_def vm_pr_def example_pr_def)
  show "''rm.io/Project:web'' \<in> checked_objects acme_authorizer vm_pr list_vms"
    by (simp add: checked_objects_def scope_objects_def parent ObjectName_def)
  have "buildPermissionString vm_authorizer list_vms = ''c.io/vms.list''" by code_simp
  then show "buildPermissionString acme_authorizer list_vms = ''c.io/vms.list''"
    by (simp add: buildPermissionString_def buildPermission_def acme_authorizer_def)
qed

lemma project_relation: "has_relation example_model (object_type ''rm.io/Project:web'') (HashPermission ''c.io/vms.list'')"
proof -
  have ty: "object_type ''rm.io/Project:web'' = ''rm.io/Project''" by code_simp
  have "map_of (calculateHierarchicalPermissions example_graph) ''rm.io/Project'' = Some [''c.io/vms.list'', ''rm.io/projects.get'']"
    by code_simp
  from example_permissions[OF this] show ?thesis unfolding HashPermission_def ty
    by (intro created_has_relation[OF example_model_ok example_prs_nonempty]) (auto simp: TypeInternalUser_def TypeInternalUserGroup_def)
qed

lemma web_parent: "(parent_link example_model (mem_stored acme_granted))\<^sup>*\<^sup>* ''rm.io/Project:web'' ''rm.io/Org:acme''"
proof -
  let ?spec = "pr_Spec (example_pr ''rm.io'' ''Project'' ''projects'' [''get''] [(''rm.io'', ''Org'')])"
  have "''rm.io/Project'' \<in> reachable_types example_prs - {TypeRoot}" using example_reachable by (auto simp: TypeRoot_def)
  moreover have "Resource_Graph.registered (sort_protected_resources example_prs) ''rm.io/Project'' = Some ?spec"
    unfolding registered_sort[OF example_registrations(2)] by code_simp
  moreover have "''rm.io/Org'' \<in> set (fqParentResources ?spec)" by code_simp
  ultimately have "accepts example_model (grant (''rm.io/Org'' @ '':'' @ ''acme'') RelationParent (''rm.io/Project'' @ '':'' @ ''web''))"
    unfolding grant_def by (rule parent_tuple_accepted[OF example_created])
  then have "grant ''rm.io/Org:acme'' RelationParent ''rm.io/Project:web'' \<in> usable example_model (mem_stored acme_granted)"
    by (simp add: usable_def mem_stored_def acme_granted_def grant_def)
  then have "parent_link example_model (mem_stored acme_granted) ''rm.io/Project:web'' ''rm.io/Org:acme''"
    unfolding parent_link_def by (rule bexI[rotated]) (simp add: grant_def)
  then show ?thesis by (rule r_into_rtranclp)
qed

lemma alice_granted: "granted example_model (mem_stored acme_granted) (TypeInternalUser @ '':alice'') (HashPermission ''c.io/vms.list'') ''rm.io/Org:acme''"
proof -
  let ?t = "permission_tuple (TypeInternalUser @ '':'' @ ''alice'') (''rm.io/Org'' @ '':'' @ ''acme'') ''c.io/vms.list''"
  have "map_of (calculateHierarchicalPermissions example_graph) ''rm.io/Org'' =
      Some [''c.io/vms.list'', ''rm.io/orgs.get'', ''rm.io/projects.get'']" by code_simp
  note org = example_permissions[OF this]
  have "TypeInternalUser @ '':'' @ ''alice'' \<in> binding_users (example_binding ''b1'' ''viewer'')"
    by (simp add: binding_users_def example_binding_def getTupleUser_def)
  from binding_user_fits[OF this] have "accepts example_model ?t"
    by (intro created_accepts[OF example_created(1-3)]) (use org in auto)
  then have "?t \<in> usable example_model (mem_stored acme_granted)"
    by (simp add: usable_def mem_stored_def acme_granted_def permission_tuple_def)
  then show ?thesis unfolding granted_def by (rule bexI[rotated]) (simp add: permission_tuple_def HashPermission_def)
qed

theorem granted_binding_allows_witness: "fst (Authorize acme_authorizer list_vms acme_granted) = DecisionAllow"
proof (rule granted_binding_allows[OF acme_service acme_unconditional acme_run])
  show "TargetObjectFromResourceSelector (pb_ResourceSelector (example_binding ''b1'' ''viewer'')) = Inr ''rm.io/Org:acme''" by code_simp
  show "getHierarchicalPermissionsForSelector acme_policy (pb_ResourceSelector (example_binding ''b1'' ''viewer'')) acme_store =
      Inr (set [''c.io/vms.list'', ''rm.io/orgs.get'', ''rm.io/projects.get''])" by code_simp
  show "fetchRole acme_policy (example_binding ''b1'' ''viewer'') acme_store = Inr (Policy.example_role ''viewer'' [''c.io/vms.list''])" by code_simp
  show "createExpectedAuthorizationModel (pol_EnableSubresourceAuthorization acme_policy) example_prs = Inr example_model"
    "ListProtectedResources (pol_K8sClient acme_policy) acme_store = Inr example_prs"
    using example_model_ok by (simp_all add: acme_policy_def example_policy_def)
  show "selector_type (pb_ResourceSelector (example_binding ''b1'' ''viewer'')) \<in> insert TypeRoot (reachable_types example_prs)"
    using example_reachable by (auto simp: selector_type_def example_binding_def)
  show "\<lparr>subject_Kind = ''User'', subject_Name = ''alice'', subject_UID = ''1'', subject_Namespace = []\<rparr> \<in>
      set (pb_Subjects (example_binding ''b1'' ''viewer''))" by (simp add: example_binding_def)
  show "buildPermissionString acme_authorizer list_vms \<in> role_grants (pol_EnableSubresourceAuthorization acme_policy)
      (set [''c.io/vms.list'', ''rm.io/orgs.get'', ''rm.io/projects.get'']) (Policy.example_role ''viewer'' [''c.io/vms.list''])"
    unfolding vm_request(3) by code_simp
  show "has_relation example_model (object_type ''rm.io/Project:web'') (HashPermission (buildPermissionString acme_authorizer list_vms))"
    using project_relation unfolding vm_request(3) .
qed (use example_created example_registrations vm_request vm_answers web_parent in \<open>simp_all add: stands_for_def vm_user\<close>)

theorem access_requires_binding_witness:
  "\<exists>obj target b s role q. (parent_link example_model (mem_stored acme_granted))\<^sup>*\<^sup>* obj target \<and>
     b \<in> set acme_bindings \<and> TargetObjectFromResourceSelector (pb_ResourceSelector b) = Inr target \<and>
     s \<in> set (pb_Subjects b) \<and> stands_for example_model (mem_stored acme_granted) ''alice'' s \<and>
     fetchRole acme_policy b acme_granted = Inr role \<and> q \<in> role_permissions role \<and> HashPermission q = HashPermission ''c.io/vms.list''"
proof -
  have fixed: "reads_fixed acme_policy acme_bindings"
    by (auto simp: reads_fixed_def acme_policy_def example_policy_def acme_bindings_def example_binding_def TargetObjectFromResourceSelector_def
        ObjectName_def split: if_splits)
  have live: "\<forall>b \<in> set acme_bindings. \<not> pb_DeletionTimestamp b" by (simp add: acme_bindings_def example_binding_def)
  have clean: "\<forall>t \<in> mem_stored acme_store. \<forall>p. tk_Relation t = hashPermission p \<longrightarrow> (\<exists>b \<in> set acme_bindings. concerns b t)"
    by (auto simp: mem_stored_def acme_store_def example_store_def grant_def permission_tuple_def concerns_def acme_bindings_def example_binding_def
        TargetObjectFromResourceSelector_def ObjectName_def binding_users_def getTupleUser_def)
  have "fst (Authorize acme_authorizer list_vms acme_granted) = DecisionAllow"
    unfolding Authorize_allow_grants[OF example_created vm_answers]
    using vm_request project_relation web_parent alice_granted
    by (intro exI[of _ vm_pr] conjI bexI[of _ "''rm.io/Project:web''"] exI[of _ "''rm.io/Org:acme''"])
      (simp_all add: vm_user)
  from access_requires_binding[OF acme_service acme_unconditional fixed live clean acme_run_all example_created vm_answers this]
  show ?thesis unfolding vm_request(3) vm_user by blast
qed

end
